theory Spec2Isabelle
  imports Complex_Main "HOL-Library.Sublist" "HOL-Library.Multiset"
begin

section \<open>Strings\<close>

text \<open>
  A Go string is modelled by its rune sequence (what \<^verbatim>\<open>[]rune(s)\<close> yields); a rune is its
  code point. \<^verbatim>\<open>unicode.IsSpace\<close> is the White Space property of Unicode as the Go
  documentation lists it.
\<close>

type_synonym rune = nat
type_synonym gostring = "rune list"

definition str :: "string \<Rightarrow> gostring" where
  "str s = map of_char s"

definition isSpace :: "rune \<Rightarrow> bool" where
  "isSpace r \<longleftrightarrow>
     (9 \<le> r \<and> r \<le> 13) \<or> r = 32 \<or> r = 133 \<or> r = 160 \<or> r = 5760 \<or>
     (8192 \<le> r \<and> r \<le> 8202) \<or> r = 8232 \<or> r = 8233 \<or> r = 8239 \<or> r = 8287 \<or> r = 12288"

section \<open>Text reconciliation\<close>

definition isIgnoredCompareRune :: "rune \<Rightarrow> bool" where
  "isIgnoredCompareRune r = isSpace r"

text \<open>
  The loop of \<^verbatim>\<open>comparableRunesWithMap\<close>: \<open>i\<close> is the index of the next rune, \<open>comparable\<close> and
  \<open>indexMap\<close> are the two slices being appended to.
\<close>

fun comparableLoop :: "int \<Rightarrow> rune list \<Rightarrow> rune list \<Rightarrow> int list \<Rightarrow> rune list \<times> int list" where
  "comparableLoop i [] comparable indexMap = (comparable, indexMap)"
| "comparableLoop i (r # rs) comparable indexMap =
     (if isIgnoredCompareRune r then comparableLoop (i + 1) rs comparable indexMap
      else comparableLoop (i + 1) rs (comparable @ [r]) (indexMap @ [i]))"

definition comparableRunesWithMap :: "rune list \<Rightarrow> rune list \<times> int list" where
  "comparableRunesWithMap runes = comparableLoop 0 runes [] []"

text \<open>
  The comparison loop of \<^verbatim>\<open>typedMissingSuffix\<close>; it is entered only when the observed runes
  are no more than the intended ones. \<open>True\<close> means that the loop ran to its end.
\<close>

fun runesAgree :: "rune list \<Rightarrow> rune list \<Rightarrow> bool" where
  "runesAgree [] intendedComparable = True"
| "runesAgree (x # xs) [] = False"
| "runesAgree (x # xs) (y # ys) = (if x \<noteq> y then False else runesAgree xs ys)"

definition typedMissingSuffix :: "gostring \<Rightarrow> gostring \<Rightarrow> gostring \<times> bool" where
  "typedMissingSuffix intended observed =
     (let intendedRunes = intended;
          observedRunes = observed;
          (intendedComparable, intendedMap) = comparableRunesWithMap intendedRunes;
          (observedComparable, _) = comparableRunesWithMap observedRunes
      in if length observedComparable > length intendedComparable then ([], False)
         else if \<not> runesAgree observedComparable intendedComparable then ([], False)
         else if length observedComparable = length intendedComparable then ([], True)
         else
           (let start = intendedMap ! length observedComparable
            in if start < 0 \<or> start > int (length intendedRunes) then ([], False)
               else (drop (nat start) intendedRunes, True)))"

text \<open>
  The vocabulary of the properties below: \<open>strip\<close> removes the ignored runes, \<open>retainedIndices\<close>
  lists the original positions of the runes that \<open>strip\<close> keeps, and \<open>retainedFrom\<close> is
  the same list counted from an offset.
\<close>

definition strip :: "gostring \<Rightarrow> gostring" where
  "strip s = filter (\<lambda>r. \<not> isSpace r) s"

definition retainedIndices :: "gostring \<Rightarrow> nat list" where
  "retainedIndices s = filter (\<lambda>k. \<not> isSpace (s ! k)) [0..<length s]"

fun retainedFrom :: "int \<Rightarrow> rune list \<Rightarrow> int list" where
  "retainedFrom i [] = []"
| "retainedFrom i (r # rs) = (if isSpace r then retainedFrom (i + 1) rs else i # retainedFrom (i + 1) rs)"


section \<open>Library functions of the source language\<close>

text \<open>
  \<^verbatim>\<open>strings.TrimSpace\<close> removes leading and trailing white space.
\<close>

definition trimSpace :: "gostring \<Rightarrow> gostring" where
  "trimSpace s = rev (dropWhile isSpace (rev (dropWhile isSpace s)))"

text \<open>
  The case tables of the package \<^verbatim>\<open>unicode\<close> (Unicode 15.0.0) above ASCII. An entry
  \<open>(lo, hi, stride, target)\<close> stands for the runes \<open>lo\<close>, \<open>lo + stride\<close>, \<dots>, \<open>hi\<close>; the
  rune \<open>lo\<close> is mapped to \<open>target\<close> and the others by the same offset. A rune that no
  entry holds is mapped to itself. \<open>lowerRanges\<close> is the simple lowercase mapping
  (\<^verbatim>\<open>UnicodeData.txt\<close>) and \<open>foldRanges\<close> the simple case folding (the entries of status
  \<^verbatim>\<open>C\<close> and \<^verbatim>\<open>S\<close> of \<^verbatim>\<open>CaseFolding.txt\<close>).
\<close>

definition lowerRanges :: "(rune \<times> rune \<times> nat \<times> rune) list" where
  "lowerRanges =
     [(192, 214, 1, 224), (216, 222, 1, 248), (256, 302, 2, 257), (304, 304, 1, 105),
      (306, 310, 2, 307), (313, 327, 2, 314), (330, 374, 2, 331), (376, 376, 1, 255),
      (377, 381, 2, 378), (385, 385, 1, 595), (386, 388, 2, 387), (390, 390, 1, 596),
      (391, 391, 1, 392), (393, 394, 1, 598), (395, 395, 1, 396), (398, 398, 1, 477),
      (399, 399, 1, 601), (400, 400, 1, 603), (401, 401, 1, 402), (403, 403, 1, 608),
      (404, 404, 1, 611), (406, 406, 1, 617), (407, 407, 1, 616), (408, 408, 1, 409),
      (412, 412, 1, 623), (413, 413, 1, 626), (415, 415, 1, 629), (416, 420, 2, 417),
      (422, 422, 1, 640), (423, 423, 1, 424), (425, 425, 1, 643), (428, 428, 1, 429),
      (430, 430, 1, 648), (431, 431, 1, 432), (433, 434, 1, 650), (435, 437, 2, 436),
      (439, 439, 1, 658), (440, 440, 1, 441), (444, 444, 1, 445), (452, 452, 1, 454),
      (453, 453, 1, 454), (455, 455, 1, 457), (456, 456, 1, 457), (458, 458, 1, 460),
      (459, 475, 2, 460), (478, 494, 2, 479), (497, 497, 1, 499), (498, 500, 2, 499),
      (502, 502, 1, 405), (503, 503, 1, 447), (504, 542, 2, 505), (544, 544, 1, 414),
      (546, 562, 2, 547), (570, 570, 1, 11365), (571, 571, 1, 572), (573, 573, 1, 410),
      (574, 574, 1, 11366), (577, 577, 1, 578), (579, 579, 1, 384), (580, 580, 1, 649),
      (581, 581, 1, 652), (582, 590, 2, 583), (880, 882, 2, 881), (886, 886, 1, 887),
      (895, 895, 1, 1011), (902, 902, 1, 940), (904, 906, 1, 941), (908, 908, 1, 972),
      (910, 911, 1, 973), (913, 929, 1, 945), (931, 939, 1, 963), (975, 975, 1, 983),
      (984, 1006, 2, 985), (1012, 1012, 1, 952), (1015, 1015, 1, 1016), (1017, 1017, 1, 1010),
      (1018, 1018, 1, 1019), (1021, 1023, 1, 891), (1024, 1039, 1, 1104), (1040, 1071, 1, 1072),
      (1120, 1152, 2, 1121), (1162, 1214, 2, 1163), (1216, 1216, 1, 1231), (1217, 1229, 2, 1218),
      (1232, 1326, 2, 1233), (1329, 1366, 1, 1377), (4256, 4293, 1, 11520),
      (4295, 4295, 1, 11559), (4301, 4301, 1, 11565), (5024, 5103, 1, 43888),
      (5104, 5109, 1, 5112), (7312, 7354, 1, 4304), (7357, 7359, 1, 4349), (7680, 7828, 2, 7681),
      (7838, 7838, 1, 223), (7840, 7934, 2, 7841), (7944, 7951, 1, 7936), (7960, 7965, 1, 7952),
      (7976, 7983, 1, 7968), (7992, 7999, 1, 7984), (8008, 8013, 1, 8000), (8025, 8031, 2, 8017),
      (8040, 8047, 1, 8032), (8072, 8079, 1, 8064), (8088, 8095, 1, 8080), (8104, 8111, 1, 8096),
      (8120, 8121, 1, 8112), (8122, 8123, 1, 8048), (8124, 8124, 1, 8115), (8136, 8139, 1, 8050),
      (8140, 8140, 1, 8131), (8152, 8153, 1, 8144), (8154, 8155, 1, 8054), (8168, 8169, 1, 8160),
      (8170, 8171, 1, 8058), (8172, 8172, 1, 8165), (8184, 8185, 1, 8056), (8186, 8187, 1, 8060),
      (8188, 8188, 1, 8179), (8486, 8486, 1, 969), (8490, 8490, 1, 107), (8491, 8491, 1, 229),
      (8498, 8498, 1, 8526), (8544, 8559, 1, 8560), (8579, 8579, 1, 8580), (9398, 9423, 1, 9424),
      (11264, 11311, 1, 11312), (11360, 11360, 1, 11361), (11362, 11362, 1, 619),
      (11363, 11363, 1, 7549), (11364, 11364, 1, 637), (11367, 11371, 2, 11368),
      (11373, 11373, 1, 593), (11374, 11374, 1, 625), (11375, 11375, 1, 592),
      (11376, 11376, 1, 594), (11378, 11378, 1, 11379), (11381, 11381, 1, 11382),
      (11390, 11391, 1, 575), (11392, 11490, 2, 11393), (11499, 11501, 2, 11500),
      (11506, 11506, 1, 11507), (42560, 42604, 2, 42561), (42624, 42650, 2, 42625),
      (42786, 42798, 2, 42787), (42802, 42862, 2, 42803), (42873, 42875, 2, 42874),
      (42877, 42877, 1, 7545), (42878, 42886, 2, 42879), (42891, 42891, 1, 42892),
      (42893, 42893, 1, 613), (42896, 42898, 2, 42897), (42902, 42920, 2, 42903),
      (42922, 42922, 1, 614), (42923, 42923, 1, 604), (42924, 42924, 1, 609),
      (42925, 42925, 1, 620), (42926, 42926, 1, 618), (42928, 42928, 1, 670),
      (42929, 42929, 1, 647), (42930, 42930, 1, 669), (42931, 42931, 1, 43859),
      (42932, 42946, 2, 42933), (42948, 42948, 1, 42900), (42949, 42949, 1, 642),
      (42950, 42950, 1, 7566), (42951, 42953, 2, 42952), (42960, 42960, 1, 42961),
      (42966, 42968, 2, 42967), (42997, 42997, 1, 42998), (65313, 65338, 1, 65345),
      (66560, 66599, 1, 66600), (66736, 66771, 1, 66776), (66928, 66964, 2, 66967),
      (66929, 66938, 1, 66968), (66941, 66954, 1, 66980), (66957, 66962, 1, 66996),
      (66965, 66965, 1, 67004), (68736, 68786, 1, 68800), (71840, 71871, 1, 71872),
      (93760, 93791, 1, 93792), (125184, 125217, 1, 125218)]"

definition foldRanges :: "(rune \<times> rune \<times> nat \<times> rune) list" where
  "foldRanges =
     [(181, 181, 1, 956), (192, 214, 1, 224), (216, 222, 1, 248), (256, 302, 2, 257),
      (306, 310, 2, 307), (313, 327, 2, 314), (330, 374, 2, 331), (376, 376, 1, 255),
      (377, 381, 2, 378), (383, 383, 1, 115), (385, 385, 1, 595), (386, 388, 2, 387),
      (390, 390, 1, 596), (391, 391, 1, 392), (393, 394, 1, 598), (395, 395, 1, 396),
      (398, 398, 1, 477), (399, 399, 1, 601), (400, 400, 1, 603), (401, 401, 1, 402),
      (403, 403, 1, 608), (404, 404, 1, 611), (406, 406, 1, 617), (407, 407, 1, 616),
      (408, 408, 1, 409), (412, 412, 1, 623), (413, 413, 1, 626), (415, 415, 1, 629),
      (416, 420, 2, 417), (422, 422, 1, 640), (423, 423, 1, 424), (425, 425, 1, 643),
      (428, 428, 1, 429), (430, 430, 1, 648), (431, 431, 1, 432), (433, 434, 1, 650),
      (435, 437, 2, 436), (439, 439, 1, 658), (440, 440, 1, 441), (444, 444, 1, 445),
      (452, 452, 1, 454), (453, 453, 1, 454), (455, 455, 1, 457), (456, 456, 1, 457),
      (458, 458, 1, 460), (459, 475, 2, 460), (478, 494, 2, 479), (497, 497, 1, 499),
      (498, 500, 2, 499), (502, 502, 1, 405), (503, 503, 1, 447), (504, 542, 2, 505),
      (544, 544, 1, 414), (546, 562, 2, 547), (570, 570, 1, 11365), (571, 571, 1, 572),
      (573, 573, 1, 410), (574, 574, 1, 11366), (577, 577, 1, 578), (579, 579, 1, 384),
      (580, 580, 1, 649), (581, 581, 1, 652), (582, 590, 2, 583), (837, 837, 1, 953),
      (880, 882, 2, 881), (886, 886, 1, 887), (895, 895, 1, 1011), (902, 902, 1, 940),
      (904, 906, 1, 941), (908, 908, 1, 972), (910, 911, 1, 973), (913, 929, 1, 945),
      (931, 939, 1, 963), (962, 962, 1, 963), (975, 975, 1, 983), (976, 976, 1, 946),
      (977, 977, 1, 952), (981, 981, 1, 966), (982, 982, 1, 960), (984, 1006, 2, 985),
      (1008, 1008, 1, 954), (1009, 1009, 1, 961), (1012, 1012, 1, 952), (1013, 1013, 1, 949),
      (1015, 1015, 1, 1016), (1017, 1017, 1, 1010), (1018, 1018, 1, 1019), (1021, 1023, 1, 891),
      (1024, 1039, 1, 1104), (1040, 1071, 1, 1072), (1120, 1152, 2, 1121), (1162, 1214, 2, 1163),
      (1216, 1216, 1, 1231), (1217, 1229, 2, 1218), (1232, 1326, 2, 1233), (1329, 1366, 1, 1377),
      (4256, 4293, 1, 11520), (4295, 4295, 1, 11559), (4301, 4301, 1, 11565),
      (5112, 5117, 1, 5104), (7296, 7296, 1, 1074), (7297, 7297, 1, 1076), (7298, 7298, 1, 1086),
      (7299, 7300, 1, 1089), (7301, 7301, 1, 1090), (7302, 7302, 1, 1098), (7303, 7303, 1, 1123),
      (7304, 7304, 1, 42571), (7312, 7354, 1, 4304), (7357, 7359, 1, 4349), (7680, 7828, 2, 7681),
      (7835, 7835, 1, 7777), (7838, 7838, 1, 223), (7840, 7934, 2, 7841), (7944, 7951, 1, 7936),
      (7960, 7965, 1, 7952), (7976, 7983, 1, 7968), (7992, 7999, 1, 7984), (8008, 8013, 1, 8000),
      (8025, 8031, 2, 8017), (8040, 8047, 1, 8032), (8072, 8079, 1, 8064), (8088, 8095, 1, 8080),
      (8104, 8111, 1, 8096), (8120, 8121, 1, 8112), (8122, 8123, 1, 8048), (8124, 8124, 1, 8115),
      (8126, 8126, 1, 953), (8136, 8139, 1, 8050), (8140, 8140, 1, 8131), (8152, 8153, 1, 8144),
      (8154, 8155, 1, 8054), (8168, 8169, 1, 8160), (8170, 8171, 1, 8058), (8172, 8172, 1, 8165),
      (8184, 8185, 1, 8056), (8186, 8187, 1, 8060), (8188, 8188, 1, 8179), (8486, 8486, 1, 969),
      (8490, 8490, 1, 107), (8491, 8491, 1, 229), (8498, 8498, 1, 8526), (8544, 8559, 1, 8560),
      (8579, 8579, 1, 8580), (9398, 9423, 1, 9424), (11264, 11311, 1, 11312),
      (11360, 11360, 1, 11361), (11362, 11362, 1, 619), (11363, 11363, 1, 7549),
      (11364, 11364, 1, 637), (11367, 11371, 2, 11368), (11373, 11373, 1, 593),
      (11374, 11374, 1, 625), (11375, 11375, 1, 592), (11376, 11376, 1, 594),
      (11378, 11378, 1, 11379), (11381, 11381, 1, 11382), (11390, 11391, 1, 575),
      (11392, 11490, 2, 11393), (11499, 11501, 2, 11500), (11506, 11506, 1, 11507),
      (42560, 42604, 2, 42561), (42624, 42650, 2, 42625), (42786, 42798, 2, 42787),
      (42802, 42862, 2, 42803), (42873, 42875, 2, 42874), (42877, 42877, 1, 7545),
      (42878, 42886, 2, 42879), (42891, 42891, 1, 42892), (42893, 42893, 1, 613),
      (42896, 42898, 2, 42897), (42902, 42920, 2, 42903), (42922, 42922, 1, 614),
      (42923, 42923, 1, 604), (42924, 42924, 1, 609), (42925, 42925, 1, 620),
      (42926, 42926, 1, 618), (42928, 42928, 1, 670), (42929, 42929, 1, 647),
      (42930, 42930, 1, 669), (42931, 42931, 1, 43859), (42932, 42946, 2, 42933),
      (42948, 42948, 1, 42900), (42949, 42949, 1, 642), (42950, 42950, 1, 7566),
      (42951, 42953, 2, 42952), (42960, 42960, 1, 42961), (42966, 42968, 2, 42967),
      (42997, 42997, 1, 42998), (43888, 43967, 1, 5024), (65313, 65338, 1, 65345),
      (66560, 66599, 1, 66600), (66736, 66771, 1, 66776), (66928, 66964, 2, 66967),
      (66929, 66938, 1, 66968), (66941, 66954, 1, 66980), (66957, 66962, 1, 66996),
      (66965, 66965, 1, 67004), (68736, 68786, 1, 68800), (71840, 71871, 1, 71872),
      (93760, 93791, 1, 93792), (125184, 125217, 1, 125218)]"

definition applyRanges :: "(rune \<times> rune \<times> nat \<times> rune) list \<Rightarrow> rune \<Rightarrow> rune" where
  "applyRanges ranges r =
     (case find (\<lambda>(lo, hi, stride, target). lo \<le> r \<and> r \<le> hi \<and> (r - lo) mod stride = 0) ranges of
        None \<Rightarrow> r
      | Some (lo, hi, stride, target) \<Rightarrow> target + (r - lo))"

text \<open>
  \<^verbatim>\<open>unicode.ToLower\<close> maps an ASCII rune directly and any other rune through the table, and
  \<^verbatim>\<open>strings.ToLower\<close> maps every rune of a string. \<^verbatim>\<open>strings.EqualFold\<close> compares two strings
  rune by rune: two runes agree when \<^verbatim>\<open>unicode.SimpleFold\<close> leads from one to the other, which
  is when they have the same simple case folding. \<^verbatim>\<open>strings.Contains\<close> is the
  contiguous-substring test, \<^verbatim>\<open>strings.Join\<close> concatenates with a separator, and strings
  compare lexicographically. Strings are taken to be valid UTF-8.
\<close>

definition toLowerRune :: "rune \<Rightarrow> rune" where
  "toLowerRune r =
     (if r \<le> 127 then (if 65 \<le> r \<and> r \<le> 90 then r + 32 else r)
      else applyRanges lowerRanges r)"

definition toLower :: "gostring \<Rightarrow> gostring" where
  "toLower s = map toLowerRune s"

definition foldRune :: "rune \<Rightarrow> rune" where
  "foldRune r =
     (if r \<le> 127 then (if 65 \<le> r \<and> r \<le> 90 then r + 32 else r)
      else applyRanges foldRanges r)"

definition equalFold :: "gostring \<Rightarrow> gostring \<Rightarrow> bool" where
  "equalFold s t \<longleftrightarrow> map foldRune s = map foldRune t"

definition stringsContains :: "gostring \<Rightarrow> gostring \<Rightarrow> bool" where
  "stringsContains s substr \<longleftrightarrow> sublist substr s"

fun stringsJoin :: "gostring list \<Rightarrow> gostring \<Rightarrow> gostring" where
  "stringsJoin [] sep = []"
| "stringsJoin [p] sep = p"
| "stringsJoin (p # q # ps) sep = p @ sep @ stringsJoin (q # ps) sep"

fun stringLess :: "gostring \<Rightarrow> gostring \<Rightarrow> bool" where
  "stringLess [] [] = False"
| "stringLess [] (y # ys) = True"
| "stringLess (x # xs) [] = False"
| "stringLess (x # xs) (y # ys) = (x < y \<or> (x = y \<and> stringLess xs ys))"

text \<open>
  Coordinates are \<^verbatim>\<open>float64\<close> in the source. The model takes a coordinate to be the real
  number it denotes and rounds the sums and differences that the visibility classification
  and the inference of the screen rectangle compute: \<open>round64\<close> is rounding to the nearest
  \<^verbatim>\<open>float64\<close>, ties to even (IEEE 754, binary64), where \<open>ulp64 x\<close> is the distance between
  neighbouring values of the type at the magnitude of \<open>x\<close>. A result beyond the finite range is
  the infinity of the type, for which \<open>inf64\<close> stands; the sum of two finite values is never
  NaN. The other arithmetic on coordinates (centers, distances, areas, gesture points) is
  kept exact. \<^verbatim>\<open>math.Hypot\<close> is the Euclidean norm and \<^verbatim>\<open>math.MaxFloat64\<close> the largest finite
  value of the type.
\<close>

definition roundEven :: "real \<Rightarrow> int" where
  "roundEven q =
     (let f = \<lfloor>q\<rfloor>
      in if q - of_int f < 1 / 2 then f
         else if q - of_int f > 1 / 2 then f + 1
         else if even f then f else f + 1)"

definition ulp64 :: "real \<Rightarrow> real" where
  "ulp64 x = 2 powi (max \<lfloor>log 2 \<bar>x\<bar>\<rfloor> (- 1022) - 52)"

definition inf64 :: real where
  "inf64 = 2 ^ 1024"

definition saturate64 :: "real \<Rightarrow> real" where
  "saturate64 r = (if inf64 \<le> r then inf64 else if r \<le> - inf64 then - inf64 else r)"

definition round64 :: "real \<Rightarrow> real" where
  "round64 x = (if x = 0 then 0 else saturate64 (of_int (roundEven (x / ulp64 x)) * ulp64 x))"

definition fadd64 :: "real \<Rightarrow> real \<Rightarrow> real" where
  "fadd64 a b = round64 (a + b)"

definition fsub64 :: "real \<Rightarrow> real \<Rightarrow> real" where
  "fsub64 a b = round64 (a - b)"

definition hypot :: "real \<Rightarrow> real \<Rightarrow> real" where
  "hypot p q = sqrt (p * p + q * q)"

definition maxFloat64 :: real where
  "maxFloat64 = (2 ^ 53 - 1) * 2 ^ 971"

text \<open>
  \<^verbatim>\<open>sort.Slice\<close> sorts by a comparison function and promises no order among elements that the
  function does not separate. On a slice of at most twelve elements it is an insertion sort:
  each element in turn moves down from the end of the sorted prefix while it is less than its
  predecessor, so that elements which the function does not separate keep their order.
  \<open>insertBy\<close> is this inner loop, on the sorted prefix read from its end, and \<open>sortSlice\<close> the
  outer loop. A longer slice is sorted by another algorithm, which is not modelled: the
  properties below that read the order of the result either hold for every arrangement of the
  elements or assume that the comparison separates them.
\<close>

fun insertBy :: "('a \<Rightarrow> 'a \<Rightarrow> bool) \<Rightarrow> 'a \<Rightarrow> 'a list \<Rightarrow> 'a list" where
  "insertBy lt x [] = [x]"
| "insertBy lt x (y # ys) = (if lt x y then y # insertBy lt x ys else x # y # ys)"

definition sortSlice :: "('a \<Rightarrow> 'a \<Rightarrow> bool) \<Rightarrow> 'a list \<Rightarrow> 'a list" where
  "sortSlice lt xs = rev (foldl (\<lambda>acc x. insertBy lt x acc) [] xs)"

section \<open>Data model\<close>

text \<open>
  The fields of \<^verbatim>\<open>FrameRect\<close> and \<^verbatim>\<open>FramePoint\<close> carry the name of their struct, since both
  structs call their coordinates \<^verbatim>\<open>X\<close> and \<^verbatim>\<open>Y\<close>.
\<close>

record FrameRect =
  rectX :: real
  rectY :: real
  rectW :: real
  rectH :: real
  rectUnit :: gostring

record FramePoint =
  pointX :: real
  pointY :: real
  pointUnit :: gostring

record ElementSource =
  Tool :: gostring
  Method :: gostring

record Element =
  Index :: int
  ID :: gostring
  Role :: gostring
  Label :: gostring
  Value :: gostring
  NearbyLabel :: gostring
  Enabled :: bool
  Focused :: bool
  Visible :: bool
  Offscreen :: bool
  Frame :: FrameRect
  Center :: FramePoint
  Source :: ElementSource
  order :: int

text \<open>The zero values of the structs, which Go writes \<^verbatim>\<open>FrameRect{}\<close> and \<^verbatim>\<open>Element{}\<close>.\<close>

definition zeroRect :: FrameRect where
  "zeroRect = \<lparr>rectX = 0, rectY = 0, rectW = 0, rectH = 0, rectUnit = []\<rparr>"

definition zeroElement :: Element where
  "zeroElement =
     \<lparr>Index = 0, ID = [], Role = [], Label = [], Value = [], NearbyLabel = [],
      Enabled = False, Focused = False, Visible = False, Offscreen = False,
      Frame = zeroRect, Center = \<lparr>pointX = 0, pointY = 0, pointUnit = []\<rparr>,
      Source = \<lparr>Tool = [], Method = []\<rparr>, order = 0\<rparr>"

definition interactiveRoleHints :: "gostring list" where
  "interactiveRoleHints =
     [str ''button'', str ''textfield'', str ''securetextfield'', str ''switch'',
      str ''slider'', str ''cell'', str ''link'']"

definition isInteractiveRole :: "gostring \<Rightarrow> bool" where
  "isInteractiveRole role =
     (let r = toLower (trimSpace role)
      in if r = [] then False
         else list_ex (\<lambda>hint. stringsContains r hint) interactiveRoleHints)"

section \<open>Visibility\<close>

definition classifyVisibility :: "FrameRect \<Rightarrow> FrameRect \<Rightarrow> bool \<times> bool" where
  "classifyVisibility rect screen =
     (if rectW rect \<le> 0 \<or> rectH rect \<le> 0 then (False, True)
      else if rectW screen \<le> 0 \<or> rectH screen \<le> 0 then (True, False)
      else
        (let screenRight = fadd64 (rectX screen) (rectW screen);
             screenBottom = fadd64 (rectY screen) (rectH screen);
             rectRight = fadd64 (rectX rect) (rectW rect);
             rectBottom = fadd64 (rectY rect) (rectH rect);
             interLeft = max (rectX rect) (rectX screen);
             interTop = max (rectY rect) (rectY screen);
             interRight = min rectRight screenRight;
             interBottom = min rectBottom screenBottom
         in if interRight \<le> interLeft \<or> interBottom \<le> interTop then (False, True)
            else
              (let offscreen = (rectX rect < rectX screen \<or> rectY rect < rectY screen \<or>
                                rectRight > screenRight \<or> rectBottom > screenBottom)
               in (True, offscreen))))"

text \<open>
  The geometric vocabulary of the classification, on the rectangles as sets of points of the
  plane: a frame is fully inside a screen when each of its edges is within the screen's edges,
  and two rectangles have no intersection when a vertical or a horizontal line separates them
  (touching edges included).
\<close>

definition fullyInside :: "FrameRect \<Rightarrow> FrameRect \<Rightarrow> bool" where
  "fullyInside rect screen \<longleftrightarrow>
     rectX screen \<le> rectX rect \<and> rectX rect + rectW rect \<le> rectX screen + rectW screen \<and>
     rectY screen \<le> rectY rect \<and> rectY rect + rectH rect \<le> rectY screen + rectH screen"

definition noIntersection :: "FrameRect \<Rightarrow> FrameRect \<Rightarrow> bool" where
  "noIntersection rect screen \<longleftrightarrow>
     rectX rect + rectW rect \<le> rectX screen \<or> rectX screen + rectW screen \<le> rectX rect \<or>
     rectY rect + rectH rect \<le> rectY screen \<or> rectY screen + rectH screen \<le> rectY rect"

text \<open>
  The same vocabulary on the edges that a \<^verbatim>\<open>float64\<close> computation sees: the left and the top
  edge of a rectangle are its \<^verbatim>\<open>X\<close> and \<^verbatim>\<open>Y\<close>, the right and the bottom edge are the rounded
  sums. A rectangle has extent when its right edge is beyond its left and its bottom edge
  beyond its top, and its edges are exact when the two sums need no rounding.
\<close>

definition rightEdge :: "FrameRect \<Rightarrow> real" where
  "rightEdge r = round64 (rectX r + rectW r)"

definition bottomEdge :: "FrameRect \<Rightarrow> real" where
  "bottomEdge r = round64 (rectY r + rectH r)"

definition hasExtent :: "FrameRect \<Rightarrow> bool" where
  "hasExtent r \<longleftrightarrow> rectX r < rightEdge r \<and> rectY r < bottomEdge r"

definition edgesExact :: "FrameRect \<Rightarrow> bool" where
  "edgesExact r \<longleftrightarrow> rightEdge r = rectX r + rectW r \<and> bottomEdge r = rectY r + rectH r"

definition insideEdges :: "FrameRect \<Rightarrow> FrameRect \<Rightarrow> bool" where
  "insideEdges rect screen \<longleftrightarrow>
     rectX screen \<le> rectX rect \<and> rightEdge rect \<le> rightEdge screen \<and>
     rectY screen \<le> rectY rect \<and> bottomEdge rect \<le> bottomEdge screen"

definition apartEdges :: "FrameRect \<Rightarrow> FrameRect \<Rightarrow> bool" where
  "apartEdges rect screen \<longleftrightarrow>
     rightEdge rect \<le> rectX screen \<or> rightEdge screen \<le> rectX rect \<or>
     bottomEdge rect \<le> rectY screen \<or> bottomEdge screen \<le> rectY rect"

section \<open>Focus trust\<close>

text \<open>
  The loop of \<^verbatim>\<open>canTrustFocus\<close> over the elements that remain, with the flag \<open>hasFocused\<close>
  it has set so far.
\<close>

fun canTrustLoop :: "Element list \<Rightarrow> Element \<Rightarrow> bool \<Rightarrow> bool" where
  "canTrustLoop [] target hasFocused = (\<not> hasFocused)"
| "canTrustLoop (elem # rest) target hasFocused =
     (if \<not> Focused elem then canTrustLoop rest target hasFocused
      else if trimSpace (ID target) = [] \<and>
              (let dx = pointX (Center elem) - pointX (Center target);
                   dy = pointY (Center elem) - pointY (Center target)
               in hypot dx dy \<le> 24)
      then True
      else if ID elem = ID target then True
      else canTrustLoop rest target True)"

definition canTrustFocus :: "Element list \<Rightarrow> Element \<Rightarrow> bool" where
  "canTrustFocus elements target = canTrustLoop elements target False"

definition centerDistance :: "Element \<Rightarrow> Element \<Rightarrow> real" where
  "centerDistance a b =
     hypot (pointX (Center a) - pointX (Center b)) (pointY (Center a) - pointY (Center b))"

section \<open>Nearby labels\<close>

text \<open>
  The inner loop of \<^verbatim>\<open>addNearbyLabels\<close> for the element at \<open>i\<close>: one step for the index \<open>j\<close>
  on the pair \<open>(bestIdx, bestScore)\<close>, then the run over all indices.
\<close>

definition nearbyStep :: "Element list \<Rightarrow> nat \<Rightarrow> int \<times> real \<Rightarrow> nat \<Rightarrow> int \<times> real" where
  "nearbyStep elements i best j =
     (let (bestIdx, bestScore) = best
      in if i = j then best
         else
           (let label = trimSpace (Label (elements ! j))
            in if label = [] \<or> \<not> Visible (elements ! j) then best
               else
                 (let dx = pointX (Center (elements ! i)) - pointX (Center (elements ! j));
                      dy = pointY (Center (elements ! i)) - pointY (Center (elements ! j));
                      distance = hypot dx dy
                  in if distance > 220 then best
                     else if distance < bestScore then (int j, distance)
                     else best)))"

definition nearbySearch :: "Element list \<Rightarrow> nat \<Rightarrow> int \<times> real" where
  "nearbySearch elements i = foldl (nearbyStep elements i) (- 1, maxFloat64) [0..<length elements]"

text \<open>The body of the outer loop, which writes into the slice in place.\<close>

definition nearbyUpdate :: "Element list \<Rightarrow> nat \<Rightarrow> Element list" where
  "nearbyUpdate elements i =
     (if trimSpace (Label (elements ! i)) \<noteq> [] then elements
      else
        (let (bestIdx, bestScore) = nearbySearch elements i
         in if bestIdx \<ge> 0
            then elements[i := (elements ! i)\<lparr>NearbyLabel := Label (elements ! nat bestIdx)\<rparr>]
            else elements))"

definition addNearbyLabels :: "Element list \<Rightarrow> Element list" where
  "addNearbyLabels elements = foldl nearbyUpdate elements [0..<length elements]"

text \<open>
  The vocabulary of the nearby-label property: \<open>j\<close> qualifies for \<open>i\<close> when it is another
  element, visible, with a label, whose center is at most 220 from the center of \<open>i\<close>.
\<close>

definition qualifies :: "Element list \<Rightarrow> nat \<Rightarrow> nat \<Rightarrow> bool" where
  "qualifies elements i j \<longleftrightarrow>
     j < length elements \<and> j \<noteq> i \<and> trimSpace (Label (elements ! j)) \<noteq> [] \<and>
     Visible (elements ! j) \<and> centerDistance (elements ! i) (elements ! j) \<le> 220"

section \<open>Focus verification\<close>

definition textInputRoleHints :: "gostring list" where
  "textInputRoleHints =
     [str ''textfield'', str ''securetextfield'', str ''searchfield'', str ''textarea'',
      str ''textview'']"

definition isTextInputRole :: "gostring \<Rightarrow> bool" where
  "isTextInputRole role =
     (let r = toLower (trimSpace role)
      in if r = [] then False
         else list_ex (\<lambda>hint. stringsContains r hint) textInputRoleHints)"

definition focusPointForElement :: "Element \<Rightarrow> FramePoint" where
  "focusPointForElement elem =
     (if \<not> isTextInputRole (Role elem) then Center elem
      else if rectW (Frame elem) \<le> 0 then Center elem
      else
        (let inset = max 8 (min (rectW (Frame elem) * (2 / 10)) 28);
             x = rectX (Frame elem) + inset;
             maxX = rectX (Frame elem) + rectW (Frame elem) - 8;
             x = (if x > maxX then pointX (Center elem) else x)
         in \<lparr>pointX = x, pointY = pointY (Center elem), pointUnit = str ''pt''\<rparr>))"

text \<open>
  \<^verbatim>\<open>findBestVerificationTarget\<close>: the first element with the \<^verbatim>\<open>ID\<close> of the element that was
  tapped, when that has one; otherwise the text input nearest to its center. The second loop
  keeps \<open>(best, found, bestScore)\<close>.
\<close>

definition nearestInputStep :: "Element \<Rightarrow> Element \<times> bool \<times> real \<Rightarrow> Element \<Rightarrow> Element \<times> bool \<times> real" where
  "nearestInputStep focused state elem =
     (let (best, found, bestScore) = state
      in if \<not> isTextInputRole (Role elem) then state
         else
           (let dx = pointX (Center elem) - pointX (Center focused);
                dy = pointY (Center elem) - pointY (Center focused);
                score = hypot dx dy
            in if score < bestScore then (elem, True, score) else state))"

definition findBestVerificationTarget :: "Element list \<Rightarrow> Element \<Rightarrow> Element \<times> bool" where
  "findBestVerificationTarget elements focused =
     (case (if trimSpace (ID focused) \<noteq> [] then find (\<lambda>elem. ID elem = ID focused) elements
            else None) of
        Some elem \<Rightarrow> (elem, True)
      | None \<Rightarrow>
          (let (best, found, bestScore) =
                 foldl (nearestInputStep focused) (zeroElement, False, maxFloat64) elements
           in (best, found)))"

text \<open>
  One round of \<^verbatim>\<open>focusElementWithRetry\<close> from the point where the tap and the snapshot have
  succeeded: either the verified element is returned, its \<^verbatim>\<open>Center\<close> replaced by the focus
  point, or the loop goes on with a target, a focus point and a reason.
\<close>

datatype focusRound = Verified Element | Retry Element FramePoint gostring

definition verifyFocusRound :: "Element list \<Rightarrow> Element \<Rightarrow> FramePoint \<Rightarrow> focusRound" where
  "verifyFocusRound snapshotElements target focusPoint =
     (let (matched, ok) = findBestVerificationTarget snapshotElements target
      in if \<not> ok then Retry target focusPoint (str ''target element not found after tap'')
         else
           (let target' = matched;
                focusPoint' = focusPointForElement target'
            in if canTrustFocus snapshotElements matched
               then Verified (target'\<lparr>Center := focusPoint'\<rparr>)
               else Retry target' focusPoint' (str ''focus moved to different element'')))"

section \<open>Normalisation\<close>

text \<open>
  \<^verbatim>\<open>walkCandidates\<close> visits the raw tree and \<^verbatim>\<open>elementFromCandidate\<close> reads each node through
  alias keys (\<^verbatim>\<open>findRect\<close>, \<^verbatim>\<open>firstString\<close>, \<^verbatim>\<open>firstBoolWithDefault\<close>). The raw tree is
  untyped data; the model starts from what those lookups return for a node, kept in
  \<open>resolvedFields\<close>, and from the path and discovery order that the walk gave it.
\<close>

record resolvedFields =
  foundRect :: "FrameRect option"
  idText :: gostring
  roleText :: gostring
  labelText :: gostring
  valueText :: gostring
  enabledFlag :: bool
  focusedFlag :: bool

record candidateNode =
  Path :: gostring
  nodeOrder :: int
  nodeMap :: resolvedFields

definition elementFromCandidate :: "candidateNode \<Rightarrow> Element option" where
  "elementFromCandidate node =
     (case foundRect (nodeMap node) of
        None \<Rightarrow> None
      | Some rect \<Rightarrow>
          if rectW rect \<le> 0 \<or> rectH rect \<le> 0 then None
          else
            (let id0 = idText (nodeMap node);
                 ident = (if id0 = [] then str ''axpath:'' @ Path node else id0);
                 role = roleText (nodeMap node);
                 label0 = labelText (nodeMap node);
                 val = valueText (nodeMap node);
                 label = (if label0 = [] \<and> val \<noteq> [] then val else label0);
                 enabled = enabledFlag (nodeMap node);
                 focused = focusedFlag (nodeMap node)
             in Some \<lparr>Index = 0, ID = ident, Role = role, Label = label, Value = val,
                      NearbyLabel = [], Enabled = enabled, Focused = focused, Visible = True,
                      Offscreen = False, Frame = rect,
                      Center = \<lparr>pointX = rectX rect + rectW rect / 2,
                                pointY = rectY rect + rectH rect / 2, pointUnit = str ''pt''\<rparr>,
                      Source = \<lparr>Tool = str ''idb'', Method = str ''describe-all''\<rparr>,
                      order = 0\<rparr>))"

text \<open>
  The role sets of the options are maps from role names to booleans; a name that is not in
  the map reads as false.
\<close>

record frameOptions =
  OutDir :: gostring
  Screenshot :: bool
  UI :: bool
  Annotate :: bool
  InteractiveOnly :: bool
  Stable :: bool
  StableSamples :: int
  StableInterval :: int
  Order :: gostring
  Format :: gostring
  MinArea :: real
  IncludeRoles :: "gostring \<rightharpoonup> bool"
  ExcludeRoles :: "gostring \<rightharpoonup> bool"
  EmitJSON :: bool

definition roleIn :: "(gostring \<rightharpoonup> bool) \<Rightarrow> gostring \<Rightarrow> bool" where
  "roleIn roles key = (case roles key of None \<Rightarrow> False | Some b \<Rightarrow> b)"

text \<open>
  The first loop of \<^verbatim>\<open>normalizeElements\<close>: the nodes that remain, and the triple of the
  accepted elements, \<open>allCount\<close> and \<open>interactiveCount\<close>.
\<close>

fun collectCandidates ::
  "frameOptions \<Rightarrow> candidateNode list \<Rightarrow> Element list \<times> int \<times> int \<Rightarrow> Element list \<times> int \<times> int" where
  "collectCandidates opts [] acc = acc"
| "collectCandidates opts (node # nodes) (allCandidates, allCount, interactiveCount) =
     (case elementFromCandidate node of
        None \<Rightarrow> collectCandidates opts nodes (allCandidates, allCount, interactiveCount)
      | Some elem \<Rightarrow>
          if rectW (Frame elem) * rectH (Frame elem) < MinArea opts
          then collectCandidates opts nodes (allCandidates, allCount, interactiveCount)
          else
            (let roleKey = toLower (trimSpace (Role elem))
             in if dom (IncludeRoles opts) \<noteq> {} \<and> \<not> roleIn (IncludeRoles opts) roleKey
                then collectCandidates opts nodes (allCandidates, allCount, interactiveCount)
                else if roleIn (ExcludeRoles opts) roleKey
                then collectCandidates opts nodes (allCandidates, allCount, interactiveCount)
                else if \<not> Enabled elem
                then collectCandidates opts nodes (allCandidates, allCount, interactiveCount)
                else
                  (let allCount' = allCount + 1;
                       isInteractive = isInteractiveRole (Role elem);
                       interactiveCount' =
                         (if isInteractive then interactiveCount + 1 else interactiveCount)
                   in if InteractiveOnly opts \<and> \<not> isInteractive
                      then collectCandidates opts nodes (allCandidates, allCount', interactiveCount')
                      else collectCandidates opts nodes
                             (allCandidates @ [elem\<lparr>order := nodeOrder node\<rparr>],
                              allCount', interactiveCount'))))"

text \<open>
  \<^verbatim>\<open>inferScreenRect\<close>: \<open>rootRect\<close> is what \<^verbatim>\<open>findRect\<close> returns for the root when the root is
  an object, and \<open>None\<close> otherwise. The loop keeps \<open>(minX, minY, maxX, maxY)\<close>.
\<close>

definition boundsStep :: "real \<times> real \<times> real \<times> real \<Rightarrow> Element \<Rightarrow> real \<times> real \<times> real \<times> real" where
  "boundsStep bounds e =
     (let (minX, minY, maxX, maxY) = bounds
      in if rectW (Frame e) \<le> 0 \<or> rectH (Frame e) \<le> 0 then bounds
         else
           (let minX' = (if rectX (Frame e) < minX then rectX (Frame e) else minX);
                minY' = (if rectY (Frame e) < minY then rectY (Frame e) else minY);
                maxX' = (if fadd64 (rectX (Frame e)) (rectW (Frame e)) > maxX
                         then fadd64 (rectX (Frame e)) (rectW (Frame e)) else maxX);
                maxY' = (if fadd64 (rectY (Frame e)) (rectH (Frame e)) > maxY
                         then fadd64 (rectY (Frame e)) (rectH (Frame e)) else maxY)
            in (minX', minY', maxX', maxY')))"

definition boundingRect :: "Element list \<Rightarrow> FrameRect" where
  "boundingRect elements =
     (let (minX, minY, maxX, maxY) = foldl boundsStep (maxFloat64, maxFloat64, 0, 0) elements
      in if minX = maxFloat64 \<or> minY = maxFloat64 \<or> maxX \<le> minX \<or> maxY \<le> minY then zeroRect
         else \<lparr>rectX = minX, rectY = minY, rectW = fsub64 maxX minX, rectH = fsub64 maxY minY,
               rectUnit = str ''pt''\<rparr>)"

definition inferScreenRect :: "FrameRect option \<Rightarrow> Element list \<Rightarrow> FrameRect" where
  "inferScreenRect rootRect elements =
     (case rootRect of
        Some rect \<Rightarrow> if rectW rect > 0 \<and> rectH rect > 0 then rect else boundingRect elements
      | None \<Rightarrow> boundingRect elements)"

definition applyVisibility :: "FrameRect \<Rightarrow> Element \<Rightarrow> Element" where
  "applyVisibility screenRect e =
     (let (visible, offscreen) = classifyVisibility (Frame e) screenRect
      in e\<lparr>Visible := visible, Offscreen := offscreen\<rparr>)"

text \<open>The comparison functions of the three ordering modes.\<close>

definition readingLess :: "Element \<Rightarrow> Element \<Rightarrow> bool" where
  "readingLess a b =
     (if pointY (Center a) \<noteq> pointY (Center b) then pointY (Center a) < pointY (Center b)
      else if pointX (Center a) \<noteq> pointX (Center b) then pointX (Center a) < pointX (Center b)
      else stringLess (ID a) (ID b))"

definition stableLess :: "Element \<Rightarrow> Element \<Rightarrow> bool" where
  "stableLess a b = stringLess (ID a) (ID b)"

definition zLess :: "Element \<Rightarrow> Element \<Rightarrow> bool" where
  "zLess a b = (order a < order b)"

definition orderCandidates :: "gostring \<Rightarrow> Element list \<Rightarrow> Element list" where
  "orderCandidates mode allCandidates =
     (if mode = str ''reading'' then sortSlice readingLess allCandidates
      else if mode = str ''stable'' then sortSlice stableLess allCandidates
      else if mode = str ''z'' then sortSlice zLess allCandidates
      else allCandidates)"

text \<open>The index loop: the element at position \<open>i\<close> receives \<open>i + 1\<close>.\<close>

fun assignIndices :: "int \<Rightarrow> Element list \<Rightarrow> Element list" where
  "assignIndices i [] = []"
| "assignIndices i (e # es) = e\<lparr>Index := i + 1\<rparr> # assignIndices (i + 1) es"

definition normalizeElements ::
  "FrameRect option \<Rightarrow> candidateNode list \<Rightarrow> frameOptions \<Rightarrow> Element list \<times> int \<times> int" where
  "normalizeElements rootRect nodes opts =
     (let (allCandidates, allCount, interactiveCount) = collectCandidates opts nodes ([], 0, 0);
          screenRect = inferScreenRect rootRect allCandidates;
          classified = map (applyVisibility screenRect) allCandidates;
          ordered = orderCandidates (Order opts) classified;
          indexed = assignIndices 0 ordered;
          labelled = addNearbyLabels indexed
      in (labelled, allCount, interactiveCount))"

section \<open>Errors\<close>

text \<open>
  \<^verbatim>\<open>AppError\<close> carries a code, a message and a map of details. A detail is one of the values
  the functions below store; a duration is kept as its number of nanoseconds where the
  source stores its printed form.
\<close>

datatype detailValue = DStrings "gostring list" | DInt int | DDuration int | DText gostring

record AppError =
  Code :: gostring
  Message :: gostring
  Details :: "(gostring \<times> detailValue) list"

text \<open>The decimal digits that \<^verbatim>\<open>%d\<close> prints.\<close>

fun digitsOf :: "nat \<Rightarrow> gostring" where
  "digitsOf n = (if n < 10 then [48 + n] else digitsOf (n div 10) @ [48 + n mod 10])"

declare digitsOf.simps [simp del]

definition formatInt :: "int \<Rightarrow> gostring" where
  "formatInt i = (if i < 0 then 45 # digitsOf (nat (- i)) else digitsOf (nat i))"

section \<open>Selector resolution\<close>

text \<open>The two loops of \<^verbatim>\<open>pickElement\<close> return the first element that matches.\<close>

definition pickElement :: "Element list \<Rightarrow> int \<Rightarrow> gostring \<Rightarrow> AppError + Element" where
  "pickElement elements index ident =
     (if index \<ge> 0 then
        (case find (\<lambda>e. Index e = index) elements of
           Some e \<Rightarrow> Inr e
         | None \<Rightarrow> Inl \<lparr>Code = str ''ELEMENT_NOT_FOUND'',
                         Message = str ''element index not found: '' @ formatInt index,
                         Details = []\<rparr>)
      else if ident \<noteq> [] then
        (case find (\<lambda>e. ID e = ident) elements of
           Some e \<Rightarrow> Inr e
         | None \<Rightarrow> Inl \<lparr>Code = str ''ELEMENT_NOT_FOUND'',
                         Message = str ''element id not found: '' @ ident, Details = []\<rparr>)
      else Inl \<lparr>Code = str ''USAGE'', Message = str ''index or id is required'', Details = []\<rparr>)"

definition countElementSelectors :: "int \<Rightarrow> gostring \<Rightarrow> gostring \<Rightarrow> gostring \<Rightarrow> int" where
  "countElementSelectors index ident label contains =
     (let count = 0;
          count = (if index \<ge> 0 then count + 1 else count);
          count = (if trimSpace ident \<noteq> [] then count + 1 else count);
          count = (if trimSpace label \<noteq> [] then count + 1 else count);
          count = (if trimSpace contains \<noteq> [] then count + 1 else count)
      in count)"

definition elementText :: "Element \<Rightarrow> gostring" where
  "elementText elem =
     (let parts = [trimSpace (Label elem), trimSpace (Value elem),
                   trimSpace (NearbyLabel elem), trimSpace (Role elem)]
      in toLower (stringsJoin parts (str '' '')))"

record candidate =
  candElement :: Element
  Score :: int

text \<open>
  The body of the loop of \<^verbatim>\<open>pickElementByText\<close> for one element: \<open>None\<close> where the source
  continues with the next element, the score otherwise. Both arguments have been trimmed
  and lower-cased by the caller.
\<close>

definition exactSignals :: "gostring \<Rightarrow> Element \<Rightarrow> bool \<times> int" where
  "exactSignals exactLabel elem =
     (let exactHit = False; score = 0;
          (exactHit, score) =
             (if equalFold (trimSpace (Label elem)) exactLabel then (True, score + 90)
              else (exactHit, score));
          (exactHit, score) =
             (if equalFold (trimSpace (Value elem)) exactLabel then (True, score + 75)
              else (exactHit, score));
          (exactHit, score) =
             (if equalFold (trimSpace (NearbyLabel elem)) exactLabel then (True, score + 55)
              else (exactHit, score))
      in (exactHit, score))"

definition baseSignals :: "Element \<Rightarrow> int \<Rightarrow> int" where
  "baseSignals elem score0 =
     (let score = score0;
          score = (if Visible elem then score + 24 else score);
          score = (if \<not> Offscreen elem then score + 10 else score);
          score = (if isInteractiveRole (Role elem) then score + 15 else score);
          score = (if trimSpace (Label elem) \<noteq> [] then score + 8 else score)
      in score)"

definition candidateScore :: "gostring \<Rightarrow> gostring \<Rightarrow> Element \<Rightarrow> int option" where
  "candidateScore exactLabel partial elem =
     (if \<not> Enabled elem then None
      else
        (let (exactHit, score) =
               (if exactLabel \<noteq> [] then exactSignals exactLabel elem else (False, 0))
         in if exactLabel \<noteq> [] \<and> \<not> exactHit then None
            else if partial \<noteq> [] \<and> \<not> stringsContains (toLower (elementText elem)) partial
            then None
            else Some (baseSignals elem (if partial \<noteq> [] then score + 45 else score))))"

fun collectScored :: "gostring \<Rightarrow> gostring \<Rightarrow> Element list \<Rightarrow> candidate list \<Rightarrow> candidate list" where
  "collectScored exactLabel partial [] candidates = candidates"
| "collectScored exactLabel partial (elem # rest) candidates =
     (case candidateScore exactLabel partial elem of
        None \<Rightarrow> collectScored exactLabel partial rest candidates
      | Some score \<Rightarrow>
          collectScored exactLabel partial rest
            (candidates @ [\<lparr>candElement = elem, Score = score\<rparr>]))"

definition candidateLess :: "candidate \<Rightarrow> candidate \<Rightarrow> bool" where
  "candidateLess a b =
     (if Score a \<noteq> Score b then Score a > Score b
      else Index (candElement a) < Index (candElement b))"

definition pickElementByText :: "Element list \<Rightarrow> gostring \<Rightarrow> gostring \<Rightarrow> AppError + Element" where
  "pickElementByText elements exactLabel0 partial0 =
     (let exactLabel = toLower (trimSpace exactLabel0);
          partial = toLower (trimSpace partial0);
          candidates = collectScored exactLabel partial elements []
      in if length candidates = 0 then
           (if exactLabel \<noteq> []
            then Inl \<lparr>Code = str ''ELEMENT_NOT_FOUND'',
                      Message = str ''element label not found: '' @ exactLabel, Details = []\<rparr>
            else Inl \<lparr>Code = str ''ELEMENT_NOT_FOUND'',
                      Message = str ''element text not found: '' @ partial, Details = []\<rparr>)
         else Inr (candElement (hd (sortSlice candidateLess candidates))))"

definition pickElementBySelectors ::
  "Element list \<Rightarrow> int \<Rightarrow> gostring \<Rightarrow> gostring \<Rightarrow> gostring \<Rightarrow> AppError + Element" where
  "pickElementBySelectors elements index id0 label0 contains0 =
     (let label = trimSpace label0;
          contains = trimSpace contains0;
          ident = trimSpace id0;
          n = countElementSelectors index ident label contains
      in if n = 0 then
           Inl \<lparr>Code = str ''USAGE'',
                Message = str ''selector is required: --index|--id|--label|--contains'',
                Details = []\<rparr>
         else if n = 1 then
           (if index \<ge> 0 \<or> ident \<noteq> [] then pickElement elements index ident
            else pickElementByText elements label contains)
         else
           Inl \<lparr>Code = str ''USAGE'',
                Message = str ''choose only one selector: --index|--id|--label|--contains'',
                Details = []\<rparr>)"

section \<open>Swipe\<close>

text \<open>
  The part of the \<^verbatim>\<open>swipe\<close> subcommand between flag parsing and the injector call. \<open>loaded\<close>
  is what \<^verbatim>\<open>loadElementsAndTransform\<close> returns for the \<^verbatim>\<open>--from\<close> path (the source reads
  the file twice; the model takes it to be unchanged in between), and the result is the
  start and the end point of the gesture. Of \<^verbatim>\<open>Transform\<close> only the screen size is read.
\<close>

record Transform =
  screenW :: real
  screenH :: real

definition swipeStart ::
  "AppError + Element list \<times> Transform \<Rightarrow> int \<Rightarrow> gostring \<Rightarrow> AppError + real \<times> real" where
  "swipeStart loaded index ident =
     (let startX = 196; startY = 426;
          (startX, startY) =
             (case loaded of
                Inr (_, transform) \<Rightarrow>
                  (if screenW transform > 0 then screenW transform / 2 else startX,
                   if screenH transform > 0 then screenH transform / 2 else startY)
              | Inl _ \<Rightarrow> (startX, startY))
      in if index \<ge> 0 \<or> ident \<noteq> [] then
           (case loaded of
              Inl err \<Rightarrow> Inl err
            | Inr (elements, _) \<Rightarrow>
                (case pickElement elements index ident of
                   Inl err \<Rightarrow> Inl err
                 | Inr elem \<Rightarrow> Inr (pointX (Center elem), pointY (Center elem))))
         else Inr (startX, startY))"

definition uiSwipe ::
  "AppError + Element list \<times> Transform \<Rightarrow> int \<Rightarrow> gostring \<Rightarrow> gostring \<Rightarrow> real \<Rightarrow>
     AppError + (real \<times> real) \<times> (real \<times> real)" where
  "uiSwipe loaded index ident direction0 distance =
     (let direction = toLower direction0
      in if direction \<noteq> str ''up'' \<and> direction \<noteq> str ''down'' \<and> direction \<noteq> str ''left'' \<and>
            direction \<noteq> str ''right''
         then Inl \<lparr>Code = str ''USAGE'', Message = str ''direction must be up|down|left|right'',
                   Details = []\<rparr>
         else
           (case swipeStart loaded index ident of
              Inl err \<Rightarrow> Inl err
            | Inr (startX, startY) \<Rightarrow>
                (let endX = startX; endY = startY;
                     endY = (if direction = str ''up'' then endY - distance
                             else if direction = str ''down'' then endY + distance else endY);
                     endX = (if direction = str ''left'' then endX - distance
                             else if direction = str ''right'' then endX + distance else endX)
                 in Inr ((startX, startY), (endX, endY)))))"

section \<open>Stability sampling\<close>

record 'raw frameUISample =
  Raw :: 'raw
  Elements :: "Element list"
  AllCount :: int
  InteractiveCount :: int
  Hash :: gostring

fun allEqualTo :: "gostring \<Rightarrow> gostring list \<Rightarrow> bool" where
  "allEqualTo base [] = True"
| "allEqualTo base (v # vs) = (if v \<noteq> base then False else allEqualTo base vs)"

definition allStringsEqual :: "gostring list \<Rightarrow> bool" where
  "allStringsEqual values =
     (if length values \<le> 1 then True else allEqualTo (hd values) (tl values))"

text \<open>
  \<^verbatim>\<open>captureUISample\<close> asks the device for a tree and hashes its elements; \<open>capture i\<close> is
  what the call of round \<open>i\<close> returns. The loop takes the rounds in order and stops at the
  first error. Sleeping between rounds has no counterpart here.
\<close>

fun sampleLoop ::
  "(nat \<Rightarrow> AppError + 'raw frameUISample) \<Rightarrow> nat list \<Rightarrow> 'raw frameUISample list \<Rightarrow>
     gostring list \<Rightarrow> AppError + 'raw frameUISample list \<times> gostring list" where
  "sampleLoop capture [] samples hashes = Inr (samples, hashes)"
| "sampleLoop capture (i # rounds) samples hashes =
     (case capture i of
        Inl err \<Rightarrow> Inl err
      | Inr sample \<Rightarrow> sampleLoop capture rounds (samples @ [sample]) (hashes @ [Hash sample]))"

definition captureStableUISamples ::
  "(nat \<Rightarrow> AppError + 'raw frameUISample) \<Rightarrow> frameOptions \<Rightarrow>
     AppError + 'raw frameUISample list" where
  "captureStableUISamples capture opts =
     (case sampleLoop capture [0..<nat (StableSamples opts)] [] [] of
        Inl err \<Rightarrow> Inl err
      | Inr (samples, hashes) \<Rightarrow>
          if \<not> allStringsEqual hashes then
            Inl \<lparr>Code = str ''FRAME_UNSTABLE'',
                 Message = str ''ui tree changed during stable sampling'',
                 Details = [(str ''hashes'', DStrings hashes),
                            (str ''samples'', DInt (StableSamples opts)),
                            (str ''interval'', DDuration (StableInterval opts))]\<rparr>
          else Inr samples)"

section \<open>Flow swipe\<close>

text \<open>
  The start point of a \<^verbatim>\<open>swipe\<close> step of a flow. \<open>resolved\<close> is what
  \<^verbatim>\<open>resolveElementForInput\<close> returns for the step's index and id; it is asked only when
  exactly one of the two is set.
\<close>

definition flowSwipeStart :: "AppError + Element \<Rightarrow> int \<Rightarrow> gostring \<Rightarrow> AppError + real \<times> real" where
  "flowSwipeStart resolved index ident =
     (let startX = 196; startY = 426
      in if countElementSelectors index ident [] [] = 1 then
           (case resolved of
              Inl err \<Rightarrow> Inl err
            | Inr elem \<Rightarrow> Inr (pointX (Center elem), pointY (Center elem)))
         else Inr (startX, startY))"

section \<open>Vocabulary of the properties\<close>

text \<open>Frames and elements at which the properties are instantiated.\<close>

definition screen100 :: FrameRect where
  "screen100 = \<lparr>rectX = 0, rectY = 0, rectW = 100, rectH = 100, rectUnit = str ''pt''\<rparr>"

definition frameAt :: "real \<Rightarrow> real \<Rightarrow> real \<Rightarrow> real \<Rightarrow> FrameRect" where
  "frameAt x y w h = \<lparr>rectX = x, rectY = y, rectW = w, rectH = h, rectUnit = str ''pt''\<rparr>"

definition sampleElement :: "int \<Rightarrow> string \<Rightarrow> string \<Rightarrow> string \<Rightarrow> real \<Rightarrow> real \<Rightarrow> Element" where
  "sampleElement idx ident role label x y =
     zeroElement\<lparr>Index := idx, ID := str ident, Role := str role, Label := str label,
                 Enabled := True, Visible := True, Frame := frameAt (x - 10) (y - 10) 20 20,
                 Center := \<lparr>pointX = x, pointY = y, pointUnit = str ''pt''\<rparr>\<rparr>"

text \<open>
  The test of the repository classifies three frames against a screen of 100 by 100. Two more
  pairs show the rounding of the sums. The values of the \<^verbatim>\<open>float64\<close> literals \<^verbatim>\<open>0.1\<close>, \<^verbatim>\<open>0.2\<close>
  and \<^verbatim>\<open>0.6\<close> are \<open>tenth64\<close>, \<open>fifth64\<close> and \<open>sixTenths64\<close> (\<^verbatim>\<open>0.5\<close> is exact):
  \<open>straddlingFrame\<close> is \<^verbatim>\<open>FrameRect{X: 0.2, Y: 10, W: 0.5, H: 20}\<close> and \<open>narrowScreen\<close> is
  \<^verbatim>\<open>FrameRect{X: 0.1, Y: 0, W: 0.6, H: 100}\<close>; \<open>farFrame\<close> is
  \<^verbatim>\<open>FrameRect{X: 1e17, Y: 0, W: 1, H: 50}\<close> and \<open>wideScreen\<close> is
  \<^verbatim>\<open>FrameRect{X: 0, Y: 0, W: 2e17, H: 100}\<close>.
\<close>

definition tenth64 :: real where
  "tenth64 = 3602879701896397 / 2 ^ 55"

definition fifth64 :: real where
  "fifth64 = 3602879701896397 / 2 ^ 54"

definition sixTenths64 :: real where
  "sixTenths64 = 5404319552844595 / 2 ^ 53"

definition straddlingFrame :: FrameRect where
  "straddlingFrame = frameAt fifth64 10 (1 / 2) 20"

definition narrowScreen :: FrameRect where
  "narrowScreen = frameAt tenth64 0 sixTenths64 100"

definition farFrame :: FrameRect where
  "farFrame = frameAt 100000000000000000 0 1 50"

definition wideScreen :: FrameRect where
  "wideScreen = frameAt 0 0 200000000000000000 100"

text \<open>
  A tree of one enabled button with the frame \<open>rect\<close>, and the pairs of \<^verbatim>\<open>Visible\<close> and
  \<^verbatim>\<open>Offscreen\<close> of a list of elements.
\<close>

definition nodeAt :: "FrameRect \<Rightarrow> candidateNode" where
  "nodeAt rect =
     \<lparr>Path = str ''/0'', nodeOrder = 1,
      nodeMap = \<lparr>foundRect = Some rect, idText = str ''probe'', roleText = str ''Button'',
                 labelText = str ''Probe'', valueText = [], enabledFlag = True,
                 focusedFlag = False\<rparr>\<rparr>"

definition visibilityOf :: "Element list \<Rightarrow> (bool \<times> bool) list" where
  "visibilityOf elements = map (\<lambda>e. (Visible e, Offscreen e)) elements"

text \<open>Two text fields for the focus decision.\<close>

definition fieldA :: Element where
  "fieldA = sampleElement 1 ''a'' ''TextField'' '''' 0 0"

definition fieldB :: Element where
  "fieldB = sampleElement 2 ''b'' ''TextField'' '''' 0 100"

text \<open>
  A focused element matches the target when it has the target's \<^verbatim>\<open>ID\<close>, or when the target
  has no \<^verbatim>\<open>ID\<close> and the centers are at most 24 apart.
\<close>

definition focusMatch :: "Element \<Rightarrow> Element \<Rightarrow> bool" where
  "focusMatch target elem \<longleftrightarrow>
     ID elem = ID target \<or> (trimSpace (ID target) = [] \<and> centerDistance elem target \<le> 24)"

text \<open>
  For the nearby labels: \<open>sameBut xs ys\<close> says that \<open>ys\<close> is \<open>xs\<close> up to the \<^verbatim>\<open>NearbyLabel\<close>
  fields, \<open>updated elements k\<close> is what the outer loop leaves at position \<open>k\<close>, and
  \<open>searchInv\<close> is the invariant of the inner loop after the indices below \<open>m\<close>.
\<close>

definition sameBut :: "Element list \<Rightarrow> Element list \<Rightarrow> bool" where
  "sameBut xs ys \<longleftrightarrow>
     length ys = length xs \<and> (\<forall>k<length xs. \<exists>nl. ys ! k = (xs ! k)\<lparr>NearbyLabel := nl\<rparr>)"

definition updated :: "Element list \<Rightarrow> nat \<Rightarrow> Element" where
  "updated elements k =
     (if trimSpace (Label (elements ! k)) \<noteq> [] then elements ! k
      else if fst (nearbySearch elements k) \<ge> 0
           then (elements ! k)\<lparr>NearbyLabel := Label (elements ! nat (fst (nearbySearch elements k)))\<rparr>
           else elements ! k)"

definition searchInv :: "Element list \<Rightarrow> nat \<Rightarrow> nat \<Rightarrow> int \<times> real \<Rightarrow> bool" where
  "searchInv elements i m best \<longleftrightarrow>
     (fst best = - 1 \<and> snd best = maxFloat64 \<and> (\<forall>j<m. \<not> qualifies elements i j)) \<or>
     (0 \<le> fst best \<and> nat (fst best) < m \<and> qualifies elements i (nat (fst best)) \<and>
      snd best = centerDistance (elements ! i) (elements ! nat (fst best)) \<and>
      (\<forall>j<m. qualifies elements i j \<longrightarrow>
         snd best \<le> centerDistance (elements ! i) (elements ! j) \<and>
         (centerDistance (elements ! i) (elements ! j) = snd best \<longrightarrow> nat (fst best) \<le> j)))"

definition threeElements :: "Element list" where
  "threeElements =
     [sampleElement 1 ''field'' ''TextField'' '''' 0 0,
      sampleElement 2 ''name'' ''StaticText'' ''Name'' 30 40,
      sampleElement 3 ''far'' ''StaticText'' ''Far'' 300 400]"

text \<open>
  The list that \<^verbatim>\<open>normalizeElements\<close> hands to \<^verbatim>\<open>addNearbyLabels\<close>: the accepted candidates,
  classified, ordered and indexed.
\<close>

definition indexedCandidates :: "FrameRect option \<Rightarrow> candidateNode list \<Rightarrow> frameOptions \<Rightarrow> Element list" where
  "indexedCandidates rootRect nodes opts =
     (let allCandidates = fst (collectCandidates opts nodes ([], 0, 0));
          screenRect = inferScreenRect rootRect allCandidates
      in assignIndices 0 (orderCandidates (Order opts) (map (applyVisibility screenRect) allCandidates)))"

text \<open>A small tree and an option set for concrete runs of the normaliser.\<close>

definition sampleNodes :: "candidateNode list" where
  "sampleNodes =
     [\<lparr>Path = str ''/0'', nodeOrder = 1,
       nodeMap = \<lparr>foundRect = Some (frameAt 0 100 100 40), idText = str ''ok'',
                  roleText = str ''Button'', labelText = str ''OK'', valueText = [],
                  enabledFlag = True, focusedFlag = False\<rparr>\<rparr>,
      \<lparr>Path = str ''/1'', nodeOrder = 2,
       nodeMap = \<lparr>foundRect = Some (frameAt 0 0 100 40), idText = [],
                  roleText = str ''TextField'', labelText = [], valueText = [],
                  enabledFlag = True, focusedFlag = False\<rparr>\<rparr>,
      \<lparr>Path = str ''/2'', nodeOrder = 3,
       nodeMap = \<lparr>foundRect = None, idText = [],
                  roleText = str ''Group'', labelText = [], valueText = [],
                  enabledFlag = True, focusedFlag = False\<rparr>\<rparr>]"

definition sampleOptions :: frameOptions where
  "sampleOptions =
     \<lparr>OutDir = [], Screenshot = False, UI = True, Annotate = False, InteractiveOnly = False,
      Stable = False, StableSamples = 3, StableInterval = 200000000, Order = str ''reading'',
      Format = str ''png'', MinArea = 0, IncludeRoles = Map.empty, ExcludeRoles = Map.empty,
      EmitJSON = False\<rparr>"

text \<open>The two elements that the small tree yields.\<close>

definition sampleButton :: Element where
  "sampleButton =
     \<lparr>Index = 0, ID = str ''ok'', Role = str ''Button'', Label = str ''OK'', Value = [],
      NearbyLabel = [], Enabled = True, Focused = False, Visible = True,
      Offscreen = False, Frame = frameAt 0 100 100 40,
      Center = \<lparr>pointX = 50, pointY = 120, pointUnit = str ''pt''\<rparr>,
      Source = \<lparr>Tool = str ''idb'', Method = str ''describe-all''\<rparr>, order = 1\<rparr>"

definition sampleField :: Element where
  "sampleField =
     \<lparr>Index = 0, ID = str ''axpath:/1'', Role = str ''TextField'', Label = [], Value = [],
      NearbyLabel = [], Enabled = True, Focused = False, Visible = True,
      Offscreen = False, Frame = frameAt 0 0 100 40,
      Center = \<lparr>pointX = 50, pointY = 20, pointUnit = str ''pt''\<rparr>,
      Source = \<lparr>Tool = str ''idb'', Method = str ''describe-all''\<rparr>, order = 2\<rparr>"


text \<open>
  A capture whose hash in round \<open>i\<close> is \<open>hashes ! i\<close>, and the error that
  \<^verbatim>\<open>captureStableUISamples\<close> builds for a list of hashes.
\<close>

definition sampleWithHash :: "gostring \<Rightarrow> unit frameUISample" where
  "sampleWithHash h = \<lparr>Raw = (), Elements = [], AllCount = 0, InteractiveCount = 0, Hash = h\<rparr>"

definition captureOf :: "gostring list \<Rightarrow> nat \<Rightarrow> AppError + unit frameUISample" where
  "captureOf hashes i = Inr (sampleWithHash (hashes ! i))"

definition frameUnstable :: "gostring list \<Rightarrow> frameOptions \<Rightarrow> AppError" where
  "frameUnstable hashes opts =
     \<lparr>Code = str ''FRAME_UNSTABLE'', Message = str ''ui tree changed during stable sampling'',
      Details = [(str ''hashes'', DStrings hashes), (str ''samples'', DInt (StableSamples opts)),
                 (str ''interval'', DDuration (StableInterval opts))]\<rparr>"

text \<open>The usage error of the resolver for more than one selector.\<close>

definition chooseOnlyOne :: AppError where
  "chooseOnlyOne =
     \<lparr>Code = str ''USAGE'',
      Message = str ''choose only one selector: --index|--id|--label|--contains'',
      Details = []\<rparr>"

text \<open>
  The vocabulary of the scored match, for a label query \<open>q\<close> and a contains query \<open>p\<close> that
  have been trimmed and lower-cased (an empty query is one that was not given). The text of an
  element is its label, its value, its nearby label and its role, each of them trimmed, with
  one space between them, and the substring signal looks for \<open>p\<close> in that text in lower case
  (the source lower-cases it twice). A role is interactive when, trimmed and in lower case, it
  contains one of seven words. The exact-hit signals compare the trimmed field with \<open>q\<close> up to
  case, a candidate is an enabled element that has the hit its query asks for, and
  \<open>signalScore\<close> is the sum of the table.
\<close>

definition joinedText :: "Element \<Rightarrow> gostring" where
  "joinedText e =
     trimSpace (Label e) @ str '' '' @ trimSpace (Value e) @ str '' '' @
     trimSpace (NearbyLabel e) @ str '' '' @ trimSpace (Role e)"

definition substringHit :: "gostring \<Rightarrow> Element \<Rightarrow> bool" where
  "substringHit p e \<longleftrightarrow> sublist p (toLower (toLower (joinedText e)))"

definition interactiveWords :: "gostring list" where
  "interactiveWords =
     [str ''button'', str ''textfield'', str ''securetextfield'', str ''switch'',
      str ''slider'', str ''cell'', str ''link'']"

definition interactiveRole :: "Element \<Rightarrow> bool" where
  "interactiveRole e \<longleftrightarrow> (\<exists>w\<in>set interactiveWords. sublist w (toLower (trimSpace (Role e))))"

definition exactHit :: "gostring \<Rightarrow> Element \<Rightarrow> bool" where
  "exactHit q e \<longleftrightarrow>
     equalFold (trimSpace (Label e)) q \<or> equalFold (trimSpace (Value e)) q \<or>
     equalFold (trimSpace (NearbyLabel e)) q"

definition isCandidate :: "gostring \<Rightarrow> gostring \<Rightarrow> Element \<Rightarrow> bool" where
  "isCandidate q p e \<longleftrightarrow>
     Enabled e \<and> (q \<noteq> [] \<longrightarrow> exactHit q e) \<and> (p \<noteq> [] \<longrightarrow> substringHit p e)"

definition signalScore :: "gostring \<Rightarrow> gostring \<Rightarrow> Element \<Rightarrow> int" where
  "signalScore q p e =
     (if q \<noteq> [] \<and> equalFold (trimSpace (Label e)) q then 90 else 0) +
     (if q \<noteq> [] \<and> equalFold (trimSpace (Value e)) q then 75 else 0) +
     (if q \<noteq> [] \<and> equalFold (trimSpace (NearbyLabel e)) q then 55 else 0) +
     (if p \<noteq> [] \<and> substringHit p e then 45 else 0) +
     (if Visible e then 24 else 0) +
     (if \<not> Offscreen e then 10 else 0) +
     (if interactiveRole e then 15 else 0) +
     (if trimSpace (Label e) \<noteq> [] then 8 else 0)"

text \<open>The error of a query without candidates, by its message.\<close>

definition notFound :: "gostring \<Rightarrow> AppError" where
  "notFound msg = \<lparr>Code = str ''ELEMENT_NOT_FOUND'', Message = msg, Details = []\<rparr>"

text \<open>The two buttons of the repository's test of the scored match.\<close>

definition hiddenNext :: Element where
  "hiddenNext =
     zeroElement\<lparr>Index := 1, ID := str ''hidden'', Label := str ''Next'', Visible := False,
                 Role := str ''Button'', Enabled := True\<rparr>"

definition visibleNext :: Element where
  "visibleNext =
     zeroElement\<lparr>Index := 2, ID := str ''visible'', Label := str ''Next'', Visible := True,
                 Role := str ''Button'', Enabled := True\<rparr>"

text \<open>
  An element with a text in each of the four fields, and an element whose label is the French
  word for school in capitals, with the query in small letters: the first rune is \<^verbatim>\<open>U+00C9\<close>
  in the label and \<^verbatim>\<open>U+00E9\<close> in the query.
\<close>

definition saveButton :: Element where
  "saveButton =
     zeroElement\<lparr>Index := 1, ID := str ''save'', Label := str ''Save'', Value := str ''Draft'',
                 NearbyLabel := str ''Title'', Role := str ''Button'', Enabled := True,
                 Visible := True\<rparr>"

definition ecoleUpper :: gostring where
  "ecoleUpper = [201, 67, 79, 76, 69]"

definition ecoleLower :: gostring where
  "ecoleLower = [233, 99, 111, 108, 101]"

definition ecoleLabel :: Element where
  "ecoleLabel =
     zeroElement\<lparr>Index := 1, ID := str ''school'', Label := ecoleUpper, Role := str ''StaticText'',
                 Enabled := True, Visible := True\<rparr>"


section \<open>Properties\<close>

subsection \<open>Text reconciliation\<close>

lemma comparableLoop_eq:
  "comparableLoop i rs c m = (c @ strip rs, m @ retainedFrom i rs)"
  by (induction rs arbitrary: i c m) (simp_all add: strip_def isIgnoredCompareRune_def)

lemma length_retainedFrom: "length (retainedFrom i rs) = length (strip rs)"
  by (induction rs arbitrary: i) (simp_all add: strip_def)

lemma retainedFrom_shift: "retainedFrom i rs = map (\<lambda>k. i + int k) (retainedIndices rs)"
proof (induction rs arbitrary: i)
  case Nil
  show ?case by (simp add: retainedIndices_def)
next
  case (Cons r rs)
  have upt: "[0..<length (r # rs)] = 0 # map Suc [0..<length rs]"
    by (simp add: upt_conv_Cons map_Suc_upt del: upt_Suc)
  have tl: "filter (\<lambda>k. \<not> isSpace ((r # rs) ! k)) (map Suc [0..<length rs])
            = map Suc (retainedIndices rs)"
    by (simp add: filter_map comp_def retainedIndices_def)
  have step: "map (\<lambda>k. i + int k) (map Suc (retainedIndices rs)) = retainedFrom (i + 1) rs"
    by (simp add: Cons.IH comp_def add.assoc)
  have "retainedIndices (r # rs) =
          (if isSpace r then map Suc (retainedIndices rs) else 0 # map Suc (retainedIndices rs))"
    unfolding retainedIndices_def [of "r # rs"] upt using tl by simp
  then show ?case using step by simp
qed

lemma retainedFrom_drop:
  "k < length (strip rs) \<Longrightarrow>
     i \<le> retainedFrom i rs ! k \<and> retainedFrom i rs ! k < i + int (length rs) \<and>
     strip (drop (nat (retainedFrom i rs ! k - i)) rs) = drop k (strip rs) \<and>
     \<not> isSpace (rs ! nat (retainedFrom i rs ! k - i))"
proof (induction rs arbitrary: i k)
  case Nil
  then show ?case by (simp add: strip_def)
next
  case (Cons r rs)
  have shift: "nat (p - i) = Suc (nat (p - (i + 1)))" if "i + 1 \<le> p" for p
    using that by simp
  show ?case
  proof (cases "isSpace r")
    case True
    with Cons.prems have k: "k < length (strip rs)" by (simp add: strip_def)
    define p where "p = retainedFrom (i + 1) rs ! k"
    from Cons.IH [OF k, of "i + 1"] have ih: "i + 1 \<le> p" "p < i + 1 + int (length rs)"
      "strip (drop (nat (p - (i + 1))) rs) = drop k (strip rs)"
      "\<not> isSpace (rs ! nat (p - (i + 1)))"
      by (simp_all add: p_def)
    have "retainedFrom i (r # rs) ! k = p" using True by (simp add: p_def)
    moreover have "strip (r # rs) = strip rs" using True by (simp add: strip_def)
    ultimately show ?thesis using ih shift [OF ih(1)] by simp
  next
    case False
    show ?thesis
    proof (cases k)
      case 0
      with False show ?thesis by (simp add: strip_def)
    next
      case (Suc j)
      with Cons.prems False have j: "j < length (strip rs)" by (simp add: strip_def)
      define p where "p = retainedFrom (i + 1) rs ! j"
      from Cons.IH [OF j, of "i + 1"] have ih: "i + 1 \<le> p" "p < i + 1 + int (length rs)"
        "strip (drop (nat (p - (i + 1))) rs) = drop j (strip rs)"
        "\<not> isSpace (rs ! nat (p - (i + 1)))"
        by (simp_all add: p_def)
      have "retainedFrom i (r # rs) ! k = p" using False Suc by (simp add: p_def)
      moreover have "strip (r # rs) = r # strip rs" using False by (simp add: strip_def)
      ultimately show ?thesis using ih shift [OF ih(1)] Suc by simp
    qed
  qed
qed

lemma runesAgree_prefix: "runesAgree xs ys \<longleftrightarrow> prefix xs ys"
  by (induction xs ys rule: runesAgree.induct) auto


lemma comparableRunesWithMap_eq:
  "comparableRunesWithMap s = (strip s, map int (retainedIndices s))"
  by (simp add: comparableRunesWithMap_def comparableLoop_eq retainedFrom_shift)

lemma retainedIndices_drop:
  assumes "k < length (strip s)"
  shows "retainedIndices s ! k < length s"
    and "strip (drop (retainedIndices s ! k) s) = drop k (strip s)"
    and "\<not> isSpace (s ! (retainedIndices s ! k))"
proof -
  have len: "length (retainedIndices s) = length (strip s)"
    using length_retainedFrom [of 0 s] by (simp add: retainedFrom_shift)
  have nth: "retainedFrom 0 s ! k = int (retainedIndices s ! k)"
    using assms len by (simp add: retainedFrom_shift)
  from retainedFrom_drop [OF assms, of 0] nth
  show "retainedIndices s ! k < length s"
    and "strip (drop (retainedIndices s ! k) s) = drop k (strip s)"
    and "\<not> isSpace (s ! (retainedIndices s ! k))"
    by simp_all
qed

lemma typedMissingSuffix_cases:
  "typedMissingSuffix intended observed =
     (if \<not> prefix (strip observed) (strip intended) then ([], False)
      else if strip observed = strip intended then ([], True)
      else (drop (retainedIndices intended ! length (strip observed)) intended, True))"
proof (cases "prefix (strip observed) (strip intended)")
  case False
  then show ?thesis
    by (simp add: typedMissingSuffix_def comparableRunesWithMap_eq runesAgree_prefix)
next
  case True
  then have le: "length (strip observed) \<le> length (strip intended)"
    by (rule prefix_length_le)
  show ?thesis
  proof (cases "strip observed = strip intended")
    case True
    then show ?thesis
      by (simp add: typedMissingSuffix_def comparableRunesWithMap_eq runesAgree_prefix)
  next
    case False
    with \<open>prefix (strip observed) (strip intended)\<close>
    have lt: "length (strip observed) < length (strip intended)"
      using le by (auto simp: prefix_def)
    have len: "length (retainedIndices intended) = length (strip intended)"
      using length_retainedFrom [of 0 intended] by (simp add: retainedFrom_shift)
    have bound: "retainedIndices intended ! length (strip observed) < length intended"
      by (rule retainedIndices_drop(1) [OF lt])
    show ?thesis
      using False \<open>prefix (strip observed) (strip intended)\<close> lt len bound
      by (simp add: typedMissingSuffix_def comparableRunesWithMap_eq runesAgree_prefix)
  qed
qed

lemmas reconcile_eval =
  str_def typedMissingSuffix_def comparableRunesWithMap_def isIgnoredCompareRune_def isSpace_def

text \<open>
  Claim C1. \<^verbatim>\<open>typedMissingSuffix\<close> compares the two strings with white space removed. When the
  stripped observed string is not a prefix of the stripped intended string the second result is
  false; when the stripped strings are equal the result is the empty string and true;
  otherwise it is true with the unstripped intended text from the original index that the
  index map records for the first unmatched stripped position. \<^verbatim>\<open>comparableRunesWithMap\<close>
  returns the stripped runes and the original index of each of them. The two examples of the
  specification evaluate to \<^verbatim>\<open>("00", true)\<close>.
\<close>

theorem typedMissingSuffix_spec:
  "(\<not> prefix (strip observed) (strip intended) \<longrightarrow>
      snd (typedMissingSuffix intended observed) = False) \<and>
   (strip observed = strip intended \<longrightarrow> typedMissingSuffix intended observed = ([], True)) \<and>
   (prefix (strip observed) (strip intended) \<and> strip observed \<noteq> strip intended \<longrightarrow>
      typedMissingSuffix intended observed =
        (drop (retainedIndices intended ! length (strip observed)) intended, True)) \<and>
   comparableRunesWithMap intended = (strip intended, map int (retainedIndices intended)) \<and>
   typedMissingSuffix (str ''090-0000-0000'') (str ''090-0000-00'') = (str ''00'', True) \<and>
   typedMissingSuffix (str ''090-0000-0000'') (str ''090 -0000-00'') = (str ''00'', True)"
proof -
  have "typedMissingSuffix (str ''090-0000-0000'') (str ''090-0000-00'') = (str ''00'', True)"
    by (simp add: reconcile_eval)
  moreover
  have "typedMissingSuffix (str ''090-0000-0000'') (str ''090 -0000-00'') = (str ''00'', True)"
    by (simp add: reconcile_eval)
  ultimately show ?thesis
    by (simp add: typedMissingSuffix_cases comparableRunesWithMap_eq)
qed

text \<open>The three cases of C1 at concrete strings.\<close>

theorem typedMissingSuffix_spec_witness:
  "prefix (strip (str ''ab c'')) (strip (str ''a bcd e'')) \<and>
   strip (str ''ab c'') \<noteq> strip (str ''a bcd e'') \<and>
   retainedIndices (str ''a bcd e'') = [0, 2, 3, 4, 6] \<and>
   typedMissingSuffix (str ''a bcd e'') (str ''ab c'') = (str ''d e'', True) \<and>
   \<not> prefix (strip (str ''091-0000'')) (strip (str ''090-0000-0000'')) \<and>
   snd (typedMissingSuffix (str ''090-0000-0000'') (str ''091-0000'')) = False \<and>
   strip (str ''a b'') = strip (str '' ab '') \<and>
   typedMissingSuffix (str '' ab '') (str ''a b'') = ([], True)"
  using typedMissingSuffix_spec [of "str ''ab c''" "str ''a bcd e''"]
    typedMissingSuffix_spec [of "str ''091-0000''" "str ''090-0000-0000''"]
    typedMissingSuffix_spec [of "str ''a b''" "str '' ab ''"]
  by (simp add: str_def strip_def retainedIndices_def isSpace_def upt_conv_Cons)

text \<open>
  Claim C9. Whenever \<^verbatim>\<open>typedMissingSuffix\<close> answers \<^verbatim>\<open>(missing, true)\<close>, the stripped observed
  string followed by the stripped missing suffix is the stripped intended string, and the
  suffix is empty exactly when the stripped strings already agree.
\<close>

theorem typedMissingSuffix_repair:
  assumes "typedMissingSuffix intended observed = (missing, True)"
  shows "strip observed @ strip missing = strip intended \<and>
         (missing = [] \<longleftrightarrow> strip observed = strip intended)"
proof (cases "strip observed = strip intended")
  case True
  with assms show ?thesis by (simp add: typedMissingSuffix_cases strip_def)
next
  case False
  from assms have pre: "prefix (strip observed) (strip intended)"
    by (simp add: typedMissingSuffix_cases split: if_splits)
  with False have lt: "length (strip observed) < length (strip intended)"
    using prefix_length_le [OF pre] by (auto simp: prefix_def)
  let ?start = "retainedIndices intended ! length (strip observed)"
  from assms False pre have missing: "missing = drop ?start intended"
    by (simp add: typedMissingSuffix_cases)
  have "?start < length intended" by (rule retainedIndices_drop(1) [OF lt])
  then have nonempty: "missing \<noteq> []" by (simp add: missing)
  have "strip missing = drop (length (strip observed)) (strip intended)"
    unfolding missing by (rule retainedIndices_drop(2) [OF lt])
  moreover from pre obtain zs where "strip intended = strip observed @ zs"
    by (auto simp: prefix_def)
  ultimately have "strip observed @ strip missing = strip intended" by simp
  with nonempty False show ?thesis by simp
qed

text \<open>The repair of C9 on the e-mail address of the specification's scenario.\<close>

theorem typedMissingSuffix_repair_witness:
  "typedMissingSuffix (str ''hello@example.com'') (str ''hello@exam'') = (str ''ple.com'', True) \<and>
   strip (str ''hello@exam'') @ strip (str ''ple.com'') = strip (str ''hello@example.com'') \<and>
   str ''ple.com'' \<noteq> [] \<and> strip (str ''hello@exam'') \<noteq> strip (str ''hello@example.com'')"
proof -
  have run: "typedMissingSuffix (str ''hello@example.com'') (str ''hello@exam'') = (str ''ple.com'', True)"
    by (simp add: reconcile_eval)
  from typedMissingSuffix_repair [OF run] run show ?thesis
    by (simp add: str_def)
qed
subsection \<open>Rounding\<close>

lemma roundEven_int: "roundEven (of_int k) = k"
  by (simp add: roundEven_def)

lemma floor_log2_eq:
  assumes "0 < x" "2 powi e \<le> x" "x < 2 powi (e + 1)"
  shows "\<lfloor>log 2 x\<rfloor> = e"
proof -
  have a: "2 powr (of_int e) = (2::real) powi e"
    using powr_real_of_int' [of 2 e] by simp
  have c: "2 powr (of_int (e + 1)) = (2::real) powi (e + 1)"
    by (rule powr_real_of_int') simp_all
  have "\<lfloor>log 2 x\<rfloor> = e \<longleftrightarrow> 2 powr (of_int e) \<le> x \<and> x < 2 powr (of_int (e + 1))"
    using assms(1) by (intro floor_log_eq_powr_iff) simp_all
  then show ?thesis unfolding a c using assms by simp
qed

lemma ulp64_at:
  assumes "2 powi e \<le> \<bar>x\<bar>" "\<bar>x\<bar> < 2 powi (e + 1)" "- 1022 \<le> e"
  shows "ulp64 x = 2 powi (e - 52)"
proof -
  have "0 < \<bar>x\<bar>" using assms(1) by (smt (verit) zero_less_power_int)
  from floor_log2_eq [OF this assms(1,2)] assms(3) show ?thesis
    by (simp add: ulp64_def max_def)
qed

text \<open>The rounding of a value whose binary exponent is \<open>e\<close>.\<close>

lemma round64_at:
  assumes "2 powi e \<le> \<bar>x\<bar>" "\<bar>x\<bar> < 2 powi (e + 1)" "- 1022 \<le> e"
  shows "round64 x = saturate64 (of_int (roundEven (x / 2 powi (e - 52))) * 2 powi (e - 52))"
proof -
  have "x \<noteq> 0" using assms(1) by (smt (verit) zero_less_power_int)
  then show ?thesis by (simp add: round64_def ulp64_at [OF assms])
qed

text \<open>An integer below \<open>2 ^ 53\<close> in magnitude is a value of the type.\<close>

lemma round64_int:
  assumes "x \<in> \<int>" "\<bar>x\<bar> < 9007199254740992"
  shows "round64 x = x"
proof (cases "x = 0")
  case True
  then show ?thesis by (simp add: round64_def)
next
  case False
  from assms(1) obtain n where n: "x = of_int n" by (auto elim: Ints_cases)
  with False have "n \<noteq> 0" by simp
  then have one: "1 \<le> \<bar>x\<bar>" unfolding n by (simp add: of_int_abs [symmetric] del: of_int_abs)
  define e where "e = \<lfloor>log 2 \<bar>x\<bar>\<rfloor>"
  have "0 \<le> log 2 \<bar>x\<bar>" using one by simp
  then have e0: "0 \<le> e" by (simp add: e_def)
  have "(2::real) powr 53 = 9007199254740992" by simp
  then have "log 2 \<bar>x\<bar> < 53"
    using assms(2) one by (subst log_less_iff) simp_all
  then have e52: "e \<le> 52" unfolding e_def by (simp add: floor_le_iff)
  define k where "k = nat (52 - e)"
  have u: "ulp64 x = 1 / 2 ^ k"
    using e0 e52 unfolding ulp64_def e_def [symmetric] k_def
    by (simp add: max_def power_int_def field_simps)
  have "x / ulp64 x = of_int (n * 2 ^ k)" unfolding u by (simp add: n)
  then have "roundEven (x / ulp64 x) = n * 2 ^ k" by (simp only: roundEven_int)
  then have "round64 x = saturate64 (of_int (n * 2 ^ k) * (1 / 2 ^ k))"
    using False unfolding round64_def u by simp
  also have "of_int (n * 2 ^ k) * (1 / 2 ^ k) = x" by (simp add: n)
  finally have r: "round64 x = saturate64 x" .
  have "(9007199254740992::real) < inf64" by (simp add: inf64_def)
  with assms(2) have "x < inf64" "- inf64 < x" by linarith+
  then have "saturate64 x = x" by (simp add: saturate64_def)
  with r show ?thesis by simp
qed

lemma fadd64_int: "a + b \<in> \<int> \<Longrightarrow> \<bar>a + b\<bar> < 9007199254740992 \<Longrightarrow> fadd64 a b = a + b"
  by (simp add: fadd64_def round64_int)

lemma fsub64_int: "a - b \<in> \<int> \<Longrightarrow> \<bar>a - b\<bar> < 9007199254740992 \<Longrightarrow> fsub64 a b = a - b"
  by (simp add: fsub64_def round64_int)

text \<open>
  The sums of the frames that show the rounding: \<^verbatim>\<open>0.2 + 0.5\<close> and \<^verbatim>\<open>0.1 + 0.6\<close> are the same
  \<^verbatim>\<open>float64\<close>, and \<^verbatim>\<open>1e17 + 1\<close> is \<^verbatim>\<open>1e17\<close>.
\<close>

lemma round64_sevenTenths:
  "round64 (fifth64 + 1 / 2) = 3152519739159347 / 2 ^ 52"
  "round64 (tenth64 + sixTenths64) = 3152519739159347 / 2 ^ 52"
  by (simp_all add: fifth64_def tenth64_def sixTenths64_def round64_at [where e = "- 1"]
      roundEven_def saturate64_def inf64_def)

lemma round64_far:
  "round64 100000000000000001 = 100000000000000000"
  "round64 200000000000000000 = 200000000000000000"
proof -
  show "round64 100000000000000001 = 100000000000000000"
    by (simp add: round64_at [where e = 56] roundEven_def saturate64_def inf64_def)
  show "round64 200000000000000000 = 200000000000000000"
    by (simp add: round64_at [where e = 57] roundEven_def saturate64_def inf64_def)
qed

subsection \<open>Visibility and focus\<close>

lemma hypot_le_iff: "0 \<le> c \<Longrightarrow> hypot p q \<le> c \<longleftrightarrow> p * p + q * q \<le> c * c"
proof -
  assume c: "0 \<le> c"
  have "hypot p q \<le> c \<longleftrightarrow> sqrt (p * p + q * q) \<le> sqrt (c * c)"
    using c by (simp add: hypot_def)
  also have "\<dots> \<longleftrightarrow> p * p + q * q \<le> c * c"
    by (rule real_sqrt_le_iff)
  finally show ?thesis .
qed

lemma hypot_less_iff: "0 \<le> c \<Longrightarrow> hypot p q < c \<longleftrightarrow> p * p + q * q < c * c"
proof -
  assume c: "0 \<le> c"
  have "hypot p q < c \<longleftrightarrow> sqrt (p * p + q * q) < sqrt (c * c)"
    using c by (simp add: hypot_def)
  also have "\<dots> \<longleftrightarrow> p * p + q * q < c * c"
    by (rule real_sqrt_less_iff)
  finally show ?thesis .
qed

lemma maxFloat64_large: "220 < maxFloat64"
proof -
  have "(1::real) \<le> 2 ^ 971" by simp
  moreover have "(220::real) < 2 ^ 53 - 1" by simp
  ultimately have "220 * 1 < (2 ^ 53 - 1) * (2 ^ 971 :: real)"
    by (intro mult_less_le_imp_less) simp_all
  then show ?thesis by (simp add: maxFloat64_def)
qed

lemma hypot_less_hypot: "hypot a b < hypot c d \<longleftrightarrow> a * a + b * b < c * c + d * d"
  by (simp add: hypot_def)

lemma hypot_less_max: "hypot p q \<le> 220 \<Longrightarrow> hypot p q < maxFloat64"
  using maxFloat64_large by simp

lemma hypot_gt_iff: "0 \<le> c \<Longrightarrow> c < hypot p q \<longleftrightarrow> c * c < p * p + q * q"
  using hypot_le_iff [of c p q] by (simp add: not_le [symmetric])

lemmas hypot_eval = hypot_le_iff hypot_less_iff hypot_gt_iff hypot_less_hypot hypot_less_max

text \<open>
  The classification in terms of the computed edges, for a frame and a screen of positive
  width and height.
\<close>

lemma classifyVisibility_edges:
  assumes "0 < rectW rect" "0 < rectH rect" "0 < rectW screen" "0 < rectH screen"
  shows "classifyVisibility rect screen =
           (if \<not> hasExtent rect \<or> \<not> hasExtent screen \<or> apartEdges rect screen then (False, True)
            else (True, \<not> insideEdges rect screen))"
proof -
  define rr where "rr = rightEdge rect"
  define rb where "rb = bottomEdge rect"
  define sr where "sr = rightEdge screen"
  define sb where "sb = bottomEdge screen"
  have cv: "classifyVisibility rect screen =
      (if min rr sr \<le> max (rectX rect) (rectX screen) \<or> min rb sb \<le> max (rectY rect) (rectY screen)
       then (False, True)
       else (True, rectX rect < rectX screen \<or> rectY rect < rectY screen \<or> rr > sr \<or> rb > sb))"
    using assms
    by (simp add: classifyVisibility_def Let_def fadd64_def rightEdge_def bottomEdge_def
        rr_def rb_def sr_def sb_def)
  show ?thesis
    unfolding cv hasExtent_def apartEdges_def insideEdges_def
      rr_def [symmetric] rb_def [symmetric] sr_def [symmetric] sb_def [symmetric]
    by (auto simp: min_def max_def)
qed

text \<open>Where the sums need no rounding, the computed edges are the edges of the rectangles.\<close>

lemma exact_edges:
  assumes "edgesExact rect" "edgesExact screen"
  shows "insideEdges rect screen \<longleftrightarrow> fullyInside rect screen"
    and "apartEdges rect screen \<longleftrightarrow> noIntersection rect screen"
    and "0 < rectW rect \<Longrightarrow> 0 < rectH rect \<Longrightarrow> hasExtent rect"
    and "0 < rectW screen \<Longrightarrow> 0 < rectH screen \<Longrightarrow> hasExtent screen"
  using assms
  by (simp_all add: edgesExact_def insideEdges_def apartEdges_def fullyInside_def
      noIntersection_def hasExtent_def)

lemma edgesExact_int:
  assumes "rectX r + rectW r \<in> \<int>" "\<bar>rectX r + rectW r\<bar> < 9007199254740992"
    "rectY r + rectH r \<in> \<int>" "\<bar>rectY r + rectH r\<bar> < 9007199254740992"
  shows "edgesExact r"
  using assms by (simp add: edgesExact_def rightEdge_def bottomEdge_def round64_int)

lemma canTrustLoop_iff:
  "canTrustLoop elements target hasFocused \<longleftrightarrow>
     (\<exists>e\<in>set elements. Focused e \<and> focusMatch target e) \<or>
     (\<not> hasFocused \<and> \<not> (\<exists>e\<in>set elements. Focused e))"
  by (induction elements arbitrary: hasFocused)
    (auto simp: focusMatch_def centerDistance_def Let_def)

lemma verifyFocusRound_Verified:
  "verifyFocusRound snapshotElements tapped focusPoint = Verified t \<longleftrightarrow>
     snd (findBestVerificationTarget snapshotElements tapped) \<and>
     canTrustFocus snapshotElements (fst (findBestVerificationTarget snapshotElements tapped)) \<and>
     t = (fst (findBestVerificationTarget snapshotElements tapped))
           \<lparr>Center := focusPointForElement (fst (findBestVerificationTarget snapshotElements tapped))\<rparr>"
  by (auto simp: verifyFocusRound_def Let_def split: prod.splits)

text \<open>
  Claim C3. \<^verbatim>\<open>canTrustFocus\<close> decides on the elements of the snapshot taken after the tap
  and on the target: when some element reports \<^verbatim>\<open>Focused\<close>, the focus is trusted exactly when
  a focused element has the target's \<^verbatim>\<open>ID\<close> or, the target having no \<^verbatim>\<open>ID\<close>, has its center
  within 24 of the target's \<^verbatim>\<open>Center\<close>; when no element reports focus, it is trusted. The
  controller's round asks this for the element it has matched in that snapshot, whose
  \<^verbatim>\<open>Center\<close> is the center of its frame; only on return is the \<^verbatim>\<open>Center\<close> replaced by the
  focus point.
\<close>

theorem canTrustFocus_policy:
  "(canTrustFocus elements target \<longleftrightarrow>
     (if \<exists>e\<in>set elements. Focused e
      then \<exists>e\<in>set elements. Focused e \<and>
             (ID e = ID target \<or>
              (trimSpace (ID target) = [] \<and> centerDistance e target \<le> 24))
      else True)) \<and>
   (verifyFocusRound elements tapped focusPoint = Verified t \<longleftrightarrow>
      snd (findBestVerificationTarget elements tapped) \<and>
      canTrustFocus elements (fst (findBestVerificationTarget elements tapped)) \<and>
      t = (fst (findBestVerificationTarget elements tapped))
            \<lparr>Center := focusPointForElement (fst (findBestVerificationTarget elements tapped))\<rparr>)"
proof
  show "canTrustFocus elements target \<longleftrightarrow>
     (if \<exists>e\<in>set elements. Focused e
      then \<exists>e\<in>set elements. Focused e \<and>
             (ID e = ID target \<or>
              (trimSpace (ID target) = [] \<and> centerDistance e target \<le> 24))
      else True)"
    by (auto simp: canTrustFocus_def canTrustLoop_iff focusMatch_def)
  show "verifyFocusRound elements tapped focusPoint = Verified t \<longleftrightarrow>
      snd (findBestVerificationTarget elements tapped) \<and>
      canTrustFocus elements (fst (findBestVerificationTarget elements tapped)) \<and>
      t = (fst (findBestVerificationTarget elements tapped))
            \<lparr>Center := focusPointForElement (fst (findBestVerificationTarget elements tapped))\<rparr>"
    by (rule verifyFocusRound_Verified)
qed

lemmas fixture_eval = sampleElement_def zeroElement_def str_def trimSpace_def isSpace_def
  frameAt_def zeroRect_def

text \<open>
  The policy of C3 at focused and unfocused snapshots, with and without a target \<^verbatim>\<open>ID\<close>, and
  one round of the controller.
\<close>

theorem canTrustFocus_policy_witness:
  "canTrustFocus [fieldA, fieldB\<lparr>Focused := True\<rparr>] fieldB \<and>
   \<not> canTrustFocus [fieldA, fieldB\<lparr>Focused := True\<rparr>] fieldA \<and>
   canTrustFocus [fieldB\<lparr>Focused := True\<rparr>] (sampleElement 1 '''' ''TextField'' '''' 0 76) \<and>
   \<not> canTrustFocus [fieldB\<lparr>Focused := True\<rparr>] (sampleElement 1 '''' ''TextField'' '''' 7 75) \<and>
   canTrustFocus [fieldA, fieldB] (sampleElement 1 ''zzz'' ''TextField'' '''' 500 500) \<and>
   verifyFocusRound [fieldA, fieldB\<lparr>Focused := True\<rparr>] fieldB (Center fieldB) =
     Verified (fieldB\<lparr>Focused := True,
                      Center := \<lparr>pointX = - 2, pointY = 100, pointUnit = str ''pt''\<rparr>\<rparr>)"
proof -
  have policy: "canTrustFocus [fieldA, fieldB\<lparr>Focused := True\<rparr>] fieldB \<and>
   \<not> canTrustFocus [fieldA, fieldB\<lparr>Focused := True\<rparr>] fieldA \<and>
   canTrustFocus [fieldB\<lparr>Focused := True\<rparr>] (sampleElement 1 '''' ''TextField'' '''' 0 76) \<and>
   \<not> canTrustFocus [fieldB\<lparr>Focused := True\<rparr>] (sampleElement 1 '''' ''TextField'' '''' 7 75) \<and>
   canTrustFocus [fieldA, fieldB] (sampleElement 1 ''zzz'' ''TextField'' '''' 500 500) \<and>
   canTrustFocus [fieldA, fieldB\<lparr>Focused := True\<rparr>] (fieldB\<lparr>Focused := True\<rparr>)"
    using
      canTrustFocus_policy [THEN conjunct1, of "[fieldA, fieldB\<lparr>Focused := True\<rparr>]" fieldB]
      canTrustFocus_policy [THEN conjunct1, of "[fieldA, fieldB\<lparr>Focused := True\<rparr>]" fieldA]
      canTrustFocus_policy [THEN conjunct1, of "[fieldB\<lparr>Focused := True\<rparr>]"
        "sampleElement 1 '''' ''TextField'' '''' 0 76"]
      canTrustFocus_policy [THEN conjunct1, of "[fieldB\<lparr>Focused := True\<rparr>]"
        "sampleElement 1 '''' ''TextField'' '''' 7 75"]
      canTrustFocus_policy [THEN conjunct1, of "[fieldA, fieldB]"
        "sampleElement 1 ''zzz'' ''TextField'' '''' 500 500"]
      canTrustFocus_policy [THEN conjunct1, of "[fieldA, fieldB\<lparr>Focused := True\<rparr>]"
        "fieldB\<lparr>Focused := True\<rparr>"]
    by (simp add: fieldA_def fieldB_def sampleElement_def zeroElement_def centerDistance_def
        hypot_eval str_def trimSpace_def isSpace_def)
  have best: "findBestVerificationTarget [fieldA, fieldB\<lparr>Focused := True\<rparr>] fieldB =
                (fieldB\<lparr>Focused := True\<rparr>, True)"
    by (simp add: findBestVerificationTarget_def fieldA_def fieldB_def sampleElement_def
        str_def trimSpace_def isSpace_def)
  have role: "isTextInputRole (str ''TextField'')"
    by (simp add: isTextInputRole_def textInputRoleHints_def stringsContains_def sublist_code
        toLower_def toLowerRune_def str_def trimSpace_def isSpace_def)
  have point: "focusPointForElement (fieldB\<lparr>Focused := True\<rparr>) =
                 \<lparr>pointX = - 2, pointY = 100, pointUnit = str ''pt''\<rparr>"
    using role
    by (simp add: focusPointForElement_def fieldB_def sampleElement_def frameAt_def Let_def)
  have round: "verifyFocusRound [fieldA, fieldB\<lparr>Focused := True\<rparr>] fieldB (Center fieldB) =
     Verified (fieldB\<lparr>Focused := True,
                      Center := \<lparr>pointX = - 2, pointY = 100, pointUnit = str ''pt''\<rparr>\<rparr>)"
    using policy
    by (intro canTrustFocus_policy [THEN conjunct2, THEN iffD2])
      (simp add: best point)
  from policy round show ?thesis by simp
qed
subsection \<open>Nearby labels\<close>

lemma nearbyStep_cong:
  assumes "sameBut xs ys" "i < length xs" "j < length xs"
  shows "nearbyStep ys i best j = nearbyStep xs i best j"
proof -
  from assms obtain a b where "ys ! i = (xs ! i)\<lparr>NearbyLabel := a\<rparr>"
    "ys ! j = (xs ! j)\<lparr>NearbyLabel := b\<rparr>"
    unfolding sameBut_def by blast
  then show ?thesis by (simp add: nearbyStep_def split: prod.splits)
qed

lemma nearbySearch_cong:
  assumes "sameBut xs ys" "i < length xs"
  shows "nearbySearch ys i = nearbySearch xs i"
proof -
  have len: "length ys = length xs" using assms(1) by (simp add: sameBut_def)
  have "foldl (nearbyStep ys i) b js = foldl (nearbyStep xs i) b js"
    if "set js \<subseteq> {..<length xs}" for b js
    using that
    by (induction js arbitrary: b) (simp_all add: nearbyStep_cong [OF assms])
  moreover have "set [0..<length xs] \<subseteq> {..<length xs}" by auto
  ultimately show ?thesis unfolding nearbySearch_def len by blast
qed

lemma nearbyStep_inv:
  assumes inv: "searchInv elements i m best" and m: "m < length elements"
  shows "searchInv elements i (Suc m) (nearbyStep elements i best m)"
proof -
  obtain b d where best: "best = (b, d)" by (cases best)
  let ?dist = "centerDistance (elements ! i) (elements ! m)"
  show ?thesis
  proof (cases "qualifies elements i m")
    case False
    then have same: "nearbyStep elements i best m = best"
      using m unfolding nearbyStep_def qualifies_def centerDistance_def best
      by (auto simp: Let_def)
    from False inv show ?thesis
      unfolding same searchInv_def by (auto simp: less_Suc_eq)
  next
    case True
    then have q: "m \<noteq> i" "trimSpace (Label (elements ! m)) \<noteq> []" "Visible (elements ! m)"
      "?dist \<le> 220"
      by (simp_all add: qualifies_def)
    show ?thesis
    proof (cases "?dist < d")
      case True
      then have val: "nearbyStep elements i best m = (int m, ?dist)"
        using q unfolding nearbyStep_def centerDistance_def best by (simp add: Let_def)
      have "\<forall>j<m. qualifies elements i j \<longrightarrow> ?dist < centerDistance (elements ! i) (elements ! j)"
        using inv True unfolding searchInv_def best by auto
      then show ?thesis
        using \<open>qualifies elements i m\<close> unfolding val searchInv_def
        by (auto simp: less_Suc_eq)
    next
      case False
      then have val: "nearbyStep elements i best m = (b, d)"
        using q unfolding nearbyStep_def centerDistance_def best by (simp add: Let_def)
      from False q(4) maxFloat64_large have "d \<noteq> maxFloat64" by auto
      with inv have old: "0 \<le> b" "nat b < m" "qualifies elements i (nat b)"
        "d = centerDistance (elements ! i) (elements ! nat b)"
        "\<forall>j<m. qualifies elements i j \<longrightarrow>
           d \<le> centerDistance (elements ! i) (elements ! j) \<and>
           (centerDistance (elements ! i) (elements ! j) = d \<longrightarrow> nat b \<le> j)"
        unfolding searchInv_def best by auto
      show ?thesis
        unfolding val searchInv_def using old False
        by (auto simp: less_Suc_eq)
    qed
  qed
qed

lemma nearbySearch_prefix_inv:
  "m \<le> length elements \<Longrightarrow>
     searchInv elements i m (foldl (nearbyStep elements i) (- 1, maxFloat64) [0..<m])"
proof (induction m)
  case 0
  show ?case by (simp add: searchInv_def)
next
  case (Suc m)
  then have "searchInv elements i m (foldl (nearbyStep elements i) (- 1, maxFloat64) [0..<m])"
    by simp
  from nearbyStep_inv [OF this] Suc.prems show ?case by simp
qed

lemma nearbySearch_inv: "searchInv elements i (length elements) (nearbySearch elements i)"
  unfolding nearbySearch_def by (rule nearbySearch_prefix_inv) simp

lemma nearbySearch_index_bound:
  "0 \<le> fst (nearbySearch elements i) \<Longrightarrow> nat (fst (nearbySearch elements i)) < length elements"
  using nearbySearch_inv [of elements i] by (auto simp: searchInv_def)

lemma updated_sameBut: "\<exists>nl. updated elements k = (elements ! k)\<lparr>NearbyLabel := nl\<rparr>"
proof (cases "updated elements k = elements ! k")
  case True
  then have "updated elements k = (elements ! k)\<lparr>NearbyLabel := NearbyLabel (elements ! k)\<rparr>"
    by simp
  then show ?thesis by blast
next
  case False
  then show ?thesis unfolding updated_def by (auto split: if_splits)
qed

lemma nearbyUpdate_step:
  assumes same: "sameBut elements cur" and m: "m < length elements"
    and at: "cur ! m = elements ! m"
  shows "nearbyUpdate cur m = cur[m := updated elements m]"
proof -
  have len: "length cur = length elements" using same by (simp add: sameBut_def)
  have search: "nearbySearch cur m = nearbySearch elements m"
    by (rule nearbySearch_cong [OF same m])
  show ?thesis
  proof (cases "trimSpace (Label (elements ! m)) \<noteq> [] \<or> \<not> 0 \<le> fst (nearbySearch elements m)")
    case True
    then have "updated elements m = cur ! m" by (auto simp: updated_def at)
    moreover from True have "nearbyUpdate cur m = cur"
      by (auto simp: nearbyUpdate_def at search split: prod.splits)
    ultimately show ?thesis by simp
  next
    case False
    then have b: "0 \<le> fst (nearbySearch elements m)" by simp
    let ?b = "nat (fst (nearbySearch elements m))"
    have "?b < length elements" by (rule nearbySearch_index_bound [OF b])
    with same obtain nl where "cur ! ?b = (elements ! ?b)\<lparr>NearbyLabel := nl\<rparr>"
      unfolding sameBut_def by blast
    then have "Label (cur ! ?b) = Label (elements ! ?b)" by simp
    with False show ?thesis
      by (auto simp: nearbyUpdate_def updated_def at search split: prod.splits)
  qed
qed

lemma addNearbyLabels_prefix:
  "m \<le> length elements \<Longrightarrow>
     length (foldl nearbyUpdate elements [0..<m]) = length elements \<and>
     (\<forall>k<length elements.
        foldl nearbyUpdate elements [0..<m] ! k = (if k < m then updated elements k else elements ! k))"
proof (induction m)
  case 0
  show ?case by simp
next
  case (Suc m)
  let ?cur = "foldl nearbyUpdate elements [0..<m]"
  from Suc have m: "m < length elements" and len: "length ?cur = length elements"
    and nth: "\<forall>k<length elements. ?cur ! k = (if k < m then updated elements k else elements ! k)"
    by simp_all
  have same: "sameBut elements ?cur"
    unfolding sameBut_def
  proof (intro conjI allI impI)
    show "length ?cur = length elements" by (rule len)
  next
    fix k assume k: "k < length elements"
    show "\<exists>nl. ?cur ! k = (elements ! k)\<lparr>NearbyLabel := nl\<rparr>"
    proof (cases "k < m")
      case True
      with nth k have "?cur ! k = updated elements k" by simp
      then show ?thesis using updated_sameBut [of elements k] by simp
    next
      case False
      with nth k have "?cur ! k = (elements ! k)\<lparr>NearbyLabel := NearbyLabel (elements ! k)\<rparr>"
        by simp
      then show ?thesis by blast
    qed
  qed
  have at: "?cur ! m = elements ! m" using nth m by simp
  have step: "foldl nearbyUpdate elements [0..<Suc m] = ?cur[m := updated elements m]"
    using nearbyUpdate_step [OF same m at] by simp
  show ?case
    unfolding step using len nth m by (auto simp: nth_list_update less_Suc_eq)
qed

lemma addNearbyLabels_nth:
  "length (addNearbyLabels elements) = length elements"
  "i < length elements \<Longrightarrow> addNearbyLabels elements ! i = updated elements i"
  using addNearbyLabels_prefix [of "length elements" elements]
  by (simp_all add: addNearbyLabels_def)

lemma updated_cases:
  assumes i: "i < length elements"
  shows "trimSpace (Label (elements ! i)) \<noteq> [] \<Longrightarrow> updated elements i = elements ! i"
    and "\<forall>j<length elements. \<not> qualifies elements i j \<Longrightarrow> updated elements i = elements ! i"
    and "trimSpace (Label (elements ! i)) = [] \<Longrightarrow> \<exists>j<length elements. qualifies elements i j \<Longrightarrow>
           \<exists>j<length elements. qualifies elements i j \<and>
             (\<forall>k<length elements. qualifies elements i k \<longrightarrow>
                centerDistance (elements ! i) (elements ! j) \<le> centerDistance (elements ! i) (elements ! k) \<and>
                (centerDistance (elements ! i) (elements ! k) = centerDistance (elements ! i) (elements ! j)
                   \<longrightarrow> j \<le> k)) \<and>
             updated elements i = (elements ! i)\<lparr>NearbyLabel := Label (elements ! j)\<rparr>"
proof -
  note inv = nearbySearch_inv [of elements i, unfolded searchInv_def]
  show "trimSpace (Label (elements ! i)) \<noteq> [] \<Longrightarrow> updated elements i = elements ! i"
    by (simp add: updated_def)
  show "\<forall>j<length elements. \<not> qualifies elements i j \<Longrightarrow> updated elements i = elements ! i"
    using inv by (auto simp: updated_def)
  assume empty: "trimSpace (Label (elements ! i)) = []"
    and ex: "\<exists>j<length elements. qualifies elements i j"
  let ?b = "nat (fst (nearbySearch elements i))"
  from inv ex have b: "0 \<le> fst (nearbySearch elements i)" "?b < length elements"
    "qualifies elements i ?b"
    "snd (nearbySearch elements i) = centerDistance (elements ! i) (elements ! ?b)"
    "\<forall>j<length elements. qualifies elements i j \<longrightarrow>
       snd (nearbySearch elements i) \<le> centerDistance (elements ! i) (elements ! j) \<and>
       (centerDistance (elements ! i) (elements ! j) = snd (nearbySearch elements i) \<longrightarrow> ?b \<le> j)"
    by auto
  have "updated elements i = (elements ! i)\<lparr>NearbyLabel := Label (elements ! ?b)\<rparr>"
    using empty b(1) by (simp add: updated_def)
  with b show "\<exists>j<length elements. qualifies elements i j \<and>
             (\<forall>k<length elements. qualifies elements i k \<longrightarrow>
                centerDistance (elements ! i) (elements ! j) \<le> centerDistance (elements ! i) (elements ! k) \<and>
                (centerDistance (elements ! i) (elements ! k) = centerDistance (elements ! i) (elements ! j)
                   \<longrightarrow> j \<le> k)) \<and>
             updated elements i = (elements ! i)\<lparr>NearbyLabel := Label (elements ! j)\<rparr>"
    by (intro exI [of _ ?b]) simp
qed

lemma addNearbyLabels_fields:
  assumes "i < length elements"
  shows "addNearbyLabels elements ! i =
           (elements ! i)\<lparr>NearbyLabel := NearbyLabel (addNearbyLabels elements ! i)\<rparr>"
proof -
  from updated_sameBut [of elements i] obtain nl
    where "updated elements i = (elements ! i)\<lparr>NearbyLabel := nl\<rparr>" by blast
  then show ?thesis by (simp add: addNearbyLabels_nth(2) [OF assms])
qed

lemma addNearbyLabels_Index: "map Index (addNearbyLabels elements) = map Index elements"
proof (rule nth_equalityI)
  show "length (map Index (addNearbyLabels elements)) = length (map Index elements)"
    by (simp add: addNearbyLabels_nth(1))
next
  fix i assume "i < length (map Index (addNearbyLabels elements))"
  then have i: "i < length elements" by (simp add: addNearbyLabels_nth(1))
  have "Index (addNearbyLabels elements ! i) = Index (elements ! i)"
    using arg_cong [OF addNearbyLabels_fields [OF i], of Index] by simp
  then show "map Index (addNearbyLabels elements) ! i = map Index elements ! i"
    using i by (simp add: addNearbyLabels_nth(1))
qed

lemma insertBy_mset: "mset (insertBy lt x xs) = add_mset x (mset xs)"
  by (induction xs) simp_all

lemma sortSlice_mset_aux: "mset (foldl (\<lambda>acc x. insertBy lt x acc) acc xs) = mset acc + mset xs"
  by (induction xs arbitrary: acc) (simp_all add: insertBy_mset)

lemma sortSlice_mset: "mset (sortSlice lt xs) = mset xs"
  by (simp add: sortSlice_def sortSlice_mset_aux)

lemma sortSlice_set: "set (sortSlice lt xs) = set xs"
  using sortSlice_mset [of lt xs] by (metis set_mset_mset)

lemma sortSlice_length: "length (sortSlice lt xs) = length xs"
  using sortSlice_mset [of lt xs] by (metis size_mset)

text \<open>Elements that the comparison does not separate keep their order.\<close>

lemma sortSlice_keeps_ties:
  "sortSlice (\<lambda>a b. fst a < fst b) [(1::nat, 1::nat), (0, 2), (1, 3), (0, 4)] =
     [(0, 2), (0, 4), (1, 1), (1, 3)]"
  by (simp add: sortSlice_def)

lemma orderCandidates_set: "set (orderCandidates mode xs) = set xs"
  by (simp add: orderCandidates_def sortSlice_set)

lemma assignIndices_length: "length (assignIndices i es) = length es"
  by (induction es arbitrary: i) simp_all

lemma assignIndices_Index:
  "map Index (assignIndices i es) = map (\<lambda>k. i + 1 + int k) [0..<length es]"
proof (induction es arbitrary: i)
  case Nil
  show ?case by simp
next
  case (Cons e es)
  have "[0..<length (e # es)] = 0 # map Suc [0..<length es]"
    by (simp add: upt_conv_Cons map_Suc_upt del: upt_Suc)
  then show ?case by (simp add: Cons.IH comp_def add.assoc del: upt_Suc)
qed

lemma assignIndices_from_one: "map Index (assignIndices 0 es) = map int [1..<Suc (length es)]"
proof -
  have "map int [1..<Suc (length es)] = map (\<lambda>k. 1 + int k) [0..<length es]"
    by (simp add: map_Suc_upt [symmetric] comp_def del: upt_Suc)
  then show ?thesis by (simp add: assignIndices_Index)
qed

lemma assignIndices_NearbyLabel:
  "NearbyLabel ` set (assignIndices i es) = NearbyLabel ` set es"
  by (induction es arbitrary: i) simp_all

lemma elementFromCandidate_fresh:
  "elementFromCandidate node = Some e \<Longrightarrow> NearbyLabel e = [] \<and> 0 < rectW (Frame e) \<and> 0 < rectH (Frame e)"
  by (auto simp: elementFromCandidate_def Let_def split: option.splits if_splits)

lemma collectCandidates_fresh:
  "\<forall>e\<in>set acc. NearbyLabel e = [] \<Longrightarrow>
     \<forall>e\<in>set (fst (collectCandidates opts nodes (acc, a, b))). NearbyLabel e = []"
proof (induction nodes arbitrary: acc a b)
  case Nil
  then show ?case by simp
next
  case (Cons node nodes)
  show ?case
  proof (cases "elementFromCandidate node")
    case None
    with Cons show ?thesis by simp
  next
    case (Some elem)
    then have fresh: "NearbyLabel elem = []" by (simp add: elementFromCandidate_fresh)
    have ext: "\<forall>e\<in>set (acc @ [elem\<lparr>order := nodeOrder node\<rparr>]). NearbyLabel e = []"
      using Cons.prems fresh by simp
    show ?thesis
      using Some Cons.IH [OF Cons.prems] Cons.IH [OF ext]
      by (simp add: Let_def)
  qed
qed

lemma normalizeElements_indexed:
  "fst (normalizeElements rootRect nodes opts) = addNearbyLabels (indexedCandidates rootRect nodes opts)"
  by (simp add: normalizeElements_def indexedCandidates_def Let_def split: prod.splits)

lemma indexedCandidates_Index:
  "map Index (indexedCandidates rootRect nodes opts) =
     map int [1..<Suc (length (indexedCandidates rootRect nodes opts))]"
  using assignIndices_from_one assignIndices_length
  by (simp add: indexedCandidates_def Let_def)

lemma indexedCandidates_fresh:
  "e \<in> set (indexedCandidates rootRect nodes opts) \<Longrightarrow> NearbyLabel e = []"
proof -
  assume e: "e \<in> set (indexedCandidates rootRect nodes opts)"
  let ?cands = "fst (collectCandidates opts nodes ([], 0, 0))"
  have base: "\<forall>c\<in>set ?cands. NearbyLabel c = []"
    by (rule collectCandidates_fresh) simp
  have "NearbyLabel e \<in> NearbyLabel ` set (indexedCandidates rootRect nodes opts)"
    using e by blast
  then have "NearbyLabel e \<in> NearbyLabel ` set (map (applyVisibility (inferScreenRect rootRect ?cands)) ?cands)"
    by (simp add: indexedCandidates_def Let_def assignIndices_NearbyLabel orderCandidates_set)
  then show ?thesis
    using base by (auto simp: applyVisibility_def split: prod.splits)
qed

lemma threeElements_search: "nearbySearch threeElements 0 = (1, hypot (-30) (-40))"
  by (simp add: threeElements_def nearbySearch_def nearbyStep_def fixture_eval hypot_eval Let_def)

lemma threeElements_labels:
  "trimSpace (Label (threeElements ! 0)) = []"
  "trimSpace (Label (threeElements ! 1)) \<noteq> []"
  "trimSpace (Label (threeElements ! 2)) \<noteq> []"
  by (simp_all add: threeElements_def fixture_eval)

lemma threeElements_qualifies:
  "\<not> qualifies threeElements 0 0" "qualifies threeElements 0 1" "\<not> qualifies threeElements 0 2"
  by (simp_all add: qualifies_def threeElements_def centerDistance_def fixture_eval hypot_eval)

lemma sample_collect:
  "collectCandidates sampleOptions sampleNodes ([], 0, 0) = ([sampleButton, sampleField], 2, 2)"
  by (simp add: sampleNodes_def sampleOptions_def elementFromCandidate_def frameAt_def Let_def
      roleIn_def isInteractiveRole_def interactiveRoleHints_def stringsContains_def
      toLower_def toLowerRune_def trimSpace_def isSpace_def str_def sampleButton_def
      sampleField_def)

lemma sample_screen:
  "inferScreenRect None [sampleButton, sampleField] = frameAt 0 0 100 140"
proof -
  have "0 < maxFloat64" using maxFloat64_large by simp
  then show ?thesis
    using maxFloat64_large
    by (simp add: inferScreenRect_def boundingRect_def boundsStep_def sampleButton_def
        sampleField_def frameAt_def Let_def fadd64_int fsub64_int)
qed

lemma sample_indexed:
  "indexedCandidates None sampleNodes sampleOptions =
     [sampleField\<lparr>Index := 1\<rparr>, sampleButton\<lparr>Index := 2\<rparr>]"
proof -
  have vis: "map (applyVisibility (frameAt 0 0 100 140)) [sampleButton, sampleField] =
               [sampleButton, sampleField]"
    by (simp add: applyVisibility_def classifyVisibility_def frameAt_def sampleButton_def
        sampleField_def Let_def fadd64_int)
  have ord: "orderCandidates (str ''reading'') [sampleButton, sampleField] =
               [sampleField, sampleButton]"
    by (simp add: orderCandidates_def sortSlice_def readingLess_def sampleButton_def
        sampleField_def str_def)
  show ?thesis
    unfolding indexedCandidates_def sample_collect fst_conv Let_def sample_screen vis
    by (simp add: sampleOptions_def ord)
qed

text \<open>
  Claim C8. \<^verbatim>\<open>addNearbyLabels\<close> keeps the length of the list, the order and the \<^verbatim>\<open>Index\<close> of
  every element, and every field other than \<^verbatim>\<open>NearbyLabel\<close>. An element with a label, and an
  element for which no other element qualifies, is left as it is. An element with an empty
  label for which some element qualifies (another element, visible, with a label, its center
  at most 220 away) receives the label of a qualifying element at the least distance, the
  first such in list order. \<^verbatim>\<open>normalizeElements\<close> applies the function to the list that it has
  already indexed \<open>1..N\<close>, in which every \<^verbatim>\<open>NearbyLabel\<close> is still empty.
\<close>

theorem addNearbyLabels_frame:
  "length (addNearbyLabels elements) = length elements \<and>
   map Index (addNearbyLabels elements) = map Index elements \<and>
   (\<forall>i<length elements.
      addNearbyLabels elements ! i =
        (elements ! i)\<lparr>NearbyLabel := NearbyLabel (addNearbyLabels elements ! i)\<rparr> \<and>
      (trimSpace (Label (elements ! i)) \<noteq> [] \<longrightarrow> addNearbyLabels elements ! i = elements ! i) \<and>
      ((\<forall>j<length elements. \<not> qualifies elements i j) \<longrightarrow>
         addNearbyLabels elements ! i = elements ! i) \<and>
      (trimSpace (Label (elements ! i)) = [] \<and> (\<exists>j<length elements. qualifies elements i j) \<longrightarrow>
         (\<exists>j<length elements. qualifies elements i j \<and>
            (\<forall>k<length elements. qualifies elements i k \<longrightarrow>
               centerDistance (elements ! i) (elements ! j) \<le>
                 centerDistance (elements ! i) (elements ! k) \<and>
               (centerDistance (elements ! i) (elements ! k) =
                  centerDistance (elements ! i) (elements ! j) \<longrightarrow> j \<le> k)) \<and>
            NearbyLabel (addNearbyLabels elements ! i) = Label (elements ! j)))) \<and>
   fst (normalizeElements rootRect nodes opts) =
     addNearbyLabels (indexedCandidates rootRect nodes opts) \<and>
   map Index (indexedCandidates rootRect nodes opts) =
     map int [1..<Suc (length (indexedCandidates rootRect nodes opts))] \<and>
   (\<forall>e\<in>set (indexedCandidates rootRect nodes opts). NearbyLabel e = [])"
proof -
  have per: "addNearbyLabels elements ! i =
        (elements ! i)\<lparr>NearbyLabel := NearbyLabel (addNearbyLabels elements ! i)\<rparr> \<and>
      (trimSpace (Label (elements ! i)) \<noteq> [] \<longrightarrow> addNearbyLabels elements ! i = elements ! i) \<and>
      ((\<forall>j<length elements. \<not> qualifies elements i j) \<longrightarrow>
         addNearbyLabels elements ! i = elements ! i) \<and>
      (trimSpace (Label (elements ! i)) = [] \<and> (\<exists>j<length elements. qualifies elements i j) \<longrightarrow>
         (\<exists>j<length elements. qualifies elements i j \<and>
            (\<forall>k<length elements. qualifies elements i k \<longrightarrow>
               centerDistance (elements ! i) (elements ! j) \<le>
                 centerDistance (elements ! i) (elements ! k) \<and>
               (centerDistance (elements ! i) (elements ! k) =
                  centerDistance (elements ! i) (elements ! j) \<longrightarrow> j \<le> k)) \<and>
            NearbyLabel (addNearbyLabels elements ! i) = Label (elements ! j)))"
    if i: "i < length elements" for i
  proof (intro conjI impI)
    show "addNearbyLabels elements ! i =
        (elements ! i)\<lparr>NearbyLabel := NearbyLabel (addNearbyLabels elements ! i)\<rparr>"
      by (rule addNearbyLabels_fields [OF i])
    show "addNearbyLabels elements ! i = elements ! i"
      if "trimSpace (Label (elements ! i)) \<noteq> []"
      using updated_cases(1) [OF i that] by (simp add: addNearbyLabels_nth(2) [OF i])
    show "addNearbyLabels elements ! i = elements ! i"
      if "\<forall>j<length elements. \<not> qualifies elements i j"
      using updated_cases(2) [OF i that] by (simp add: addNearbyLabels_nth(2) [OF i])
    assume "trimSpace (Label (elements ! i)) = [] \<and> (\<exists>j<length elements. qualifies elements i j)"
    then have "\<exists>j<length elements. qualifies elements i j \<and>
             (\<forall>k<length elements. qualifies elements i k \<longrightarrow>
                centerDistance (elements ! i) (elements ! j) \<le> centerDistance (elements ! i) (elements ! k) \<and>
                (centerDistance (elements ! i) (elements ! k) = centerDistance (elements ! i) (elements ! j)
                   \<longrightarrow> j \<le> k)) \<and>
             updated elements i = (elements ! i)\<lparr>NearbyLabel := Label (elements ! j)\<rparr>"
      using updated_cases(3) [OF i] by blast
    then obtain j where j: "j < length elements" "qualifies elements i j"
      "\<forall>k<length elements. qualifies elements i k \<longrightarrow>
                centerDistance (elements ! i) (elements ! j) \<le> centerDistance (elements ! i) (elements ! k) \<and>
                (centerDistance (elements ! i) (elements ! k) = centerDistance (elements ! i) (elements ! j)
                   \<longrightarrow> j \<le> k)"
      "updated elements i = (elements ! i)\<lparr>NearbyLabel := Label (elements ! j)\<rparr>"
      by blast
    from j(4) have "NearbyLabel (addNearbyLabels elements ! i) = Label (elements ! j)"
      by (simp add: addNearbyLabels_nth(2) [OF i])
    with j(1-3) show "\<exists>j<length elements. qualifies elements i j \<and>
            (\<forall>k<length elements. qualifies elements i k \<longrightarrow>
               centerDistance (elements ! i) (elements ! j) \<le>
                 centerDistance (elements ! i) (elements ! k) \<and>
               (centerDistance (elements ! i) (elements ! k) =
                  centerDistance (elements ! i) (elements ! j) \<longrightarrow> j \<le> k)) \<and>
            NearbyLabel (addNearbyLabels elements ! i) = Label (elements ! j)"
      by blast
  qed
  show ?thesis
    using per addNearbyLabels_nth(1) [of elements] addNearbyLabels_Index [of elements]
      normalizeElements_indexed [of rootRect nodes opts]
      indexedCandidates_Index [of rootRect nodes opts]
      indexedCandidates_fresh [of _ rootRect nodes opts]
    by blast
qed

text \<open>
  The cases of C8 on three elements, the first without a label, and on the list that the
  normaliser builds from the small tree.
\<close>

theorem addNearbyLabels_frame_witness:
  "trimSpace (Label (threeElements ! 0)) = [] \<and> qualifies threeElements 0 1 \<and>
   \<not> qualifies threeElements 0 2 \<and>
   NearbyLabel (addNearbyLabels threeElements ! 0) = str ''Name'' \<and>
   trimSpace (Label (threeElements ! 1)) \<noteq> [] \<and>
   addNearbyLabels threeElements ! 1 = threeElements ! 1 \<and>
   length (addNearbyLabels threeElements) = 3 \<and>
   map Index (addNearbyLabels threeElements) = [1, 2, 3] \<and>
   sampleField\<lparr>Index := 1\<rparr> \<in> set (indexedCandidates None sampleNodes sampleOptions) \<and>
   NearbyLabel (sampleField\<lparr>Index := 1\<rparr>) = []"
proof -
  have len: "length threeElements = 3" by (simp add: threeElements_def)
  note frame = addNearbyLabels_frame [of threeElements None sampleNodes sampleOptions]
  note per = frame [THEN conjunct2, THEN conjunct2, THEN conjunct1, rule_format]
  have i0: "0 < length threeElements" and i1: "1 < length threeElements"
    by (simp_all add: len)
  from frame have length: "length (addNearbyLabels threeElements) = 3"
    and index: "map Index (addNearbyLabels threeElements) = map Index threeElements"
    by (simp_all add: len)
  have "\<exists>j<length threeElements. qualifies threeElements 0 j"
    using threeElements_qualifies(2) i1 by blast
  with per [OF i0] threeElements_labels(1)
  obtain j where j: "j < length threeElements" "qualifies threeElements 0 j"
    "NearbyLabel (addNearbyLabels threeElements ! 0) = Label (threeElements ! j)"
    by blast
  from j(1) have "j = 0 \<or> j = 1 \<or> j = 2" by (auto simp: len)
  with j(2) threeElements_qualifies have "j = 1" by auto
  with j(3) have name: "NearbyLabel (addNearbyLabels threeElements ! 0) = str ''Name''"
    by (simp add: threeElements_def sampleElement_def)
  from per [OF i1] threeElements_labels(2)
  have one: "addNearbyLabels threeElements ! 1 = threeElements ! 1" by blast
  have idx: "map Index threeElements = [1, 2, 3]"
    by (simp add: threeElements_def sampleElement_def)
  have mem: "sampleField\<lparr>Index := 1\<rparr> \<in> set (indexedCandidates None sampleNodes sampleOptions)"
    by (simp add: sample_indexed)
  with frame have fresh: "NearbyLabel (sampleField\<lparr>Index := 1\<rparr>) = []" by blast
  from index length name one threeElements_labels threeElements_qualifies idx mem fresh
  show ?thesis by simp
qed

subsection \<open>Index assignment\<close>

text \<open>
  Claim C5. For every root rectangle, every list of candidate nodes and every option set, the
  \<^verbatim>\<open>Index\<close> values of the elements that \<^verbatim>\<open>normalizeElements\<close> returns are \<open>1, 2, ..., N\<close> in list
  order.
\<close>

theorem normalizeElements_dense_index:
  "map Index (fst (normalizeElements rootRect nodes opts)) =
     map int [1..<Suc (length (fst (normalizeElements rootRect nodes opts)))]"
  by (simp add: normalizeElements_indexed addNearbyLabels_Index addNearbyLabels_nth(1)
      indexedCandidates_Index)

text \<open>The indices of C5 on the small tree, in reading order.\<close>

theorem normalizeElements_dense_index_witness:
  "map Index (fst (normalizeElements None sampleNodes sampleOptions)) = [1, 2]"
proof -
  have "length (fst (normalizeElements None sampleNodes sampleOptions)) = 2"
    by (simp add: normalizeElements_indexed addNearbyLabels_nth(1) sample_indexed)
  with normalizeElements_dense_index [of None sampleNodes sampleOptions]
  show ?thesis by (simp add: upt_conv_Cons)
qed

subsection \<open>Visibility classification\<close>

text \<open>
  \<^verbatim>\<open>inferScreenRect\<close> returns the rectangle of the root when that has positive width and
  height, and \<^verbatim>\<open>normalizeElements\<close> classifies each frame against what \<^verbatim>\<open>inferScreenRect\<close>
  returns: for the tree of one button and the default options, the element that comes out
  carries the classification of its frame against the root's rectangle.
\<close>

lemma inferScreenRect_root:
  "0 < rectW screen \<Longrightarrow> 0 < rectH screen \<Longrightarrow> inferScreenRect (Some screen) elements = screen"
  by (simp add: inferScreenRect_def)

lemma addNearbyLabels_visibility: "visibilityOf (addNearbyLabels elements) = visibilityOf elements"
  unfolding visibilityOf_def
proof (rule nth_equalityI)
  show "length (map (\<lambda>e. (Visible e, Offscreen e)) (addNearbyLabels elements)) =
        length (map (\<lambda>e. (Visible e, Offscreen e)) elements)"
    by (simp add: addNearbyLabels_nth(1))
next
  fix i assume "i < length (map (\<lambda>e. (Visible e, Offscreen e)) (addNearbyLabels elements))"
  then have i: "i < length elements" by (simp add: addNearbyLabels_nth(1))
  have "Visible (addNearbyLabels elements ! i) = Visible (elements ! i)"
    using arg_cong [OF addNearbyLabels_fields [OF i], of Visible] by simp
  moreover have "Offscreen (addNearbyLabels elements ! i) = Offscreen (elements ! i)"
    using arg_cong [OF addNearbyLabels_fields [OF i], of Offscreen] by simp
  ultimately show "map (\<lambda>e. (Visible e, Offscreen e)) (addNearbyLabels elements) ! i =
                   map (\<lambda>e. (Visible e, Offscreen e)) elements ! i"
    using i by (simp add: addNearbyLabels_nth(1))
qed

lemma nodeAt_collect:
  assumes "0 < rectW rect" "0 < rectH rect"
  shows "\<exists>e. fst (collectCandidates sampleOptions [nodeAt rect] ([], 0, 0)) = [e] \<and> Frame e = rect"
proof -
  have "0 \<le> rectW rect * rectH rect" using assms by simp
  then have area: "\<not> rectW rect * rectH rect < 0" by simp
  show ?thesis
    using assms area
    by (simp add: nodeAt_def sampleOptions_def elementFromCandidate_def Let_def roleIn_def)
qed

lemma normalizeElements_single:
  assumes "0 < rectW rect" "0 < rectH rect" "0 < rectW screen" "0 < rectH screen"
  shows "visibilityOf (fst (normalizeElements (Some screen) [nodeAt rect] sampleOptions)) =
           [classifyVisibility rect screen]"
proof -
  from nodeAt_collect [OF assms(1,2)] obtain e
    where e: "fst (collectCandidates sampleOptions [nodeAt rect] ([], 0, 0)) = [e]" "Frame e = rect"
    by blast
  have ord: "orderCandidates (Order sampleOptions) [applyVisibility screen e] =
               [applyVisibility screen e]"
    by (simp add: orderCandidates_def sortSlice_def)
  have "indexedCandidates (Some screen) [nodeAt rect] sampleOptions =
               [(applyVisibility screen e)\<lparr>Index := 1\<rparr>]"
    unfolding indexedCandidates_def Let_def e(1) inferScreenRect_root [OF assms(3,4)]
    by (simp add: ord)
  then have "visibilityOf (fst (normalizeElements (Some screen) [nodeAt rect] sampleOptions)) =
               visibilityOf [(applyVisibility screen e)\<lparr>Index := 1\<rparr>]"
    by (simp add: normalizeElements_indexed addNearbyLabels_visibility)
  then show ?thesis
    by (simp add: visibilityOf_def applyVisibility_def e(2) split: prod.splits)
qed

text \<open>The computed edges of the frames and screens of the examples.\<close>

lemma screen100_edges:
  "rightEdge screen100 = 100" "bottomEdge screen100 = 100"
  "rightEdge (frameAt 10 10 20 20) = 30" "bottomEdge (frameAt 10 10 20 20) = 30"
  "rightEdge (frameAt (- 5) 10 20 20) = 15" "bottomEdge (frameAt (- 5) 10 20 20) = 30"
  "rightEdge (frameAt 120 10 20 20) = 140" "bottomEdge (frameAt 120 10 20 20) = 30"
  by (simp_all add: rightEdge_def bottomEdge_def screen100_def frameAt_def round64_int)

lemma rounded_edges:
  "rightEdge straddlingFrame = 3152519739159347 / 2 ^ 52" "bottomEdge straddlingFrame = 30"
  "rightEdge narrowScreen = 3152519739159347 / 2 ^ 52" "bottomEdge narrowScreen = 100"
  "rightEdge farFrame = 100000000000000000" "bottomEdge farFrame = 50"
  "rightEdge wideScreen = 200000000000000000" "bottomEdge wideScreen = 100"
  by (simp_all add: rightEdge_def bottomEdge_def straddlingFrame_def narrowScreen_def
      farFrame_def wideScreen_def frameAt_def round64_sevenTenths round64_far round64_int)

lemma rounded_frames:
  "rectX straddlingFrame = fifth64" "rectY straddlingFrame = 10"
  "rectW straddlingFrame = 1 / 2" "rectH straddlingFrame = 20"
  "rectX narrowScreen = tenth64" "rectY narrowScreen = 0"
  "rectW narrowScreen = sixTenths64" "rectH narrowScreen = 100"
  "rectX farFrame = 100000000000000000" "rectY farFrame = 0"
  "rectW farFrame = 1" "rectH farFrame = 50"
  "rectX wideScreen = 0" "rectY wideScreen = 0"
  "rectW wideScreen = 200000000000000000" "rectH wideScreen = 100"
  by (simp_all add: straddlingFrame_def narrowScreen_def farFrame_def wideScreen_def frameAt_def)

lemma rounded_classification:
  "classifyVisibility straddlingFrame narrowScreen = (True, False)"
  "classifyVisibility farFrame wideScreen = (False, True)"
proof -
  have pos: "0 < rectW straddlingFrame" "0 < rectH straddlingFrame"
    "0 < rectW narrowScreen" "0 < rectH narrowScreen"
    "0 < rectW farFrame" "0 < rectH farFrame" "0 < rectW wideScreen" "0 < rectH wideScreen"
    by (simp_all add: rounded_frames sixTenths64_def)
  show "classifyVisibility straddlingFrame narrowScreen = (True, False)"
    unfolding classifyVisibility_edges [OF pos(1-4)]
    by (simp add: hasExtent_def apartEdges_def insideEdges_def rounded_edges rounded_frames
        fifth64_def tenth64_def)
  show "classifyVisibility farFrame wideScreen = (False, True)"
    unfolding classifyVisibility_edges [OF pos(5-8)]
    by (simp add: hasExtent_def rounded_edges rounded_frames)
qed

text \<open>
  Claim C4, as stated, at two frames whose classification the rounding of the sums decides.
  The first frame lies within the screen \<^verbatim>\<open>{0.1, 0, 0.6, 100}\<close> except that its right edge,
  \<^verbatim>\<open>0.2 + 0.5\<close>, is beyond the right edge of the screen, \<^verbatim>\<open>0.1 + 0.6\<close>, as real numbers: it
  intersects the screen and extends beyond a boundary, and it is classified visible and not
  offscreen. The second frame is fully inside the screen \<^verbatim>\<open>{0, 0, 2e17, 100}\<close>, and it is
  classified not visible and offscreen. Both screens are root rectangles that
  \<^verbatim>\<open>inferScreenRect\<close> returns, and \<^verbatim>\<open>normalizeElements\<close> reports these classifications.
\<close>

theorem classifyVisibility_rounding_counterexample:
  "0 < rectW straddlingFrame \<and> 0 < rectH straddlingFrame \<and>
   \<not> noIntersection straddlingFrame narrowScreen \<and>
   \<not> fullyInside straddlingFrame narrowScreen \<and>
   rectX narrowScreen + rectW narrowScreen < rectX straddlingFrame + rectW straddlingFrame \<and>
   inferScreenRect (Some narrowScreen)
     (fst (collectCandidates sampleOptions [nodeAt straddlingFrame] ([], 0, 0))) = narrowScreen \<and>
   classifyVisibility straddlingFrame narrowScreen = (True, False) \<and>
   visibilityOf (fst (normalizeElements (Some narrowScreen) [nodeAt straddlingFrame] sampleOptions)) =
     [(True, False)] \<and>
   0 < rectW farFrame \<and> 0 < rectH farFrame \<and>
   fullyInside farFrame wideScreen \<and>
   inferScreenRect (Some wideScreen)
     (fst (collectCandidates sampleOptions [nodeAt farFrame] ([], 0, 0))) = wideScreen \<and>
   classifyVisibility farFrame wideScreen = (False, True) \<and>
   visibilityOf (fst (normalizeElements (Some wideScreen) [nodeAt farFrame] sampleOptions)) =
     [(False, True)]"
proof -
  have pos: "0 < rectW straddlingFrame" "0 < rectH straddlingFrame"
    "0 < rectW narrowScreen" "0 < rectH narrowScreen"
    "0 < rectW farFrame" "0 < rectH farFrame" "0 < rectW wideScreen" "0 < rectH wideScreen"
    by (simp_all add: rounded_frames sixTenths64_def)
  have beyond: "rectX narrowScreen + rectW narrowScreen < rectX straddlingFrame + rectW straddlingFrame"
    by (simp add: rounded_frames fifth64_def tenth64_def sixTenths64_def)
  have apart: "\<not> noIntersection straddlingFrame narrowScreen"
    by (simp add: noIntersection_def rounded_frames fifth64_def tenth64_def sixTenths64_def)
  have inside: "\<not> fullyInside straddlingFrame narrowScreen"
    using beyond by (simp add: fullyInside_def)
  have far: "fullyInside farFrame wideScreen"
    by (simp add: fullyInside_def rounded_frames)
  have a: "visibilityOf (fst (normalizeElements (Some narrowScreen) [nodeAt straddlingFrame]
             sampleOptions)) = [(True, False)]"
    by (simp add: normalizeElements_single [OF pos(1-4)] rounded_classification)
  have b: "visibilityOf (fst (normalizeElements (Some wideScreen) [nodeAt farFrame]
             sampleOptions)) = [(False, True)]"
    by (simp add: normalizeElements_single [OF pos(5-8)] rounded_classification)
  from pos beyond apart inside far a b rounded_classification
    inferScreenRect_root [OF pos(3,4)] inferScreenRect_root [OF pos(7,8)]
  show ?thesis by (intro conjI)
qed

text \<open>
  Claim C4, amended. \<^verbatim>\<open>classifyVisibility\<close> compares the edges of the frame and of the screen
  as it computes them: the left and the top edge are \<^verbatim>\<open>X\<close> and \<^verbatim>\<open>Y\<close>, the right and the bottom
  edge are the sums \<^verbatim>\<open>X + W\<close> and \<^verbatim>\<open>Y + H\<close> rounded to \<^verbatim>\<open>float64\<close>. A frame whose width or
  height is not positive (zero area included) is classified \<open>(False, True)\<close> for every screen.
  For a frame and a screen rectangle of positive width and height, the classification is
  \<open>(True, False)\<close> when both have extent in their computed edges and the frame's edges are
  within the screen's, \<open>(True, True)\<close> when both have extent and the edges overlap without the
  frame's being within the screen's, and \<open>(False, True)\<close> when the computed edges do not
  overlap or the rounding leaves the frame or the screen without extent. Where the sums
  of both rectangles need no rounding, this is the classification of the claim: \<open>(True, False)\<close>
  for a frame fully inside the screen, \<open>(True, True)\<close> for a frame that intersects the screen
  and extends beyond it, \<open>(False, True)\<close> for a frame that has no intersection with the screen.
  When the screen rectangle has no positive width or height, every frame of positive width
  and height is classified \<open>(True, False)\<close>.
\<close>

theorem classifyVisibility_spec:
  "(rectW rect * rectH rect = 0 \<longrightarrow> classifyVisibility rect screen = (False, True)) \<and>
   (rectW rect \<le> 0 \<or> rectH rect \<le> 0 \<longrightarrow> classifyVisibility rect screen = (False, True)) \<and>
   (0 < rectW rect \<and> 0 < rectH rect \<and> 0 < rectW screen \<and> 0 < rectH screen \<longrightarrow>
      (hasExtent rect \<and> hasExtent screen \<and> insideEdges rect screen \<longrightarrow>
         classifyVisibility rect screen = (True, False)) \<and>
      (hasExtent rect \<and> hasExtent screen \<and> \<not> insideEdges rect screen \<and>
       \<not> apartEdges rect screen \<longrightarrow>
         classifyVisibility rect screen = (True, True)) \<and>
      (\<not> hasExtent rect \<or> \<not> hasExtent screen \<or> apartEdges rect screen \<longrightarrow>
         classifyVisibility rect screen = (False, True))) \<and>
   (0 < rectW rect \<and> 0 < rectH rect \<and> 0 < rectW screen \<and> 0 < rectH screen \<and>
    edgesExact rect \<and> edgesExact screen \<longrightarrow>
      (fullyInside rect screen \<longrightarrow> classifyVisibility rect screen = (True, False)) \<and>
      (\<not> fullyInside rect screen \<and> \<not> noIntersection rect screen \<longrightarrow>
         classifyVisibility rect screen = (True, True)) \<and>
      (noIntersection rect screen \<longrightarrow> classifyVisibility rect screen = (False, True))) \<and>
   (0 < rectW rect \<and> 0 < rectH rect \<and> (rectW screen \<le> 0 \<or> rectH screen \<le> 0) \<longrightarrow>
      classifyVisibility rect screen = (True, False))"
proof -
  have zero: "classifyVisibility rect screen = (False, True)"
    if "rectW rect \<le> 0 \<or> rectH rect \<le> 0"
    using that by (simp add: classifyVisibility_def)
  have area: "rectW rect \<le> 0 \<or> rectH rect \<le> 0" if "rectW rect * rectH rect = 0"
    using that by auto
  have within: "classifyVisibility rect screen = (True, False)"
    if "0 < rectW rect" "0 < rectH rect" "0 < rectW screen" "0 < rectH screen"
      "hasExtent rect" "hasExtent screen" "insideEdges rect screen"
  proof -
    have "\<not> apartEdges rect screen"
      using that(5-7) by (auto simp: hasExtent_def insideEdges_def apartEdges_def)
    with that show ?thesis by (simp add: classifyVisibility_edges)
  qed
  have overlap: "classifyVisibility rect screen = (True, True)"
    if "0 < rectW rect" "0 < rectH rect" "0 < rectW screen" "0 < rectH screen"
      "hasExtent rect" "hasExtent screen" "\<not> insideEdges rect screen" "\<not> apartEdges rect screen"
    using that by (simp add: classifyVisibility_edges)
  have apart: "classifyVisibility rect screen = (False, True)"
    if "0 < rectW rect" "0 < rectH rect" "0 < rectW screen" "0 < rectH screen"
      "\<not> hasExtent rect \<or> \<not> hasExtent screen \<or> apartEdges rect screen"
    using that by (simp add: classifyVisibility_edges)
  have exact: "(fullyInside rect screen \<longrightarrow> classifyVisibility rect screen = (True, False)) \<and>
      (\<not> fullyInside rect screen \<and> \<not> noIntersection rect screen \<longrightarrow>
         classifyVisibility rect screen = (True, True)) \<and>
      (noIntersection rect screen \<longrightarrow> classifyVisibility rect screen = (False, True))"
    if pos: "0 < rectW rect" "0 < rectH rect" "0 < rectW screen" "0 < rectH screen"
      and ex: "edgesExact rect" "edgesExact screen"
  proof -
    note edges = exact_edges(1,2) [OF ex]
    have ext: "hasExtent rect" "hasExtent screen"
      using exact_edges(3) [OF ex pos(1,2)] exact_edges(4) [OF ex pos(3,4)] by simp_all
    have "\<not> noIntersection rect screen" if "fullyInside rect screen"
      using that pos by (auto simp: fullyInside_def noIntersection_def)
    then show ?thesis
      using pos ext by (auto simp: classifyVisibility_edges edges)
  qed
  have noscreen: "classifyVisibility rect screen = (True, False)"
    if "0 < rectW rect" "0 < rectH rect" "rectW screen \<le> 0 \<or> rectH screen \<le> 0"
    using that by (auto simp: classifyVisibility_def)
  show ?thesis
    using zero area within overlap apart exact noscreen by blast
qed

text \<open>
  The cases of the amended C4: the three frames of the repository's test, which need no
  rounding; the two frames whose classification the rounding decides; a frame without width;
  and an empty screen.
\<close>

theorem classifyVisibility_spec_witness:
  "edgesExact screen100 \<and> edgesExact (frameAt 10 10 20 20) \<and>
   edgesExact (frameAt (- 5) 10 20 20) \<and> edgesExact (frameAt 120 10 20 20) \<and>
   fullyInside (frameAt 10 10 20 20) screen100 \<and>
   classifyVisibility (frameAt 10 10 20 20) screen100 = (True, False) \<and>
   \<not> fullyInside (frameAt (- 5) 10 20 20) screen100 \<and>
   \<not> noIntersection (frameAt (- 5) 10 20 20) screen100 \<and>
   classifyVisibility (frameAt (- 5) 10 20 20) screen100 = (True, True) \<and>
   noIntersection (frameAt 120 10 20 20) screen100 \<and>
   classifyVisibility (frameAt 120 10 20 20) screen100 = (False, True) \<and>
   hasExtent straddlingFrame \<and> hasExtent narrowScreen \<and>
   insideEdges straddlingFrame narrowScreen \<and>
   classifyVisibility straddlingFrame narrowScreen = (True, False) \<and>
   \<not> hasExtent farFrame \<and>
   classifyVisibility farFrame wideScreen = (False, True) \<and>
   hasExtent (frameAt (- 5) 10 20 20) \<and> hasExtent screen100 \<and>
   \<not> insideEdges (frameAt (- 5) 10 20 20) screen100 \<and>
   \<not> apartEdges (frameAt (- 5) 10 20 20) screen100 \<and>
   classifyVisibility (frameAt 10 10 0 20) screen100 = (False, True) \<and>
   classifyVisibility (frameAt 10 10 20 20) zeroRect = (True, False)"
proof -
  have exact: "edgesExact screen100" "edgesExact (frameAt 10 10 20 20)"
    "edgesExact (frameAt (- 5) 10 20 20)" "edgesExact (frameAt 120 10 20 20)"
    by (simp_all add: edgesExact_def screen100_edges) (simp_all add: screen100_def frameAt_def)
  have geometry: "fullyInside (frameAt 10 10 20 20) screen100"
    "\<not> fullyInside (frameAt (- 5) 10 20 20) screen100"
    "\<not> noIntersection (frameAt (- 5) 10 20 20) screen100"
    "noIntersection (frameAt 120 10 20 20) screen100"
    by (simp_all add: fullyInside_def noIntersection_def screen100_def frameAt_def)
  have computed: "hasExtent straddlingFrame" "hasExtent narrowScreen"
    "insideEdges straddlingFrame narrowScreen" "\<not> hasExtent farFrame"
    "hasExtent (frameAt (- 5) 10 20 20)" "hasExtent screen100"
    "\<not> insideEdges (frameAt (- 5) 10 20 20) screen100"
    "\<not> apartEdges (frameAt (- 5) 10 20 20) screen100"
    by (simp_all add: hasExtent_def insideEdges_def apartEdges_def rounded_edges rounded_frames
        screen100_edges fifth64_def tenth64_def)
      (simp_all add: screen100_def frameAt_def)
  have pos: "0 < rectW (frameAt 10 10 20 20) \<and> 0 < rectH (frameAt 10 10 20 20)"
    "0 < rectW (frameAt (- 5) 10 20 20) \<and> 0 < rectH (frameAt (- 5) 10 20 20)"
    "0 < rectW (frameAt 120 10 20 20) \<and> 0 < rectH (frameAt 120 10 20 20)"
    "0 < rectW screen100 \<and> 0 < rectH screen100"
    "0 < rectW straddlingFrame \<and> 0 < rectH straddlingFrame"
    "0 < rectW narrowScreen \<and> 0 < rectH narrowScreen"
    "0 < rectW farFrame \<and> 0 < rectH farFrame"
    "0 < rectW wideScreen \<and> 0 < rectH wideScreen"
    "rectW (frameAt 10 10 0 20) \<le> 0" "rectW zeroRect \<le> 0"
    by (simp_all add: rounded_frames sixTenths64_def) (simp_all add: screen100_def frameAt_def zeroRect_def)
  have a: "classifyVisibility (frameAt 10 10 20 20) screen100 = (True, False)"
    using classifyVisibility_spec [of "frameAt 10 10 20 20" screen100] pos exact geometry by blast
  have b: "classifyVisibility (frameAt (- 5) 10 20 20) screen100 = (True, True)"
    using classifyVisibility_spec [of "frameAt (- 5) 10 20 20" screen100] pos exact geometry by blast
  have c: "classifyVisibility (frameAt 120 10 20 20) screen100 = (False, True)"
    using classifyVisibility_spec [of "frameAt 120 10 20 20" screen100] pos exact geometry by blast
  have d: "classifyVisibility straddlingFrame narrowScreen = (True, False)"
    using classifyVisibility_spec [of straddlingFrame narrowScreen] pos computed by blast
  have e: "classifyVisibility farFrame wideScreen = (False, True)"
    using classifyVisibility_spec [of farFrame wideScreen] pos computed by blast
  have f: "classifyVisibility (frameAt 10 10 0 20) screen100 = (False, True)"
    using classifyVisibility_spec [of "frameAt 10 10 0 20" screen100] pos by blast
  have g: "classifyVisibility (frameAt 10 10 20 20) zeroRect = (True, False)"
    using classifyVisibility_spec [of "frameAt 10 10 20 20" zeroRect] pos by blast
  from exact geometry computed a b c d e f g show ?thesis by (intro conjI)
qed

subsection \<open>Stability sampling\<close>

lemma allEqualTo_iff: "allEqualTo base vs \<longleftrightarrow> (\<forall>v\<in>set vs. v = base)"
  by (induction vs) simp_all

lemma allStringsEqual_iff: "allStringsEqual vs \<longleftrightarrow> (\<forall>x\<in>set vs. \<forall>y\<in>set vs. x = y)"
proof (cases vs)
  case Nil
  then show ?thesis by (simp add: allStringsEqual_def)
next
  case (Cons v rest)
  have "allStringsEqual vs \<longleftrightarrow> (\<forall>x\<in>set rest. x = v)"
    unfolding Cons by (cases rest) (simp_all add: allStringsEqual_def allEqualTo_iff)
  also have "\<dots> \<longleftrightarrow> (\<forall>x\<in>set vs. \<forall>y\<in>set vs. x = y)"
  proof
    assume all: "\<forall>x\<in>set rest. x = v"
    have "x = v" if "x \<in> set vs" for x
      using that all unfolding Cons by (cases "x = v") simp_all
    then show "\<forall>x\<in>set vs. \<forall>y\<in>set vs. x = y" by metis
  next
    assume "\<forall>x\<in>set vs. \<forall>y\<in>set vs. x = y"
    moreover have "v \<in> set vs" by (simp add: Cons)
    moreover have "set rest \<subseteq> set vs" by (auto simp: Cons)
    ultimately show "\<forall>x\<in>set rest. x = v" by blast
  qed
  finally show ?thesis .
qed

lemma sampleLoop_all:
  "\<forall>i\<in>set rounds. capture i = Inr (sample i) \<Longrightarrow>
     sampleLoop capture rounds samples hashes =
       Inr (samples @ map sample rounds, hashes @ map (\<lambda>i. Hash (sample i)) rounds)"
  by (induction rounds arbitrary: samples hashes) simp_all

text \<open>
  Claim C6. \<^verbatim>\<open>allStringsEqual\<close> is true exactly when all elements of the list are equal, and
  true for every list of length at most one. When each of the \<open>N\<close> captures of
  \<^verbatim>\<open>captureStableUISamples\<close> succeeds, the function returns the samples exactly when all \<open>N\<close>
  hashes are equal; otherwise it returns the error \<^verbatim>\<open>FRAME_UNSTABLE\<close> whose details are the
  list of hashes, the sample count and the interval. This holds for every \<open>N\<close>; the
  caller has rejected \<open>N < 2\<close> before.
\<close>

theorem stable_sampling:
  "(allStringsEqual vs \<longleftrightarrow> (\<forall>x\<in>set vs. \<forall>y\<in>set vs. x = y)) \<and>
   (length vs \<le> 1 \<longrightarrow> allStringsEqual vs) \<and>
   ((\<forall>i<nat (StableSamples opts). capture i = Inr (sample i)) \<longrightarrow>
      ((\<exists>samples. captureStableUISamples capture opts = Inr samples) \<longleftrightarrow>
         (\<forall>i<nat (StableSamples opts). \<forall>j<nat (StableSamples opts).
            Hash (sample i) = Hash (sample j))) \<and>
      ((\<forall>i<nat (StableSamples opts). \<forall>j<nat (StableSamples opts).
            Hash (sample i) = Hash (sample j)) \<longrightarrow>
         captureStableUISamples capture opts = Inr (map sample [0..<nat (StableSamples opts)])) \<and>
      (\<not> (\<forall>i<nat (StableSamples opts). \<forall>j<nat (StableSamples opts).
            Hash (sample i) = Hash (sample j)) \<longrightarrow>
         captureStableUISamples capture opts =
           Inl (frameUnstable (map (\<lambda>i. Hash (sample i)) [0..<nat (StableSamples opts)]) opts)))"
proof -
  define same where "same \<longleftrightarrow> (\<forall>i<nat (StableSamples opts). \<forall>j<nat (StableSamples opts).
                 Hash (sample i) = Hash (sample j))"
  let ?rounds = "[0..<nat (StableSamples opts)]"
  have short: "allStringsEqual vs" if "length vs \<le> 1"
    using that by (simp add: allStringsEqual_def)
  have run: "captureStableUISamples capture opts =
       (if same then Inr (map sample ?rounds)
        else Inl (frameUnstable (map (\<lambda>i. Hash (sample i)) ?rounds) opts))"
    if ok: "\<forall>i<nat (StableSamples opts). capture i = Inr (sample i)"
  proof -
    have "\<forall>i\<in>set ?rounds. capture i = Inr (sample i)" using ok by simp
    from sampleLoop_all [OF this, of "[]" "[]"]
    have loop: "sampleLoop capture ?rounds [] [] =
                  Inr (map sample ?rounds, map (\<lambda>i. Hash (sample i)) ?rounds)"
      by simp
    have set_rounds: "set (map (\<lambda>i. Hash (sample i)) ?rounds) =
                        (\<lambda>i. Hash (sample i)) ` {..<nat (StableSamples opts)}"
      by (simp add: atLeast0LessThan)
    have eq: "allStringsEqual (map (\<lambda>i. Hash (sample i)) ?rounds) \<longleftrightarrow> same"
      unfolding allStringsEqual_iff set_rounds same_def by blast
    show ?thesis
      unfolding captureStableUISamples_def loop frameUnstable_def by (simp add: eq)
  qed
  have third: "((\<exists>samples. captureStableUISamples capture opts = Inr samples) \<longleftrightarrow> same) \<and>
      (same \<longrightarrow> captureStableUISamples capture opts = Inr (map sample ?rounds)) \<and>
      (\<not> same \<longrightarrow>
         captureStableUISamples capture opts =
           Inl (frameUnstable (map (\<lambda>i. Hash (sample i)) ?rounds) opts))"
    if ok: "\<forall>i<nat (StableSamples opts). capture i = Inr (sample i)"
    unfolding run [OF ok] by simp
  have first: "allStringsEqual vs \<longleftrightarrow> (\<forall>x\<in>set vs. \<forall>y\<in>set vs. x = y)"
    by (rule allStringsEqual_iff)
  have second: "length vs \<le> 1 \<longrightarrow> allStringsEqual vs"
    using short by (rule impI)
  have "(\<forall>i<nat (StableSamples opts). capture i = Inr (sample i)) \<longrightarrow>
      ((\<exists>samples. captureStableUISamples capture opts = Inr samples) \<longleftrightarrow> same) \<and>
      (same \<longrightarrow> captureStableUISamples capture opts = Inr (map sample ?rounds)) \<and>
      (\<not> same \<longrightarrow>
         captureStableUISamples capture opts =
           Inl (frameUnstable (map (\<lambda>i. Hash (sample i)) ?rounds) opts))"
    using third by (rule impI)
  then have last: "(\<forall>i<nat (StableSamples opts). capture i = Inr (sample i)) \<longrightarrow>
      ((\<exists>samples. captureStableUISamples capture opts = Inr samples) \<longleftrightarrow>
         (\<forall>i<nat (StableSamples opts). \<forall>j<nat (StableSamples opts).
            Hash (sample i) = Hash (sample j))) \<and>
      ((\<forall>i<nat (StableSamples opts). \<forall>j<nat (StableSamples opts).
            Hash (sample i) = Hash (sample j)) \<longrightarrow>
         captureStableUISamples capture opts = Inr (map sample [0..<nat (StableSamples opts)])) \<and>
      (\<not> (\<forall>i<nat (StableSamples opts). \<forall>j<nat (StableSamples opts).
            Hash (sample i) = Hash (sample j)) \<longrightarrow>
         captureStableUISamples capture opts =
           Inl (frameUnstable (map (\<lambda>i. Hash (sample i)) [0..<nat (StableSamples opts)]) opts))"
    unfolding same_def .
  show ?thesis
    by (rule conjI [OF first conjI [OF second last]])
qed

text \<open>C6 at three equal hashes and at three hashes of which one differs.\<close>

theorem stable_sampling_witness:
  "allStringsEqual [str ''aa'', str ''aa'', str ''aa''] \<and>
   \<not> allStringsEqual [str ''aa'', str ''bb''] \<and>
   captureStableUISamples (captureOf [str ''aa'', str ''aa'', str ''aa'']) sampleOptions =
     Inr [sampleWithHash (str ''aa''), sampleWithHash (str ''aa''), sampleWithHash (str ''aa'')] \<and>
   captureStableUISamples (captureOf [str ''aa'', str ''bb'', str ''aa'']) sampleOptions =
     Inl (frameUnstable [str ''aa'', str ''bb'', str ''aa''] sampleOptions) \<and>
   Details (frameUnstable [str ''aa'', str ''bb'', str ''aa''] sampleOptions) =
     [(str ''hashes'', DStrings [str ''aa'', str ''bb'', str ''aa'']),
      (str ''samples'', DInt 3), (str ''interval'', DDuration 200000000)]"
proof -
  let ?A = "[str ''aa'', str ''aa'', str ''aa'']" and ?B = "[str ''aa'', str ''bb'', str ''aa'']"
  have n: "nat (StableSamples sampleOptions) = 3" by (simp add: sampleOptions_def)
  have upt: "[0..<3] = [0, 1, 2]" by (simp add: upt_conv_Cons)
  have lt3: "(\<forall>i<3. P i) \<longleftrightarrow> P 0 \<and> P 1 \<and> P (2::nat)" for P
    by (auto simp: less_Suc_eq numeral_3_eq_3 numeral_2_eq_2)
  have okA: "\<forall>i<nat (StableSamples sampleOptions). captureOf ?A i = Inr (sampleWithHash (?A ! i))"
    and okB: "\<forall>i<nat (StableSamples sampleOptions). captureOf ?B i = Inr (sampleWithHash (?B ! i))"
    by (simp_all add: captureOf_def)
  have sameA: "\<forall>i<nat (StableSamples sampleOptions). \<forall>j<nat (StableSamples sampleOptions).
                 Hash (sampleWithHash (?A ! i)) = Hash (sampleWithHash (?A ! j))"
    unfolding n lt3 by (simp add: sampleWithHash_def)
  have diffB: "\<not> (\<forall>i<nat (StableSamples sampleOptions). \<forall>j<nat (StableSamples sampleOptions).
                 Hash (sampleWithHash (?B ! i)) = Hash (sampleWithHash (?B ! j)))"
    unfolding n lt3 by (simp add: sampleWithHash_def str_def)
  note a = stable_sampling [of ?A sampleOptions "captureOf ?A" "\<lambda>i. sampleWithHash (?A ! i)"]
  note b = stable_sampling [of "[str ''aa'', str ''bb'']" sampleOptions "captureOf ?B"
      "\<lambda>i. sampleWithHash (?B ! i)"]
  have "\<forall>x\<in>set ?A. \<forall>y\<in>set ?A. x = y" by simp
  then have eqA: "allStringsEqual ?A" by (rule a [THEN conjunct1, THEN iffD2])
  have "\<not> (\<forall>x\<in>set [str ''aa'', str ''bb'']. \<forall>y\<in>set [str ''aa'', str ''bb'']. x = y)"
    by (simp add: str_def)
  then have neB: "\<not> allStringsEqual [str ''aa'', str ''bb'']"
    unfolding b [THEN conjunct1] .
  note a3 = a [THEN conjunct2, THEN conjunct2, THEN mp, OF okA]
  note b3 = b [THEN conjunct2, THEN conjunct2, THEN mp, OF okB]
  have "captureStableUISamples (captureOf ?A) sampleOptions =
          Inr (map (\<lambda>i. sampleWithHash (?A ! i)) [0..<nat (StableSamples sampleOptions)])"
    by (rule a3 [THEN conjunct2, THEN conjunct1, THEN mp, OF sameA])
  then have runA: "captureStableUISamples (captureOf ?A) sampleOptions =
     Inr [sampleWithHash (str ''aa''), sampleWithHash (str ''aa''), sampleWithHash (str ''aa'')]"
    unfolding n upt by simp
  have "captureStableUISamples (captureOf ?B) sampleOptions =
          Inl (frameUnstable (map (\<lambda>i. Hash (sampleWithHash (?B ! i)))
                 [0..<nat (StableSamples sampleOptions)]) sampleOptions)"
    by (rule b3 [THEN conjunct2, THEN conjunct2, THEN mp, OF diffB])
  then have runB: "captureStableUISamples (captureOf ?B) sampleOptions =
     Inl (frameUnstable ?B sampleOptions)"
    unfolding n upt by (simp add: sampleWithHash_def)
  have det: "Details (frameUnstable ?B sampleOptions) =
     [(str ''hashes'', DStrings ?B), (str ''samples'', DInt 3),
      (str ''interval'', DDuration 200000000)]"
    by (simp add: frameUnstable_def sampleOptions_def)
  from eqA neB runA runB det show ?thesis by (intro conjI)
qed
subsection \<open>Selectors\<close>

lemma pickElement_index:
  "0 \<le> index \<Longrightarrow> pickElement elements index ident = pickElement elements index []"
  by (simp add: pickElement_def)

lemma find_index_Some:
  "e \<in> set elements \<Longrightarrow> Index e = index \<Longrightarrow>
     \<exists>e'. find (\<lambda>x. Index x = index) elements = Some e' \<and> e' \<in> set elements \<and> Index e' = index"
  by (induction elements) auto

lemma count_two:
  "0 \<le> index \<Longrightarrow> trimSpace ident \<noteq> [] \<Longrightarrow> 1 < countElementSelectors index ident label contains"
  by (simp add: countElementSelectors_def Let_def)

lemma trimSpace_ends:
  assumes "trimSpace s \<noteq> []"
  shows "\<not> isSpace (hd (trimSpace s))" and "\<not> isSpace (last (trimSpace s))"
proof -
  let ?u = "dropWhile isSpace s"
  let ?t = "trimSpace s"
  have rev_t: "rev ?t = dropWhile isSpace (rev ?u)" by (simp add: trimSpace_def)
  with assms have "dropWhile isSpace (rev ?u) \<noteq> []" by (metis rev_is_Nil_conv)
  then have "\<not> isSpace (hd (rev ?t))" unfolding rev_t by (rule hd_dropWhile)
  then show "\<not> isSpace (last ?t)" using assms by (simp add: hd_rev)
  have "rev ?u = takeWhile isSpace (rev ?u) @ rev ?t"
    unfolding rev_t by simp
  then have "rev (rev ?u) = rev (takeWhile isSpace (rev ?u) @ rev ?t)" by simp
  then have split: "?u = ?t @ rev (takeWhile isSpace (rev ?u))" by simp
  have "?u \<noteq> []"
  proof
    assume "?u = []"
    with split have "?t = []" by (metis append_is_Nil_conv)
    with assms show False by simp
  qed
  then have "\<not> isSpace (hd ?u)" by (rule hd_dropWhile)
  moreover have "hd ?u = hd ?t" using split assms by (metis hd_append2)
  ultimately show "\<not> isSpace (hd ?t)" by simp
qed

lemma trimSpace_idem: "trimSpace (trimSpace s) = trimSpace s"
proof (cases "trimSpace s = []")
  case True
  have "trimSpace [] = []" by (simp add: trimSpace_def)
  with True show ?thesis by simp
next
  case False
  let ?t = "trimSpace s"
  from trimSpace_ends [OF False] have h: "\<not> isSpace (hd ?t)" and l: "\<not> isSpace (last ?t)" .
  have one: "dropWhile isSpace ?t = ?t"
    using False h by (cases ?t) simp_all
  have "rev ?t \<noteq> []" using False by simp
  moreover have "\<not> isSpace (hd (rev ?t))" using l False by (simp add: hd_rev)
  ultimately have two: "dropWhile isSpace (rev ?t) = rev ?t"
    by (cases "rev ?t") simp_all
  show ?thesis
    unfolding trimSpace_def [of ?t] one two by simp
qed

lemma pickElementBySelectors_multiple:
  "1 < countElementSelectors index (trimSpace ident) (trimSpace label) (trimSpace contains) \<Longrightarrow>
     pickElementBySelectors elements index ident label contains = Inl chooseOnlyOne"
  by (simp add: pickElementBySelectors_def chooseOnlyOne_def Let_def)

lemma countElementSelectors_trim:
  "countElementSelectors index (trimSpace ident) (trimSpace label) (trimSpace contains) =
     countElementSelectors index ident label contains"
  by (simp add: countElementSelectors_def trimSpace_idem)


text \<open>
  Claim C10. The \<^verbatim>\<open>swipe\<close> subcommand looks its element up with \<^verbatim>\<open>pickElement\<close>. When an index is
  given and the list has an element with that index, the lookup returns the first such
  element and the gesture starts at its center, whatever the id, also when no element has
  that id; with a non-empty id beside the index, the resolver of \<^verbatim>\<open>tap\<close>, \<^verbatim>\<open>type\<close> and
  \<^verbatim>\<open>clear\<close> answers the usage error for more than one selector instead.
\<close>

theorem swipe_index_shadows_id:
  assumes "0 \<le> index" "e \<in> set elements" "Index e = index"
  shows "\<exists>e'. find (\<lambda>x. Index x = index) elements = Some e' \<and> e' \<in> set elements \<and>
           Index e' = index \<and>
           pickElement elements index ident = Inr e' \<and>
           swipeStart (Inr (elements, transform)) index ident =
             Inr (pointX (Center e'), pointY (Center e')) \<and>
           (trimSpace ident \<noteq> [] \<longrightarrow>
              pickElementBySelectors elements index ident label contains = Inl chooseOnlyOne)"
proof -
  from find_index_Some [OF assms(2,3)] obtain e'
    where e': "find (\<lambda>x. Index x = index) elements = Some e'" "e' \<in> set elements"
      "Index e' = index"
    by blast
  have pick: "pickElement elements index ident = Inr e'"
    using assms(1) e'(1) by (simp add: pickElement_def)
  have start: "swipeStart (Inr (elements, transform)) index ident =
                 Inr (pointX (Center e'), pointY (Center e'))"
    using assms(1) by (simp add: swipeStart_def pick Let_def)
  have usage: "pickElementBySelectors elements index ident label contains = Inl chooseOnlyOne"
    if "trimSpace ident \<noteq> []"
  proof -
    have "1 < countElementSelectors index ident label contains"
      by (rule count_two [OF assms(1) that])
    then show ?thesis
      by (intro pickElementBySelectors_multiple) (simp add: countElementSelectors_trim)
  qed
  from e' pick start usage show ?thesis by blast
qed

text \<open>C10 on a list of two elements, none of which has the id that is given beside the index.\<close>

theorem swipe_index_shadows_id_witness:
  "sampleButton\<lparr>Index := 2\<rparr> \<in> set [sampleField\<lparr>Index := 1\<rparr>, sampleButton\<lparr>Index := 2\<rparr>] \<and>
   ID (sampleField\<lparr>Index := 1\<rparr>) \<noteq> str ''missing'' \<and>
   ID (sampleButton\<lparr>Index := 2\<rparr>) \<noteq> str ''missing'' \<and>
   trimSpace (str ''missing'') \<noteq> [] \<and>
   pickElement [sampleField\<lparr>Index := 1\<rparr>, sampleButton\<lparr>Index := 2\<rparr>] 2 (str ''missing'') =
     Inr (sampleButton\<lparr>Index := 2\<rparr>) \<and>
   swipeStart (Inr ([sampleField\<lparr>Index := 1\<rparr>, sampleButton\<lparr>Index := 2\<rparr>],
                    \<lparr>screenW = 390, screenH = 844\<rparr>)) 2 (str ''missing'') = Inr (50, 120) \<and>
   pickElementBySelectors [sampleField\<lparr>Index := 1\<rparr>, sampleButton\<lparr>Index := 2\<rparr>] 2 (str ''missing'')
       [] [] = Inl chooseOnlyOne"
proof -
  let ?els = "[sampleField\<lparr>Index := 1\<rparr>, sampleButton\<lparr>Index := 2\<rparr>]"
  have idx: "(0::int) \<le> 2" by simp
  have mem: "sampleButton\<lparr>Index := 2\<rparr> \<in> set ?els" by simp
  have ind: "Index (sampleButton\<lparr>Index := 2\<rparr>) = 2" by simp
  have ids: "ID (sampleField\<lparr>Index := 1\<rparr>) \<noteq> str ''missing''"
    "ID (sampleButton\<lparr>Index := 2\<rparr>) \<noteq> str ''missing''"
    by (simp_all add: sampleField_def sampleButton_def str_def)
  have trim: "trimSpace (str ''missing'') \<noteq> []"
    by (simp add: trimSpace_def str_def isSpace_def)
  have found: "find (\<lambda>x. Index x = 2) ?els = Some (sampleButton\<lparr>Index := 2\<rparr>)"
    by simp
  from swipe_index_shadows_id [OF idx mem ind, of "str ''missing''"
      "\<lparr>screenW = 390, screenH = 844\<rparr>" "[]" "[]"] found trim
  have "pickElement ?els 2 (str ''missing'') = Inr (sampleButton\<lparr>Index := 2\<rparr>)"
    and "swipeStart (Inr (?els, \<lparr>screenW = 390, screenH = 844\<rparr>)) 2 (str ''missing'') =
           Inr (pointX (Center (sampleButton\<lparr>Index := 2\<rparr>)),
                pointY (Center (sampleButton\<lparr>Index := 2\<rparr>)))"
    and "pickElementBySelectors ?els 2 (str ''missing'') [] [] = Inl chooseOnlyOne"
    by auto
  with mem ids trim show ?thesis by (simp add: sampleButton_def)
qed

text \<open>
  Claim C7. A query with more than one selector is to be rejected with the usage error. The
  resolver does so (\<open>pickElementBySelectors_multiple\<close>), but the \<^verbatim>\<open>swipe\<close> subcommand and the
  \<^verbatim>\<open>swipe\<close> step of a flow do not pass through that check: with index 2 and the id
  \<^verbatim>\<open>missing\<close>, two selectors by the resolver's own count, the subcommand resolves the
  element with index 2 and plans the gesture from its center, and the flow step plans it
  from the default point.
\<close>

theorem swipe_two_selectors_evaluation:
  "countElementSelectors 2 (str ''missing'') [] [] = 2 \<and>
   uiSwipe (Inr ([sampleField\<lparr>Index := 1\<rparr>, sampleButton\<lparr>Index := 2\<rparr>],
                 \<lparr>screenW = 390, screenH = 844\<rparr>)) 2 (str ''missing'') (str ''up'') 220 =
     Inr ((50, 120), (50, - 100)) \<and>
   flowSwipeStart (Inr (sampleButton\<lparr>Index := 2\<rparr>)) 2 (str ''missing'') = Inr (196, 426)"
proof -
  have trim: "trimSpace (str ''missing'') \<noteq> []" "trimSpace [] = []"
    by (simp_all add: trimSpace_def str_def isSpace_def)
  have count: "countElementSelectors 2 (str ''missing'') [] [] = 2"
    using trim by (simp add: countElementSelectors_def Let_def)
  have start: "swipeStart (Inr ([sampleField\<lparr>Index := 1\<rparr>, sampleButton\<lparr>Index := 2\<rparr>],
                 \<lparr>screenW = 390, screenH = 844\<rparr>)) 2 (str ''missing'') = Inr (50, 120)"
    by (simp add: swipeStart_def pickElement_def sampleButton_def Let_def)
  have up: "toLower (str ''up'') = str ''up''"
    by (simp add: toLower_def toLowerRune_def str_def)
  have swipe: "uiSwipe (Inr ([sampleField\<lparr>Index := 1\<rparr>, sampleButton\<lparr>Index := 2\<rparr>],
                 \<lparr>screenW = 390, screenH = 844\<rparr>)) 2 (str ''missing'') (str ''up'') 220 =
     Inr ((50, 120), (50, - 100))"
    unfolding uiSwipe_def up start by (simp add: Let_def str_def)
  have flow: "flowSwipeStart (Inr (sampleButton\<lparr>Index := 2\<rparr>)) 2 (str ''missing'') = Inr (196, 426)"
    unfolding flowSwipeStart_def count by (simp add: Let_def)
  from count swipe flow show ?thesis by (intro conjI)
qed
subsection \<open>Scored match\<close>

text \<open>
  The text that the source builds for an element is the joined text in lower case, and
  \<^verbatim>\<open>isInteractiveRole\<close> is the test for one of the seven words.
\<close>

lemma elementText_eq: "elementText e = toLower (joinedText e)"
  by (simp add: elementText_def joinedText_def Let_def)

lemma isInteractiveRole_eq: "isInteractiveRole (Role e) \<longleftrightarrow> interactiveRole e"
proof -
  have "\<not> sublist w []" if "w \<in> set interactiveRoleHints" for w
    using that by (auto simp: interactiveRoleHints_def str_def)
  then show ?thesis
    by (auto simp: isInteractiveRole_def interactiveRole_def interactiveRoleHints_def
        interactiveWords_def stringsContains_def Let_def list_ex_iff)
qed

lemma candidateScore_eq:
  "candidateScore q p e = (if isCandidate q p e then Some (signalScore q p e) else None)"
  by (simp add: candidateScore_def isCandidate_def signalScore_def exactSignals_def
      baseSignals_def exactHit_def substringHit_def elementText_eq isInteractiveRole_eq
      stringsContains_def Let_def)

lemma collectScored_eq:
  "collectScored q p elements acc =
     acc @ map (\<lambda>e. \<lparr>candElement = e, Score = signalScore q p e\<rparr>) (filter (isCandidate q p) elements)"
  by (induction elements arbitrary: acc) (simp_all add: candidateScore_eq)

lemma insertBy_set: "set (insertBy lt x xs) = insert x (set xs)"
  by (induction xs) auto

lemma insertBy_last:
  "last (insertBy lt x xs) = x \<or> (xs \<noteq> [] \<and> last (insertBy lt x xs) = last xs)"
proof (induction xs)
  case Nil
  show ?case by simp
next
  case (Cons y ys)
  have ne: "insertBy lt x ys \<noteq> []" by (cases ys) simp_all
  show ?case
  proof (cases "lt x y")
    case True
    with Cons ne show ?thesis by (cases ys) auto
  next
    case False
    then show ?thesis by simp
  qed
qed

text \<open>
  The sorted prefix is read from its end, so its least element is the last of the list. For a
  comparison that is asymmetric and whose negation is transitive, the insertion keeps that no
  element is less than the last one.
\<close>

lemma insertBy_last_min:
  assumes asym: "\<And>a b. lt a b \<Longrightarrow> \<not> lt b a"
    and negtrans: "\<And>a b c. \<not> lt b a \<Longrightarrow> \<not> lt c b \<Longrightarrow> \<not> lt c a"
  shows "xs = [] \<or> (\<forall>y\<in>set xs. \<not> lt y (last xs)) \<Longrightarrow>
         \<forall>y\<in>set (insertBy lt x xs). \<not> lt y (last (insertBy lt x xs))"
proof (induction xs)
  case Nil
  have "\<not> lt x x" using asym by blast
  then show ?case by simp
next
  case (Cons z zs)
  from Cons.prems have zmin: "\<forall>y\<in>set (z # zs). \<not> lt y (last (z # zs))" by simp
  have ne: "insertBy lt x zs \<noteq> []" by (cases zs) simp_all
  show ?case
  proof (cases "lt x z")
    case True
    have tail: "zs = [] \<or> (\<forall>y\<in>set zs. \<not> lt y (last zs))"
      using zmin by (cases zs) auto
    have inner: "\<forall>y\<in>set (insertBy lt x zs). \<not> lt y (last (insertBy lt x zs))"
      by (rule Cons.IH [OF tail])
    have "\<not> lt z (last (insertBy lt x zs))"
    proof -
      from insertBy_last [of lt x zs]
      consider "last (insertBy lt x zs) = x"
        | "zs \<noteq> []" "last (insertBy lt x zs) = last zs" by blast
      then show ?thesis
      proof cases
        case 1
        with asym [OF True] show ?thesis by simp
      next
        case 2
        with zmin show ?thesis by simp
      qed
    qed
    with inner True ne show ?thesis by simp
  next
    case False
    have "\<not> lt z (last (z # zs))" using zmin by simp
    from negtrans [OF this False] have "\<not> lt x (last (z # zs))" .
    with zmin False show ?thesis by simp
  qed
qed

lemma sortSlice_last_min_aux:
  assumes asym: "\<And>a b. lt a b \<Longrightarrow> \<not> lt b a"
    and negtrans: "\<And>a b c. \<not> lt b a \<Longrightarrow> \<not> lt c b \<Longrightarrow> \<not> lt c a"
  shows "acc = [] \<or> (\<forall>y\<in>set acc. \<not> lt y (last acc)) \<Longrightarrow>
         (let r = foldl (\<lambda>acc x. insertBy lt x acc) acc xs
          in r = [] \<or> (\<forall>y\<in>set r. \<not> lt y (last r)))"
proof (induction xs arbitrary: acc)
  case Nil
  then show ?case by simp
next
  case (Cons x xs)
  have "\<forall>y\<in>set (insertBy lt x acc). \<not> lt y (last (insertBy lt x acc))"
    using asym negtrans Cons.prems by (intro insertBy_last_min [where lt = lt]) blast+
  then have "insertBy lt x acc = [] \<or>
             (\<forall>y\<in>set (insertBy lt x acc). \<not> lt y (last (insertBy lt x acc)))"
    by simp
  from Cons.IH [OF this] show ?case by simp
qed

lemma sortSlice_hd_min:
  assumes asym: "\<And>a b. lt a b \<Longrightarrow> \<not> lt b a"
    and negtrans: "\<And>a b c. \<not> lt b a \<Longrightarrow> \<not> lt c b \<Longrightarrow> \<not> lt c a"
    and "xs \<noteq> []"
  shows "hd (sortSlice lt xs) \<in> set xs" and "\<forall>y\<in>set xs. \<not> lt y (hd (sortSlice lt xs))"
proof -
  define r where "r = foldl (\<lambda>acc x. insertBy lt x acc) [] xs"
  have sorted: "sortSlice lt xs = rev r" by (simp add: sortSlice_def r_def)
  have ne: "sortSlice lt xs \<noteq> []"
    using assms(3) sortSlice_length [of lt xs] by (metis length_0_conv)
  then show "hd (sortSlice lt xs) \<in> set xs"
    using sortSlice_set [of lt xs] by (metis hd_in_set)
  from ne have rne: "r \<noteq> []" by (simp add: sorted)
  have rset: "set r = set xs" using sortSlice_set [of lt xs] by (simp add: sorted)
  have "let r = foldl (\<lambda>acc x. insertBy lt x acc) [] xs
        in r = [] \<or> (\<forall>y\<in>set r. \<not> lt y (last r))"
    using asym negtrans by (intro sortSlice_last_min_aux [where lt = lt]) blast+
  then have "\<forall>y\<in>set r. \<not> lt y (last r)"
    using rne by (simp add: r_def Let_def)
  moreover have "hd (sortSlice lt xs) = last r"
    using rne by (simp add: sorted hd_rev)
  ultimately show "\<forall>y\<in>set xs. \<not> lt y (hd (sortSlice lt xs))"
    by (simp add: rset)
qed

lemma candidateLess_asym: "candidateLess a b \<Longrightarrow> \<not> candidateLess b a"
  by (auto simp: candidateLess_def split: if_splits)

lemma candidateLess_negtrans:
  "\<not> candidateLess b a \<Longrightarrow> \<not> candidateLess c b \<Longrightarrow> \<not> candidateLess c a"
  by (auto simp: candidateLess_def split: if_splits)

lemma pickElementByText_eq:
  assumes q: "q = toLower (trimSpace label)" and p: "p = toLower (trimSpace contains)"
  shows "pickElementByText elements label contains =
     (let candidates = map (\<lambda>e. \<lparr>candElement = e, Score = signalScore q p e\<rparr>)
                         (filter (isCandidate q p) elements)
      in if candidates = []
         then Inl (notFound (if q \<noteq> [] then str ''element label not found: '' @ q
                             else str ''element text not found: '' @ p))
         else Inr (candElement (hd (sortSlice candidateLess candidates))))"
  unfolding pickElementByText_def q [symmetric] p [symmetric] Let_def collectScored_eq notFound_def
  by simp

text \<open>
  Claim C2. For a label query \<open>q\<close> and a contains query \<open>p\<close> in their trimmed, lower-cased
  form, on a list of elements with distinct indices: only enabled elements are scored; the
  score is 90 for a label equal to \<open>q\<close>, 75 for a value equal to \<open>q\<close>, 55 for a nearby label
  equal to \<open>q\<close> (each compared trimmed and up to case), 45 for \<open>p\<close> occurring in the text made
  of the trimmed label, value, nearby label and role with one space between them, in lower
  case, 24 if visible, 10 if not offscreen, 15 for a role that contains one of the words
  \<^verbatim>\<open>button\<close>, \<^verbatim>\<open>textfield\<close>, \<^verbatim>\<open>securetextfield\<close>, \<^verbatim>\<open>switch\<close>, \<^verbatim>\<open>slider\<close>, \<^verbatim>\<open>cell\<close>, \<^verbatim>\<open>link\<close>,
  and 8 for a non-empty label; an element without an exact hit for a label query, or without
  the substring hit for a contains query, is not a candidate; the result is the candidate of
  highest score, the one of least index among equal scores; and without candidates the
  result is the error \<^verbatim>\<open>ELEMENT_NOT_FOUND\<close>.
\<close>

theorem pickElementByText_scoring:
  assumes q: "q = toLower (trimSpace label)" and p: "p = toLower (trimSpace contains)"
    and distinct: "distinct (map Index elements)"
  shows
    "(\<forall>e. candidateScore q p e =
            (if Enabled e \<and> (q \<noteq> [] \<longrightarrow> exactHit q e) \<and> (p \<noteq> [] \<longrightarrow> substringHit p e)
             then Some (signalScore q p e) else None)) \<and>
     (\<forall>e. substringHit p e \<longleftrightarrow>
            sublist p (toLower (toLower
              (trimSpace (Label e) @ str '' '' @ trimSpace (Value e) @ str '' '' @
               trimSpace (NearbyLabel e) @ str '' '' @ trimSpace (Role e))))) \<and>
     (\<forall>e. signalScore q p e =
            (if q \<noteq> [] \<and> equalFold (trimSpace (Label e)) q then 90 else 0) +
            (if q \<noteq> [] \<and> equalFold (trimSpace (Value e)) q then 75 else 0) +
            (if q \<noteq> [] \<and> equalFold (trimSpace (NearbyLabel e)) q then 55 else 0) +
            (if p \<noteq> [] \<and> substringHit p e then 45 else 0) +
            (if Visible e then 24 else 0) +
            (if \<not> Offscreen e then 10 else 0) +
            (if \<exists>w\<in>set [str ''button'', str ''textfield'', str ''securetextfield'',
                           str ''switch'', str ''slider'', str ''cell'', str ''link''].
                  sublist w (toLower (trimSpace (Role e)))
             then 15 else 0) +
            (if trimSpace (Label e) \<noteq> [] then 8 else 0)) \<and>
     ((\<forall>e\<in>set elements. \<not> isCandidate q p e) \<longrightarrow>
        pickElementByText elements label contains =
          Inl (notFound (if q \<noteq> [] then str ''element label not found: '' @ q
                         else str ''element text not found: '' @ p))) \<and>
     ((\<exists>e\<in>set elements. isCandidate q p e) \<longrightarrow>
        (\<exists>w\<in>set elements.
           pickElementByText elements label contains = Inr w \<and> isCandidate q p w \<and>
           (\<forall>e\<in>set elements. isCandidate q p e \<and> e \<noteq> w \<longrightarrow>
              signalScore q p e < signalScore q p w \<or>
              (signalScore q p e = signalScore q p w \<and> Index w < Index e))))"
proof -
  let ?mk = "\<lambda>e. \<lparr>candElement = e, Score = signalScore q p e\<rparr>"
  let ?cands = "map ?mk (filter (isCandidate q p) elements)"
  have score: "\<forall>e. candidateScore q p e =
            (if Enabled e \<and> (q \<noteq> [] \<longrightarrow> exactHit q e) \<and> (p \<noteq> [] \<longrightarrow> substringHit p e)
             then Some (signalScore q p e) else None)"
    by (simp add: candidateScore_eq isCandidate_def)
  have joined: "\<forall>e. substringHit p e \<longleftrightarrow>
            sublist p (toLower (toLower
              (trimSpace (Label e) @ str '' '' @ trimSpace (Value e) @ str '' '' @
               trimSpace (NearbyLabel e) @ str '' '' @ trimSpace (Role e))))"
    by (simp add: substringHit_def joinedText_def)
  have formula: "\<forall>e. signalScore q p e =
            (if q \<noteq> [] \<and> equalFold (trimSpace (Label e)) q then 90 else 0) +
            (if q \<noteq> [] \<and> equalFold (trimSpace (Value e)) q then 75 else 0) +
            (if q \<noteq> [] \<and> equalFold (trimSpace (NearbyLabel e)) q then 55 else 0) +
            (if p \<noteq> [] \<and> substringHit p e then 45 else 0) +
            (if Visible e then 24 else 0) +
            (if \<not> Offscreen e then 10 else 0) +
            (if \<exists>w\<in>set [str ''button'', str ''textfield'', str ''securetextfield'',
                           str ''switch'', str ''slider'', str ''cell'', str ''link''].
                  sublist w (toLower (trimSpace (Role e)))
             then 15 else 0) +
            (if trimSpace (Label e) \<noteq> [] then 8 else 0)"
    unfolding signalScore_def interactiveRole_def interactiveWords_def by (rule allI) (rule refl)
  have none: "pickElementByText elements label contains =
          Inl (notFound (if q \<noteq> [] then str ''element label not found: '' @ q
                         else str ''element text not found: '' @ p))"
    if "\<forall>e\<in>set elements. \<not> isCandidate q p e"
  proof -
    from that have "filter (isCandidate q p) elements = []" by (simp add: filter_empty_conv)
    then show ?thesis
      unfolding pickElementByText_eq [OF q p] by (simp add: Let_def)
  qed
  have some: "\<exists>w\<in>set elements.
           pickElementByText elements label contains = Inr w \<and> isCandidate q p w \<and>
           (\<forall>e\<in>set elements. isCandidate q p e \<and> e \<noteq> w \<longrightarrow>
              signalScore q p e < signalScore q p w \<or>
              (signalScore q p e = signalScore q p w \<and> Index w < Index e))"
    if "\<exists>e\<in>set elements. isCandidate q p e"
  proof -
    from that have ne: "?cands \<noteq> []" by (simp add: filter_empty_conv)
    let ?h = "hd (sortSlice candidateLess ?cands)"
    have hmem: "?h \<in> set ?cands"
      using candidateLess_asym candidateLess_negtrans ne
      by (intro sortSlice_hd_min(1) [where lt = candidateLess]) blast+
    have hmin: "\<forall>c\<in>set ?cands. \<not> candidateLess c ?h"
      using candidateLess_asym candidateLess_negtrans ne
      by (intro sortSlice_hd_min(2) [where lt = candidateLess]) blast+
    from hmem obtain w where w: "w \<in> set elements" "isCandidate q p w" "?h = ?mk w"
      by auto
    have pick: "pickElementByText elements label contains = Inr w"
      unfolding pickElementByText_eq [OF q p] using ne w(3) by (simp add: Let_def)
    have inj: "Index e \<noteq> Index w" if "e \<in> set elements" "e \<noteq> w" for e
      using distinct that w(1) by (meson distinct_map inj_onD)
    have best: "signalScore q p e < signalScore q p w \<or>
              (signalScore q p e = signalScore q p w \<and> Index w < Index e)"
      if e: "e \<in> set elements" "isCandidate q p e" "e \<noteq> w" for e
    proof -
      from e have "?mk e \<in> set ?cands" by simp
      with hmin have "\<not> candidateLess (?mk e) (?mk w)" unfolding w(3) [symmetric] by blast
      then show ?thesis using inj [OF e(1,3)] by (auto simp: candidateLess_def split: if_splits)
    qed
    from w(1,2) pick best show ?thesis by blast
  qed
  from score joined formula none some show ?thesis by (intro conjI impI)
qed

text \<open>Runes of the case tables: letters with and without a lower case, and one-sided folds.\<close>

lemma case_tables_samples:
  "toLowerRune 201 = 233" "toLowerRune 233 = 233" "foldRune 201 = 233" "foldRune 233 = 233"
  "toLowerRune 304 = 105" "foldRune 304 = 304" "toLowerRune 8490 = 107" "foldRune 8490 = 107"
  "toLowerRune 7838 = 223" "foldRune 7838 = 223" "toLowerRune 5024 = 43888"
  "foldRune 43888 = 5024" "foldRune 383 = 115" "toLowerRune 931 = 963" "foldRune 962 = 963"
  by (simp_all add: toLowerRune_def foldRune_def applyRanges_def lowerRanges_def foldRanges_def)

lemma e_acute:
  "applyRanges lowerRanges 201 = 233" "applyRanges lowerRanges 233 = 233"
  "applyRanges foldRanges 201 = 233" "applyRanges foldRanges 233 = 233"
  using case_tables_samples(1-4) by (simp_all add: toLowerRune_def foldRune_def)

lemmas string_eval = str_def trimSpace_def isSpace_def toLower_def toLowerRune_def equalFold_def
  foldRune_def stringsContains_def sublist_code

lemmas score_eval = isCandidate_def signalScore_def exactHit_def substringHit_def joinedText_def
  interactiveRole_def interactiveWords_def zeroElement_def zeroRect_def

lemma next_queries:
  "toLower (trimSpace (str ''next'')) = str ''next''"
  "toLower (trimSpace (str ''zzz'')) = str ''zzz''"
  "toLower (trimSpace (str '' UTTO '')) = str ''utto''"
  "toLower (trimSpace []) = []"
  by (simp_all add: string_eval)

lemma next_label_query:
  "isCandidate (str ''next'') [] hiddenNext" "isCandidate (str ''next'') [] visibleNext"
  "signalScore (str ''next'') [] hiddenNext = 123" "signalScore (str ''next'') [] visibleNext = 147"
  by (simp_all add: score_eval hiddenNext_def visibleNext_def string_eval)

lemma next_contains_query:
  "isCandidate [] (str ''utto'') hiddenNext" "isCandidate [] (str ''utto'') visibleNext"
  "signalScore [] (str ''utto'') hiddenNext = 78" "signalScore [] (str ''utto'') visibleNext = 102"
  by (simp_all add: score_eval hiddenNext_def visibleNext_def string_eval)

lemma next_unknown_query:
  "\<not> isCandidate (str ''zzz'') [] hiddenNext" "\<not> isCandidate (str ''zzz'') [] visibleNext"
  by (simp_all add: score_eval hiddenNext_def visibleNext_def string_eval)

text \<open>
  Contains queries on the element with four texts: a part of the label, of the value, of the
  nearby label and of the role, and three that span the space between two neighbours; the
  label and the value run together are not in the text. Label queries for its value and its
  nearby label.
\<close>

lemma save_queries:
  "toLower (trimSpace (str ''AVE'')) = str ''ave''"
  "toLower (trimSpace (str ''raf'')) = str ''raf''"
  "toLower (trimSpace (str ''itl'')) = str ''itl''"
  "toLower (trimSpace (str ''utto'')) = str ''utto''"
  "toLower (trimSpace (str ''e d'')) = str ''e d''"
  "toLower (trimSpace (str ''t t'')) = str ''t t''"
  "toLower (trimSpace (str ''e b'')) = str ''e b''"
  "toLower (trimSpace (str ''savedraft'')) = str ''savedraft''"
  "toLower (trimSpace (str ''Draft'')) = str ''draft''"
  "toLower (trimSpace (str ''title '')) = str ''title''"
  by (simp_all add: string_eval)

lemma save_contains:
  "isCandidate [] (str ''ave'') saveButton" "isCandidate [] (str ''raf'') saveButton"
  "isCandidate [] (str ''itl'') saveButton" "isCandidate [] (str ''utto'') saveButton"
  "isCandidate [] (str ''e d'') saveButton" "isCandidate [] (str ''t t'') saveButton"
  "isCandidate [] (str ''e b'') saveButton" "\<not> isCandidate [] (str ''savedraft'') saveButton"
  by (simp_all add: score_eval saveButton_def string_eval)

lemma save_scores:
  "signalScore [] (str ''raf'') saveButton = 102"
  "isCandidate (str ''draft'') [] saveButton" "signalScore (str ''draft'') [] saveButton = 132"
  "isCandidate (str ''title'') [] saveButton" "signalScore (str ''title'') [] saveButton = 112"
  by (simp_all add: score_eval saveButton_def string_eval)

text \<open>The label in capitals with the query in small letters, as a label and as a contains query.\<close>

lemma ecole_queries:
  "toLower (trimSpace ecoleLower) = ecoleLower"
  "isCandidate ecoleLower [] ecoleLabel" "signalScore ecoleLower [] ecoleLabel = 132"
  "isCandidate [] ecoleLower ecoleLabel" "signalScore [] ecoleLower ecoleLabel = 87"
  by (simp_all add: score_eval ecoleLabel_def ecoleLower_def ecoleUpper_def string_eval e_acute)

text \<open>
  C2 on the two buttons of the repository's test: a label query and a contains query choose
  the visible button, and a label that no element has is not found. On the element with four
  texts, each part of the text and each space between two parts is found, the value and the
  nearby label are exact hits of a label query, and a text that is not there is not found. A
  label in capitals outside ASCII is found by the query in small letters.
\<close>

theorem pickElementByText_scoring_witness:
  "distinct (map Index [hiddenNext, visibleNext]) \<and>
   isCandidate (str ''next'') [] hiddenNext \<and> isCandidate (str ''next'') [] visibleNext \<and>
   signalScore (str ''next'') [] hiddenNext = 123 \<and>
   signalScore (str ''next'') [] visibleNext = 147 \<and>
   pickElementByText [hiddenNext, visibleNext] (str ''next'') [] = Inr visibleNext \<and>
   signalScore [] (str ''utto'') hiddenNext = 78 \<and>
   signalScore [] (str ''utto'') visibleNext = 102 \<and>
   pickElementByText [hiddenNext, visibleNext] [] (str '' UTTO '') = Inr visibleNext \<and>
   pickElementByText [hiddenNext, visibleNext] (str ''zzz'') [] =
     Inl (notFound (str ''element label not found: zzz'')) \<and>
   pickElementByText [saveButton] [] (str ''AVE'') = Inr saveButton \<and>
   pickElementByText [saveButton] [] (str ''raf'') = Inr saveButton \<and>
   pickElementByText [saveButton] [] (str ''itl'') = Inr saveButton \<and>
   pickElementByText [saveButton] [] (str ''utto'') = Inr saveButton \<and>
   pickElementByText [saveButton] [] (str ''e d'') = Inr saveButton \<and>
   pickElementByText [saveButton] [] (str ''t t'') = Inr saveButton \<and>
   pickElementByText [saveButton] [] (str ''e b'') = Inr saveButton \<and>
   pickElementByText [saveButton] [] (str ''savedraft'') =
     Inl (notFound (str ''element text not found: savedraft'')) \<and>
   signalScore [] (str ''raf'') saveButton = 102 \<and>
   signalScore (str ''draft'') [] saveButton = 132 \<and>
   pickElementByText [saveButton] (str ''Draft'') [] = Inr saveButton \<and>
   signalScore (str ''title'') [] saveButton = 112 \<and>
   pickElementByText [saveButton] (str ''title '') [] = Inr saveButton \<and>
   signalScore ecoleLower [] ecoleLabel = 132 \<and>
   pickElementByText [ecoleLabel] ecoleLower [] = Inr ecoleLabel \<and>
   signalScore [] ecoleLower ecoleLabel = 87 \<and>
   pickElementByText [ecoleLabel] [] ecoleLower = Inr ecoleLabel"
proof -
  let ?els = "[hiddenNext, visibleNext]"
  have d: "distinct (map Index ?els)" by (simp add: hiddenNext_def visibleNext_def)
  have "Index hiddenNext \<noteq> Index visibleNext"
    by (simp add: hiddenNext_def visibleNext_def)
  then have differ: "hiddenNext \<noteq> visibleNext" by auto
  have winner: "pickElementByText ?els label contains = Inr visibleNext"
    if q: "q = toLower (trimSpace label)" and p: "p = toLower (trimSpace contains)"
      and c: "isCandidate q p hiddenNext" "isCandidate q p visibleNext"
      and lt: "signalScore q p hiddenNext < signalScore q p visibleNext"
    for q p label contains
  proof -
    have "\<exists>e\<in>set ?els. isCandidate q p e" using c by simp
    from pickElementByText_scoring
      [OF q p d, THEN conjunct2, THEN conjunct2, THEN conjunct2, THEN conjunct2, THEN mp, OF this]
    obtain w where w: "w \<in> set ?els" "pickElementByText ?els label contains = Inr w"
      "\<forall>e\<in>set ?els. isCandidate q p e \<and> e \<noteq> w \<longrightarrow>
          signalScore q p e < signalScore q p w \<or>
          (signalScore q p e = signalScore q p w \<and> Index w < Index e)"
      by blast
    have "w \<noteq> hiddenNext"
    proof
      assume "w = hiddenNext"
      with w(3) c(2) differ lt show False by auto
    qed
    with w(1) have "w = visibleNext" by simp
    with w(2) show ?thesis by simp
  qed
  have single: "pickElementByText [e] label contains = Inr e"
    if q: "q = toLower (trimSpace label)" and p: "p = toLower (trimSpace contains)"
      and c: "isCandidate q p e"
    for q p label contains e
  proof -
    have one: "distinct (map Index [e])" by simp
    have "\<exists>x\<in>set [e]. isCandidate q p x" using c by simp
    from pickElementByText_scoring
      [OF q p one, THEN conjunct2, THEN conjunct2, THEN conjunct2, THEN conjunct2, THEN mp, OF this]
    obtain w where "w \<in> set [e]" "pickElementByText [e] label contains = Inr w"
      by blast
    then show ?thesis by simp
  qed
  have missing: "pickElementByText [e] [] contains =
                   Inl (notFound (str ''element text not found: '' @ p))"
    if p: "p = toLower (trimSpace contains)" and c: "\<not> isCandidate [] p e"
    for p contains e
  proof -
    have one: "distinct (map Index [e])" by simp
    have q: "[] = toLower (trimSpace [])" by (simp add: next_queries)
    from c have "\<forall>x\<in>set [e]. \<not> isCandidate [] p x" by simp
    from pickElementByText_scoring
      [OF q p one, THEN conjunct2, THEN conjunct2, THEN conjunct2, THEN conjunct1, THEN mp, OF this]
    show ?thesis by simp
  qed
  have a: "pickElementByText ?els (str ''next'') [] = Inr visibleNext"
    by (rule winner [of "str ''next''" _ "[]"])
      (simp_all add: next_queries next_label_query)
  have b: "pickElementByText ?els [] (str '' UTTO '') = Inr visibleNext"
    by (rule winner [of "[]" _ "str ''utto''"])
      (simp_all add: next_queries next_contains_query)
  have "\<forall>e\<in>set ?els. \<not> isCandidate (str ''zzz'') [] e"
    by (simp add: next_unknown_query)
  from pickElementByText_scoring
    [OF next_queries(2) [symmetric] next_queries(4) [symmetric] d,
     THEN conjunct2, THEN conjunct2, THEN conjunct2, THEN conjunct1, THEN mp, OF this]
  have "pickElementByText ?els (str ''zzz'') [] =
          Inl (notFound (if str ''zzz'' \<noteq> [] then str ''element label not found: '' @ str ''zzz''
                         else str ''element text not found: '' @ []))" .
  then have c: "pickElementByText ?els (str ''zzz'') [] =
     Inl (notFound (str ''element label not found: zzz''))"
    by (simp add: str_def)
  have s1: "pickElementByText [saveButton] [] (str ''AVE'') = Inr saveButton"
    by (rule single [of "[]" _ "str ''ave''"]) (simp_all add: next_queries save_queries save_contains)
  have s2: "pickElementByText [saveButton] [] (str ''raf'') = Inr saveButton"
    by (rule single [of "[]" _ "str ''raf''"]) (simp_all add: next_queries save_queries save_contains)
  have s3: "pickElementByText [saveButton] [] (str ''itl'') = Inr saveButton"
    by (rule single [of "[]" _ "str ''itl''"]) (simp_all add: next_queries save_queries save_contains)
  have s4: "pickElementByText [saveButton] [] (str ''utto'') = Inr saveButton"
    by (rule single [of "[]" _ "str ''utto''"]) (simp_all add: next_queries save_queries save_contains)
  have s5: "pickElementByText [saveButton] [] (str ''e d'') = Inr saveButton"
    by (rule single [of "[]" _ "str ''e d''"]) (simp_all add: next_queries save_queries save_contains)
  have s6: "pickElementByText [saveButton] [] (str ''t t'') = Inr saveButton"
    by (rule single [of "[]" _ "str ''t t''"]) (simp_all add: next_queries save_queries save_contains)
  have s7: "pickElementByText [saveButton] [] (str ''e b'') = Inr saveButton"
    by (rule single [of "[]" _ "str ''e b''"]) (simp_all add: next_queries save_queries save_contains)
  have "pickElementByText [saveButton] [] (str ''savedraft'') =
          Inl (notFound (str ''element text not found: '' @ str ''savedraft''))"
    by (rule missing) (simp_all add: save_queries save_contains)
  then have s8: "pickElementByText [saveButton] [] (str ''savedraft'') =
                   Inl (notFound (str ''element text not found: savedraft''))"
    by (simp add: str_def)
  have s9: "pickElementByText [saveButton] (str ''Draft'') [] = Inr saveButton"
    by (rule single [of "str ''draft''" _ "[]"]) (simp_all add: next_queries save_queries save_scores)
  have s10: "pickElementByText [saveButton] (str ''title '') [] = Inr saveButton"
    by (rule single [of "str ''title''" _ "[]"]) (simp_all add: next_queries save_queries save_scores)
  have e1: "pickElementByText [ecoleLabel] ecoleLower [] = Inr ecoleLabel"
    by (rule single [of ecoleLower _ "[]"]) (simp_all add: next_queries ecole_queries)
  have e2: "pickElementByText [ecoleLabel] [] ecoleLower = Inr ecoleLabel"
    by (rule single [of "[]" _ ecoleLower]) (simp_all add: next_queries ecole_queries)
  from d a b c next_label_query next_contains_query s1 s2 s3 s4 s5 s6 s7 s8 s9 s10
    save_scores(1,3,5) ecole_queries(3,5) e1 e2
  show ?thesis by (intro conjI)
qed

end
